theory Spec2Isabelle
  imports Complex_Main
begin

section \<open>Python values\<close>

text \<open>
  A Python / NumPy float is modelled by its kind: a finite number (carried as a real, so
  rounding, overflow and the sign of zero are not modelled), one of the two infinities,
  or not-a-number. The special values follow IEEE 754, which is what the source relies on
  when it uses \<^verbatim>\<open>np.nan\<close> as its marker for a failed detection.
\<close>

datatype pyfloat = Num real | PInf | NInf | NaN

text \<open>The exceptions met in the modelled code: those it raises itself, those of the
  Python operations it uses, and the one pandas raises on a file without columns.\<close>

datatype py_error =
  KeyError | IndexError | TypeError | ZeroDivisionError | EmptyDataError | ValueError string

text \<open>\<^verbatim>\<open>a == b\<close> on floats: not-a-number is unequal to everything, itself included.\<close>

definition py_eq :: "pyfloat \<Rightarrow> pyfloat \<Rightarrow> bool" where
  "py_eq a b = (a \<noteq> NaN \<and> b \<noteq> NaN \<and> a = b)"

definition is_finite :: "pyfloat \<Rightarrow> bool" where
  "is_finite a = (case a of Num x \<Rightarrow> True | _ \<Rightarrow> False)"

fun fneg :: "pyfloat \<Rightarrow> pyfloat" where
  "fneg (Num x) = Num (- x)"
| "fneg PInf = NInf"
| "fneg NInf = PInf"
| "fneg NaN = NaN"

fun fadd :: "pyfloat \<Rightarrow> pyfloat \<Rightarrow> pyfloat" where
  "fadd NaN b = NaN"
| "fadd a NaN = NaN"
| "fadd (Num x) (Num y) = Num (x + y)"
| "fadd PInf NInf = NaN"
| "fadd NInf PInf = NaN"
| "fadd PInf b = PInf"
| "fadd a PInf = PInf"
| "fadd NInf b = NInf"
| "fadd a NInf = NInf"

definition fsub :: "pyfloat \<Rightarrow> pyfloat \<Rightarrow> pyfloat" where
  "fsub a b = fadd a (fneg b)"

fun fmul :: "pyfloat \<Rightarrow> pyfloat \<Rightarrow> pyfloat" where
  "fmul NaN b = NaN"
| "fmul a NaN = NaN"
| "fmul (Num x) (Num y) = Num (x * y)"
| "fmul (Num x) PInf = (if x = 0 then NaN else if 0 < x then PInf else NInf)"
| "fmul (Num x) NInf = (if x = 0 then NaN else if 0 < x then NInf else PInf)"
| "fmul PInf (Num y) = (if y = 0 then NaN else if 0 < y then PInf else NInf)"
| "fmul NInf (Num y) = (if y = 0 then NaN else if 0 < y then NInf else PInf)"
| "fmul PInf PInf = PInf"
| "fmul PInf NInf = NInf"
| "fmul NInf PInf = NInf"
| "fmul NInf NInf = PInf"

text \<open>Division as NumPy does it: a division by zero gives an infinity or not-a-number,
  not an exception.\<close>

fun fdiv :: "pyfloat \<Rightarrow> pyfloat \<Rightarrow> pyfloat" where
  "fdiv NaN b = NaN"
| "fdiv a NaN = NaN"
| "fdiv (Num x) (Num y) =
     (if y = 0 then (if x = 0 then NaN else if 0 < x then PInf else NInf) else Num (x / y))"
| "fdiv (Num x) PInf = Num 0"
| "fdiv (Num x) NInf = Num 0"
| "fdiv PInf (Num y) = (if 0 \<le> y then PInf else NInf)"
| "fdiv NInf (Num y) = (if 0 \<le> y then NInf else PInf)"
| "fdiv PInf PInf = NaN"
| "fdiv PInf NInf = NaN"
| "fdiv NInf PInf = NaN"
| "fdiv NInf NInf = NaN"

text \<open>
  The pandas reductions \<^verbatim>\<open>Series.sum()\<close> and \<^verbatim>\<open>Series.mean()\<close> skip
  missing values: the sum of what is left (zero when nothing is), and that sum divided
  by the number of values left (missing when nothing is).
\<close>

definition pd_sum :: "pyfloat list \<Rightarrow> pyfloat" where
  "pd_sum xs = foldl fadd (Num 0) (filter (\<lambda>x. x \<noteq> NaN) xs)"

definition pd_mean :: "pyfloat list \<Rightarrow> pyfloat" where
  "pd_mean xs =
     (let present = filter (\<lambda>x. x \<noteq> NaN) xs
      in if present = [] then NaN else fdiv (pd_sum present) (Num (real (length present))))"

text \<open>The number a finite float stands for.\<close>

fun number :: "pyfloat \<Rightarrow> real" where
  "number (Num x) = x"
| "number PInf = 0"
| "number NInf = 0"
| "number NaN = 0"

text \<open>
  The names of regions of interest, structure keys and aliases are Python strings over
  all of Unicode: lists of code points. \<^verbatim>\<open>str.lower()\<close> follows the Unicode
  case mappings, which are not modelled: wherever the code calls it, the model takes
  the function as the parameter \<open>lower\<close>. \<^verbatim>\<open>str.strip(" ")\<close> removes the spaces
  (code point 32), and only the spaces, at both ends.
\<close>

type_synonym pystr = "nat list"

text \<open>The Python string of a literal of the source.\<close>

definition ascii :: "string \<Rightarrow> pystr" where
  "ascii s = map of_char s"

definition strip_spaces :: "pystr \<Rightarrow> pystr" where
  "strip_spaces s = rev (dropWhile (\<lambda>c. c = 32) (rev (dropWhile (\<lambda>c. c = 32) s)))"
section \<open>Winston-Lutz: the field and ball-bearing locator\<close>

text \<open>
  A centre is the two-element list \<^verbatim>\<open>[x, y]\<close> of the source, here a pair. The
  routines of \<^verbatim>\<open>pymedphys._wlutz\<close> and of pylinac are not part of the modelled
  files; they are parameters. Each one is a function of the image path (standing for
  the decoded image and its interpolated field) and of the geometry it is given, and
  each either returns or raises \<^verbatim>\<open>ValueError\<close> (the value \<open>None\<close>), the one
  exception the source catches. Memoisation by \<^verbatim>\<open>st.cache\<close> does not change what
  a call returns and is left out: the model is the body that runs on a cache miss.
\<close>

type_synonym point = "pyfloat \<times> pyfloat"

record wlutz_env =
  field_centre_and_rotation_refining :: "string \<Rightarrow> point \<Rightarrow> pyfloat \<Rightarrow> (point \<times> pyfloat) option"
  optimise_bb_centre ::
    "string \<Rightarrow> pyfloat \<Rightarrow> point \<Rightarrow> pyfloat \<Rightarrow> point \<Rightarrow> pyfloat \<Rightarrow> point option"
  run_wlutz :: "string \<Rightarrow> point \<Rightarrow> pyfloat \<Rightarrow> point \<Rightarrow> pyfloat \<Rightarrow> (point \<times> point) option"

text \<open>The dictionary built by \<^verbatim>\<open>_get_wlutz_input_parameters\<close>.\<close>

record wlutz_input_parameters =
  bb_diameter :: pyfloat
  edge_lengths :: point
  penumbra :: pyfloat
  field :: string
  pymedphys_field_centre :: point
  field_rotation :: pyfloat

type_synonym detection = "point \<times> pyfloat \<times> point"

definition get_pymedphys_field_centre_and_rotation ::
    "wlutz_env \<Rightarrow> string \<Rightarrow> point \<Rightarrow> pyfloat \<Rightarrow> point \<times> pyfloat" where
  "get_pymedphys_field_centre_and_rotation env image_path edges pen =
     (case field_centre_and_rotation_refining env image_path edges pen of
        Some (field_centre, rotation) \<Rightarrow> (field_centre, rotation)
      | None \<Rightarrow> ((NaN, NaN), NaN))"

definition get_wlutz_input_parameters ::
    "wlutz_env \<Rightarrow> string \<Rightarrow> pyfloat \<Rightarrow> point \<Rightarrow> pyfloat \<Rightarrow> wlutz_input_parameters" where
  "get_wlutz_input_parameters env image_path bb edges pen =
     (let (field_centre, rotation) =
            get_pymedphys_field_centre_and_rotation env image_path edges pen
      in \<lparr>bb_diameter = bb, edge_lengths = edges, penumbra = pen, field = image_path,
           pymedphys_field_centre = field_centre, field_rotation = rotation\<rparr>)"

definition pymedphys_wlutz_calculate :: "wlutz_env \<Rightarrow> wlutz_input_parameters \<Rightarrow> detection" where
  "pymedphys_wlutz_calculate env p =
     (let field_centre = pymedphys_field_centre p;
          bb_centre =
            (case optimise_bb_centre env (field p) (bb_diameter p) (edge_lengths p) (penumbra p)
                    field_centre (field_rotation p) of
               Some c \<Rightarrow> c
             | None \<Rightarrow> (NaN, NaN))
      in (field_centre, field_rotation p, bb_centre))"

definition pylinac_wlutz_calculate :: "wlutz_env \<Rightarrow> wlutz_input_parameters \<Rightarrow> detection" where
  "pylinac_wlutz_calculate env p =
     (case run_wlutz env (field p) (edge_lengths p) (penumbra p) (pymedphys_field_centre p)
             (field_rotation p) of
        Some (field_centre, bb_centre) \<Rightarrow> (field_centre, field_rotation p, bb_centre)
      | None \<Rightarrow> ((NaN, NaN), field_rotation p, (NaN, NaN)))"

definition ALGORITHM_FUNCTION_MAP ::
    "string \<Rightarrow> (wlutz_env \<Rightarrow> wlutz_input_parameters \<Rightarrow> detection) option" where
  "ALGORITHM_FUNCTION_MAP =
     [''PyMedPhys'' \<mapsto> pymedphys_wlutz_calculate, ''PyLinac'' \<mapsto> pylinac_wlutz_calculate]"

text \<open>
  Every call of an algorithm function is recorded, so that what a run computed can be
  read off: the event names the algorithm and carries the parameters it was called with.
\<close>

datatype event = Invoked string wlutz_input_parameters

definition calculate_wlutz ::
    "wlutz_env \<Rightarrow> string \<Rightarrow> string \<Rightarrow> pyfloat \<Rightarrow> point \<Rightarrow> pyfloat
       \<Rightarrow> event list \<times> (py_error + detection)" where
  "calculate_wlutz env image_path algorithm bb edges pen =
     (let p = get_wlutz_input_parameters env image_path bb edges pen
      in if py_eq (field_rotation p) NaN
         then ([], Inr ((NaN, NaN), NaN, (NaN, NaN)))
         else (case ALGORITHM_FUNCTION_MAP algorithm of
                 None \<Rightarrow> ([], Inl KeyError)
               | Some calculate_function \<Rightarrow>
                   ([Invoked algorithm p], Inr (calculate_function env p))))"

text \<open>The four coordinates of a detection result.\<close>

definition coordinates :: "detection \<Rightarrow> pyfloat list" where
  "coordinates d = (case d of ((fx, fy), rotation, (bx, by)) \<Rightarrow> [fx, fy, bx, by])"

definition all_finite_or_all_nan :: "detection \<Rightarrow> bool" where
  "all_finite_or_all_nan d =
     (list_all is_finite (coordinates d) \<or> list_all (\<lambda>c. c = NaN) (coordinates d))"

section \<open>Tables\<close>

text \<open>
  A pandas \<^verbatim>\<open>DataFrame\<close> is a list of column names and a list of rows, each row
  holding one cell per column in the order of the names. A cell is a string or a float;
  a missing value is the float not-a-number, as in pandas. Two cells are the same value
  for \<^verbatim>\<open>drop_duplicates\<close> exactly when they are equal here (pandas treats two
  missing values as duplicates of each other).
\<close>

datatype cell = Str string | Flt pyfloat

record frame =
  columns :: "string list"
  rows :: "cell list list"

definition empty_frame :: frame where
  "empty_frame = \<lparr>columns = [], rows = []\<rparr>"

fun index_of :: "'a \<Rightarrow> 'a list \<Rightarrow> nat option" where
  "index_of c [] = None"
| "index_of c (x # xs) = (if c = x then Some 0 else map_option Suc (index_of c xs))"

text \<open>The cell at a position of a row; a row too short for the position has a missing
  value there.\<close>

definition cell_at :: "cell list \<Rightarrow> nat \<Rightarrow> cell" where
  "cell_at r j = (if j < length r then r ! j else Flt NaN)"

text \<open>The cell of row \<open>r\<close> under the column \<open>c\<close>; missing when the table has no such column.\<close>

definition lookup :: "string list \<Rightarrow> cell list \<Rightarrow> string \<Rightarrow> cell" where
  "lookup cols r c = (case index_of c cols of None \<Rightarrow> Flt NaN | Some j \<Rightarrow> cell_at r j)"

text \<open>\<^verbatim>\<open>df[name]\<close>: one column, or \<^verbatim>\<open>KeyError\<close>.\<close>

definition get_column :: "frame \<Rightarrow> string \<Rightarrow> py_error + cell list" where
  "get_column f c =
     (case index_of c (columns f) of
        None \<Rightarrow> Inl KeyError
      | Some j \<Rightarrow> Inr (map (\<lambda>r. cell_at r j) (rows f)))"

text \<open>\<^verbatim>\<open>df.loc[df["filepath"] == path]\<close>: the rows whose filepath cell is that string.\<close>

definition loc_filepath :: "frame \<Rightarrow> string \<Rightarrow> py_error + frame" where
  "loc_filepath f path =
     (case index_of ''filepath'' (columns f) of
        None \<Rightarrow> Inl KeyError
      | Some j \<Rightarrow> Inr (f\<lparr>rows := filter (\<lambda>r. cell_at r j = Str path) (rows f)\<rparr>))"

text \<open>\<^verbatim>\<open>df[names]\<close>: the named columns in the order asked for; \<^verbatim>\<open>KeyError\<close>
  when the table lacks one of them.\<close>

definition select_columns :: "frame \<Rightarrow> string list \<Rightarrow> py_error + frame" where
  "select_columns f cs =
     (if list_all (\<lambda>c. c \<in> set (columns f)) cs
      then Inr \<lparr>columns = cs, rows = map (\<lambda>r. map (lookup (columns f) r) cs) (rows f)\<rparr>
      else Inl KeyError)"

text \<open>
  \<^verbatim>\<open>pd.concat([f, g])\<close>, which \<^verbatim>\<open>f.append(g)\<close> is too: the columns of \<open>f\<close>
  followed by those only \<open>g\<close> has, the rows of \<open>f\<close> followed by the rows of \<open>g\<close>, a cell
  under a column its table does not have being missing.
\<close>

definition concat_frames :: "frame \<Rightarrow> frame \<Rightarrow> frame" where
  "concat_frames f g =
     (let cols = columns f @ filter (\<lambda>c. c \<notin> set (columns f)) (columns g)
      in \<lparr>columns = cols,
          rows = map (\<lambda>r. map (lookup (columns f) r) cols) (rows f)
               @ map (\<lambda>r. map (lookup (columns g) r) cols) (rows g)\<rparr>)"

text \<open>\<^verbatim>\<open>drop_duplicates\<close> keeps the first of every group of equal rows.\<close>

fun drop_dups :: "'a list \<Rightarrow> 'a list" where
  "drop_dups [] = []"
| "drop_dups (x # xs) = x # drop_dups (filter (\<lambda>y. y \<noteq> x) xs)"

definition drop_duplicates :: "frame \<Rightarrow> frame" where
  "drop_duplicates f = f\<lparr>rows := drop_dups (rows f)\<rparr>"

section \<open>Winston-Lutz: the batch runner\<close>

definition RESULTS_DATA_COLUMNS :: "string list" where
  "RESULTS_DATA_COLUMNS =
     [''filepath'', ''algorithm'', ''diff_x'', ''diff_y'', ''field_centre_x'',
      ''field_centre_y'', ''field_rotation'', ''bb_centre_x'', ''bb_centre_y'']"

text \<open>
  The dataset table, one record per image, with the columns the runner reads. The image
  path handed to the locator is the relative path of the dataset (the source joins it to
  the fixed database directory first).
\<close>

record image_record =
  filepath :: string
  treatment :: string
  port :: string
  gantry :: pyfloat
  collimator :: pyfloat
  width :: pyfloat
  length_col :: pyfloat

definition DATABASE_COLUMNS :: "string list" where
  "DATABASE_COLUMNS = [''treatment'', ''port'', ''gantry'', ''collimator'', ''width'', ''length'']"

definition database_cells :: "image_record \<Rightarrow> cell list" where
  "database_cells d =
     [Str (treatment d), Str (port d), Flt (gantry d), Flt (collimator d), Flt (width d),
      Flt (length_col d)]"

text \<open>\<^verbatim>\<open>database_table.iloc[i]\<close>: the row at position \<open>i\<close>.\<close>

definition iloc :: "'a list \<Rightarrow> nat \<Rightarrow> py_error + 'a" where
  "iloc xs i = (if i < length xs then Inr (xs ! i) else Inl IndexError)"

text \<open>
  \<^verbatim>\<open>f.merge(database_table, left_on="filepath", right_on="filepath")\<close>: the inner
  join, as the pandas releases that still have \<^verbatim>\<open>DataFrame.append\<close> compute it.
  The joined rows come grouped by filepath, the filepaths in the order in which \<open>f\<close>
  first has them; within a group every row of \<open>f\<close>, in order, is paired with every
  dataset row of that filepath, in order. The source only merges tables that have the
  nine result columns (or none at all), which share no name with the dataset's other
  columns.
\<close>

definition merge_database :: "frame \<Rightarrow> image_record list \<Rightarrow> py_error + frame" where
  "merge_database f database_table =
     (case index_of ''filepath'' (columns f) of
        None \<Rightarrow> Inl KeyError
      | Some j \<Rightarrow>
          Inr \<lparr>columns = columns f @ DATABASE_COLUMNS,
               rows = concat (map (\<lambda>key.
                        concat (map (\<lambda>r. map (\<lambda>d. r @ database_cells d)
                                  (filter (\<lambda>d. key = Str (filepath d)) database_table))
                                (filter (\<lambda>r. cell_at r j = key) (rows f))))
                        (drop_dups (map (\<lambda>r. cell_at r j) (rows f))))\<rparr>)"

definition collapse_column_to_single_value :: "frame \<Rightarrow> string \<Rightarrow> py_error + cell" where
  "collapse_column_to_single_value dataframe c =
     (case get_column dataframe c of
        Inl e \<Rightarrow> Inl e
      | Inr col \<Rightarrow>
          (case drop_dups col of
             [v] \<Rightarrow> Inr v
           | _ \<Rightarrow> Inl (ValueError (''Expected exactly one '' @ c @ '' per image''))))"

definition result_row :: "string \<Rightarrow> string \<Rightarrow> detection \<Rightarrow> cell list" where
  "result_row relative_image_path algorithm d =
     (case d of (field_centre, field_rotation_calculated, bb_centre) \<Rightarrow>
        [Str relative_image_path, Str algorithm,
         Flt (fsub (fst field_centre) (fst bb_centre)),
         Flt (fsub (snd field_centre) (snd bb_centre)),
         Flt (fst field_centre), Flt (snd field_centre),
         Flt field_rotation_calculated,
         Flt (fst bb_centre), Flt (snd bb_centre)])"

text \<open>The loop of \<^verbatim>\<open>get_results_for_image\<close> over the selected algorithms.\<close>

fun results_data ::
    "wlutz_env \<Rightarrow> string \<Rightarrow> string list \<Rightarrow> pyfloat \<Rightarrow> point \<Rightarrow> pyfloat
       \<Rightarrow> event list \<times> (py_error + cell list list)" where
  "results_data env path [] bb edges pen = ([], Inr [])"
| "results_data env path (algorithm # rest) bb edges pen =
     (case calculate_wlutz env path algorithm bb edges pen of
        (ev, Inl e) \<Rightarrow> (ev, Inl e)
      | (ev, Inr d) \<Rightarrow>
          (case results_data env path rest bb edges pen of
             (ev', Inl e) \<Rightarrow> (ev @ ev', Inl e)
           | (ev', Inr rs) \<Rightarrow> (ev @ ev', Inr (result_row path algorithm d # rs))))"

text \<open>\<^verbatim>\<open>pd.DataFrame.from_dict\<close> of a list of dictionaries with the nine keys: no
  dictionary gives a table with no column.\<close>

definition from_dict :: "cell list list \<Rightarrow> frame" where
  "from_dict rs = (if rs = [] then empty_frame else \<lparr>columns = RESULTS_DATA_COLUMNS, rows = rs\<rparr>)"

definition get_results_for_image ::
    "wlutz_env \<Rightarrow> string \<Rightarrow> string list \<Rightarrow> pyfloat \<Rightarrow> point \<Rightarrow> pyfloat
       \<Rightarrow> event list \<times> (py_error + frame)" where
  "get_results_for_image env relative_image_path selected_algorithms bb edges pen =
     (case results_data env relative_image_path selected_algorithms bb edges pen of
        (ev, Inl e) \<Rightarrow> (ev, Inl e)
      | (ev, Inr rs) \<Rightarrow>
          (let results = from_dict rs
           in if set (columns results) \<noteq> set RESULTS_DATA_COLUMNS
              then (ev, Inl (ValueError ''Unexpected columns''))
              else (ev, Inr results)))"

text \<open>
  Lines 67 to 91 of \<^verbatim>\<open>run_calculation\<close>: the results of the image at loop position
  \<open>i\<close>, taken from the persisted table when it has a row of every selected algorithm for
  the image, computed otherwise.
\<close>

definition results_for_position ::
    "wlutz_env \<Rightarrow> image_record list \<Rightarrow> frame option \<Rightarrow> string list \<Rightarrow> pyfloat \<Rightarrow> pyfloat
       \<Rightarrow> nat \<Rightarrow> string \<Rightarrow> event list \<times> (py_error + frame)" where
  "results_for_position env database_table previously selected_algorithms bb pen i path =
     (let compute =
            (case iloc database_table i of
               Inl e \<Rightarrow> ([], Inl e)
             | Inr row \<Rightarrow>
                 get_results_for_image env path selected_algorithms bb
                   (width row, length_col row) pen)
      in case previously of
           None \<Rightarrow> compute
         | Some previously_calculated_results \<Rightarrow>
             (case loc_filepath previously_calculated_results path of
                Inl e \<Rightarrow> ([], Inl e)
              | Inr located \<Rightarrow>
                  (case select_columns located RESULTS_DATA_COLUMNS of
                     Inl e \<Rightarrow> ([], Inl e)
                   | Inr results \<Rightarrow>
                       (case get_column results ''algorithm'' of
                          Inl e \<Rightarrow> ([], Inl e)
                        | Inr algorithms \<Rightarrow>
                            if list_all (\<lambda>a. Str a \<in> set algorithms) selected_algorithms
                            then ([], Inr results)
                            else compute))))"

text \<open>
  Lines 95 to 119: the image's results joined with the dataset, the two derived angle
  columns (which need a numeric \<^verbatim>\<open>field_rotation\<close>), and the treatment and port of
  the image, each of which must be single-valued. The charts drawn from them are
  presentation and are not modelled.
\<close>

definition working_table_keys :: "frame \<Rightarrow> image_record list \<Rightarrow> py_error + cell \<times> cell" where
  "working_table_keys results database_table =
     (case merge_database results database_table of
        Inl e \<Rightarrow> Inl e
      | Inr working_table \<Rightarrow>
          (case get_column working_table ''field_rotation'' of
             Inl e \<Rightarrow> Inl e
           | Inr rotations \<Rightarrow>
               if list_ex (\<lambda>c. case c of Str s \<Rightarrow> True | Flt x \<Rightarrow> False) rotations
               then Inl TypeError
               else (case collapse_column_to_single_value working_table ''treatment'' of
                       Inl e \<Rightarrow> Inl e
                     | Inr t \<Rightarrow>
                         (case collapse_column_to_single_value working_table ''port'' of
                            Inl e \<Rightarrow> Inl e
                          | Inr p \<Rightarrow> Inr (t, p)))))"

text \<open>The main loop, over \<^verbatim>\<open>enumerate(database_table["filepath"][::-1])\<close>.\<close>

fun run_loop ::
    "wlutz_env \<Rightarrow> image_record list \<Rightarrow> frame option \<Rightarrow> string list \<Rightarrow> pyfloat \<Rightarrow> pyfloat
       \<Rightarrow> (nat \<times> string) list \<Rightarrow> frame \<Rightarrow> event list \<times> (py_error + frame)" where
  "run_loop env database_table previously selected_algorithms bb pen [] collated_results =
     ([], Inr collated_results)"
| "run_loop env database_table previously selected_algorithms bb pen ((i, path) # rest)
       collated_results =
     (case results_for_position env database_table previously selected_algorithms bb pen i path of
        (ev, Inl e) \<Rightarrow> (ev, Inl e)
      | (ev, Inr results) \<Rightarrow>
          (case working_table_keys results database_table of
             Inl e \<Rightarrow> (ev, Inl e)
           | Inr keys \<Rightarrow>
               (case run_loop env database_table previously selected_algorithms bb pen rest
                       (concat_frames collated_results results) of
                  (ev', r) \<Rightarrow> (ev @ ev', r))))"

text \<open>
  \<^verbatim>\<open>run_calculation\<close> from line 56 to the point where it overwrites
  \<^verbatim>\<open>raw_results.csv\<close> (line 149): the events of the run and the table it hands to
  \<^verbatim>\<open>to_csv\<close>. \<open>previously\<close> is the table that the read of lines 49 to 55 has
  returned, \<open>None\<close> when the file does not exist.
\<close>

definition run_calculation ::
    "wlutz_env \<Rightarrow> image_record list \<Rightarrow> frame option \<Rightarrow> string list \<Rightarrow> pyfloat \<Rightarrow> pyfloat
       \<Rightarrow> event list \<times> (py_error + frame)" where
  "run_calculation env database_table previously selected_algorithms bb pen =
     (case run_loop env database_table previously selected_algorithms bb pen
             (enumerate 0 (rev (map filepath database_table))) empty_frame of
        (ev, Inl e) \<Rightarrow> (ev, Inl e)
      | (ev, Inr collated_results) \<Rightarrow>
          (case merge_database collated_results database_table of
             Inl e \<Rightarrow> (ev, Inl e)
           | Inr contextualised_results \<Rightarrow>
               (ev, Inr (drop_duplicates
                           (case previously of
                              None \<Rightarrow> contextualised_results
                            | Some previously_calculated_results \<Rightarrow>
                                concat_frames contextualised_results
                                  previously_calculated_results)))))"

text \<open>
  The results file. The run parses \<^verbatim>\<open>raw_results.csv\<close> with \<^verbatim>\<open>pd.read_csv\<close>
  and overwrites it with \<^verbatim>\<open>to_csv(index=False)\<close>. Neither the writer nor the
  parser of pandas is modelled: they are the two parameters of a format, over any type
  of file contents. The parser chooses the type of every column from the text, so a
  table need not be read back as it was written: a column of strings made of digits
  comes back as numbers, and a float can come back changed in its last place. It raises
  on contents it cannot parse, \<^verbatim>\<open>EmptyDataError\<close> on a file without columns.
\<close>

record 'f csv_format =
  to_csv :: "frame \<Rightarrow> 'f"
  read_csv :: "'f \<Rightarrow> py_error + frame"

text \<open>Lines 49 to 55: the previously calculated results, \<open>None\<close> when there is no file.
  \<^verbatim>\<open>FileNotFoundError\<close> is the only exception caught.\<close>

definition read_previous :: "'f csv_format \<Rightarrow> 'f option \<Rightarrow> py_error + frame option" where
  "read_previous fmt raw_results_csv =
     (case raw_results_csv of
        None \<Rightarrow> Inr None
      | Some contents \<Rightarrow>
          (case read_csv fmt contents of
             Inl e \<Rightarrow> Inl e
           | Inr previously_calculated_results \<Rightarrow> Inr (Some previously_calculated_results)))"

text \<open>
  The whole of \<^verbatim>\<open>run_calculation\<close>, from the results file it finds (\<open>None\<close> when
  there is none) to the one it leaves: the events of the run, the merged table and the
  contents written.
\<close>

definition run_calculation_on_file ::
    "'f csv_format \<Rightarrow> wlutz_env \<Rightarrow> image_record list \<Rightarrow> 'f option \<Rightarrow> string list \<Rightarrow> pyfloat
       \<Rightarrow> pyfloat \<Rightarrow> event list \<times> (py_error + frame \<times> 'f)" where
  "run_calculation_on_file fmt env database_table raw_results_csv selected_algorithms bb pen =
     (case read_previous fmt raw_results_csv of
        Inl e \<Rightarrow> ([], Inl e)
      | Inr previously \<Rightarrow>
          (case run_calculation env database_table previously selected_algorithms bb pen of
             (ev, Inl e) \<Rightarrow> (ev, Inl e)
           | (ev, Inr merged_with_previous) \<Rightarrow>
               (ev, Inr (merged_with_previous, to_csv fmt merged_with_previous))))"

text \<open>A list in which the elements of equal key stand together: grouping it by key, the
  keys in the order of their first elements, gives the list back.\<close>

definition grouped_by :: "('a \<Rightarrow> 'k) \<Rightarrow> 'a list \<Rightarrow> bool" where
  "grouped_by key xs =
     (concat (map (\<lambda>k. filter (\<lambda>x. key x = k) xs) (drop_dups (map key xs))) = xs)"

text \<open>The row \<^verbatim>\<open>get_results_for_image\<close> builds for one algorithm of the dispatch table.\<close>

definition computed_row ::
    "wlutz_env \<Rightarrow> string \<Rightarrow> pyfloat \<Rightarrow> point \<Rightarrow> pyfloat \<Rightarrow> string \<Rightarrow> cell list" where
  "computed_row env path bb edges pen algorithm =
     (case ALGORITHM_FUNCTION_MAP algorithm of
        Some calculate_function \<Rightarrow>
          result_row path algorithm
            (calculate_function env (get_wlutz_input_parameters env path bb edges pen))
      | None \<Rightarrow> [])"

text \<open>The (filepath, algorithm) pair of every row of a results table.\<close>

definition result_keys :: "frame \<Rightarrow> (cell \<times> cell) list" where
  "result_keys f =
     map (\<lambda>r. (lookup (columns f) r ''filepath'', lookup (columns f) r ''algorithm'')) (rows f)"

text \<open>
  The rows a run without a persisted table computes at one loop position (an index and
  the image path met there), and the same rows joined with the dataset row of that path
  when the dataset's filepaths are distinct.
\<close>

definition position_rows ::
    "wlutz_env \<Rightarrow> image_record list \<Rightarrow> string list \<Rightarrow> pyfloat \<Rightarrow> pyfloat \<Rightarrow> nat \<times> string
       \<Rightarrow> cell list list" where
  "position_rows env database_table selected_algorithms bb pen ip =
     map (computed_row env (snd ip) bb
            (width (database_table ! fst ip), length_col (database_table ! fst ip)) pen)
       selected_algorithms"

definition joined_rows ::
    "wlutz_env \<Rightarrow> image_record list \<Rightarrow> string list \<Rightarrow> pyfloat \<Rightarrow> pyfloat \<Rightarrow> nat \<times> string
       \<Rightarrow> cell list list" where
  "joined_rows env database_table selected_algorithms bb pen ip =
     map (\<lambda>r. r @ database_cells (database_table ! (length database_table - 1 - fst ip)))
       (position_rows env database_table selected_algorithms bb pen ip)"

section \<open>Dose constraint scoring\<close>

text \<open>
  A dose-volume histogram is computed outside the modelled file; the scorer reads its
  mean and maximum dose and its volume, and asks it for the dose at a relative volume,
  the dose at an absolute volume (\<^verbatim>\<open>dose_constraint(v, "cm3")\<close>) and the volume at a
  dose (\<^verbatim>\<open>volume_constraint(d, "Gy")\<close>); each answer is the \<^verbatim>\<open>.value\<close> read
  from it. A number read from the histogram is a NumPy float or a plain Python number
  (the histogram library answers with the literals \<^verbatim>\<open>0\<close> and \<^verbatim>\<open>0.0\<close> where it
  has no data), and the scorer's arithmetic tells the two apart.
\<close>

datatype scalar = NumPy pyfloat | Plain pyfloat

fun scalar_value :: "scalar \<Rightarrow> pyfloat" where
  "scalar_value (NumPy x) = x"
| "scalar_value (Plain x) = x"

text \<open>
  \<^verbatim>\<open>[a] - x\<close> and \<^verbatim>\<open>[a] / x\<close>, a one-element list of a Python number on the left:
  a NumPy float on the right takes the operation over and works element by element
  (the model carries the element); with a plain number on the right Python has no such
  operation on a list.
\<close>

fun list_sub :: "pyfloat \<Rightarrow> scalar \<Rightarrow> py_error + pyfloat" where
  "list_sub a (NumPy x) = Inr (fsub a x)"
| "list_sub a (Plain x) = Inl TypeError"

fun list_div :: "pyfloat \<Rightarrow> scalar \<Rightarrow> py_error + pyfloat" where
  "list_div a (NumPy x) = Inr (fdiv a x)"
| "list_div a (Plain x) = Inl TypeError"

text \<open>\<^verbatim>\<open>x / y\<close> on two numbers: Python's own division, which refuses a zero divisor,
  when both are plain, NumPy's otherwise.\<close>

fun scalar_div :: "scalar \<Rightarrow> scalar \<Rightarrow> py_error + scalar" where
  "scalar_div (Plain x) (Plain y) =
     (if y = Num 0 then Inl ZeroDivisionError else Inr (Plain (fdiv x y)))"
| "scalar_div (Plain x) (NumPy y) = Inr (NumPy (fdiv x y))"
| "scalar_div (NumPy x) (Plain y) = Inr (NumPy (fdiv x y))"
| "scalar_div (NumPy x) (NumPy y) = Inr (NumPy (fdiv x y))"

text \<open>\<^verbatim>\<open>x * 100\<close>.\<close>

fun scalar_percent :: "scalar \<Rightarrow> scalar" where
  "scalar_percent (NumPy x) = NumPy (fmul x (Num 100))"
| "scalar_percent (Plain x) = Plain (fmul x (Num 100))"

record dvh =
  mean :: scalar
  max_dose :: scalar
  volume :: scalar
  dose_constraint :: "pyfloat \<Rightarrow> scalar"
  dose_constraint_cm3 :: "pyfloat \<Rightarrow> scalar"
  volume_constraint :: "pyfloat \<Rightarrow> scalar"

text \<open>
  The table \<^verbatim>\<open>CONSTRAINTS\<close> is not part of the modelled file. It maps a structure
  key to a dictionary from constraint type to either the placeholder \<^verbatim>\<open>" "\<close> or a
  list of entries, an entry being the list of numbers the scorer indexes
  (\<^verbatim>\<open>constraint[val][0]\<close>, \<^verbatim>\<open>constraint[val][1]\<close>). Dictionaries are association
  lists in insertion order.
\<close>

datatype constraint = Placeholder | Thresholds "pyfloat list list"

type_synonym structure_constraints = "(pystr \<times> constraint) list"

text \<open>One row of the scored table. The type of a row is one of the literals of the
  source; \<^verbatim>\<open>"-"\<close> cells are strings.\<close>

record constraint_row =
  Structure :: pystr
  Structure_Key :: pystr
  Type :: string
  Dose_Gy :: cell
  Volume_pct :: cell
  Actual_Dose_Gy :: cell
  Actual_Volume_pct :: cell
  Score :: pyfloat

text \<open>\<^verbatim>\<open>xs[i]\<close> on a Python list.\<close>

definition item :: "'a list \<Rightarrow> nat \<Rightarrow> py_error + 'a" where
  "item xs i = (if i < length xs then Inr (xs ! i) else Inl IndexError)"

text \<open>\<^verbatim>\<open>d[k]\<close> on a dictionary.\<close>

definition getitem :: "('k \<times> 'v) list \<Rightarrow> 'k \<Rightarrow> py_error + 'v" where
  "getitem d k = (case map_of d k of None \<Rightarrow> Inl KeyError | Some v \<Rightarrow> Inr v)"

text \<open>An outcome that is a value, not an exception.\<close>

definition returns :: "py_error + 'a \<Rightarrow> bool" where
  "returns r = (case r of Inl e \<Rightarrow> False | Inr v \<Rightarrow> True)"

text \<open>A loop that builds one row per entry and stops at the first exception.\<close>

fun collect :: "('a \<Rightarrow> py_error + 'b) \<Rightarrow> 'a list \<Rightarrow> py_error + 'b list" where
  "collect f [] = Inr []"
| "collect f (x # xs) =
     (case f x of
        Inl e \<Rightarrow> Inl e
      | Inr y \<Rightarrow> (case collect f xs of Inl e \<Rightarrow> Inl e | Inr ys \<Rightarrow> Inr (y # ys)))"

text \<open>
  The body of each of the four loops over the entries of a constraint, in the order in
  which the source evaluates it: the entry is indexed, the histogram is asked, and the
  score is computed last, when the other cells of the row are set.
\<close>

definition mean_row :: "pystr \<Rightarrow> pystr \<Rightarrow> dvh \<Rightarrow> pyfloat list \<Rightarrow> py_error + constraint_row" where
  "mean_row roi structure structure_dvh entry =
     (case item entry 0 of
        Inl e \<Rightarrow> Inl e
      | Inr threshold \<Rightarrow>
          (case list_sub threshold (mean structure_dvh) of
             Inl e \<Rightarrow> Inl e
           | Inr score \<Rightarrow>
               Inr \<lparr>Structure = roi, Structure_Key = structure, Type = ''Mean'',
                    Dose_Gy = Flt threshold, Volume_pct = Str ''-'',
                    Actual_Dose_Gy = Flt (scalar_value (mean structure_dvh)),
                    Actual_Volume_pct = Str ''-'', Score = score\<rparr>))"

definition max_row :: "pystr \<Rightarrow> pystr \<Rightarrow> dvh \<Rightarrow> pyfloat list \<Rightarrow> py_error + constraint_row" where
  "max_row roi structure structure_dvh entry =
     (case item entry 0 of
        Inl e \<Rightarrow> Inl e
      | Inr threshold \<Rightarrow>
          (case list_sub threshold (max_dose structure_dvh) of
             Inl e \<Rightarrow> Inl e
           | Inr score \<Rightarrow>
               Inr \<lparr>Structure = roi, Structure_Key = structure, Type = ''Max'',
                    Dose_Gy = Flt threshold, Volume_pct = Str ''-'',
                    Actual_Dose_Gy = Flt (scalar_value (max_dose structure_dvh)),
                    Actual_Volume_pct = Str ''-'', Score = score\<rparr>))"

text \<open>\<^verbatim>\<open>(volume_constraint(d, "Gy").value / structure_dvh.volume) * 100\<close>.\<close>

definition actual_volume_pct :: "dvh \<Rightarrow> pyfloat \<Rightarrow> py_error + scalar" where
  "actual_volume_pct structure_dvh dose =
     (case scalar_div (volume_constraint structure_dvh dose) (volume structure_dvh) of
        Inl e \<Rightarrow> Inl e
      | Inr ratio \<Rightarrow> Inr (scalar_percent ratio))"

definition v_row :: "pystr \<Rightarrow> pystr \<Rightarrow> dvh \<Rightarrow> pyfloat list \<Rightarrow> py_error + constraint_row" where
  "v_row roi structure structure_dvh entry =
     (case item entry 0 of
        Inl e \<Rightarrow> Inl e
      | Inr dose \<Rightarrow>
          (case item entry 1 of
             Inl e \<Rightarrow> Inl e
           | Inr fraction \<Rightarrow>
               (let volume_pct = fmul fraction (Num 100);
                    actual_dose = dose_constraint structure_dvh volume_pct
                in case actual_volume_pct structure_dvh dose of
                     Inl e \<Rightarrow> Inl e
                   | Inr actual_volume \<Rightarrow>
                       (case list_sub dose actual_dose of
                          Inl e \<Rightarrow> Inl e
                        | Inr dose_score \<Rightarrow>
                            (case list_sub volume_pct actual_volume of
                               Inl e \<Rightarrow> Inl e
                             | Inr volume_score \<Rightarrow>
                                 Inr \<lparr>Structure = roi, Structure_Key = structure, Type = ''V%'',
                                      Dose_Gy = Flt dose, Volume_pct = Flt volume_pct,
                                      Actual_Dose_Gy = Flt (scalar_value actual_dose),
                                      Actual_Volume_pct = Flt (scalar_value actual_volume),
                                      Score = fadd dose_score volume_score\<rparr>)))))"

definition d_row :: "pystr \<Rightarrow> pystr \<Rightarrow> dvh \<Rightarrow> pyfloat list \<Rightarrow> py_error + constraint_row" where
  "d_row roi structure structure_dvh entry =
     (case item entry 0 of
        Inl e \<Rightarrow> Inl e
      | Inr dose \<Rightarrow>
          (case item entry 1 of
             Inl e \<Rightarrow> Inl e
           | Inr volume_cm3 \<Rightarrow>
               (let actual_dose = dose_constraint_cm3 structure_dvh volume_cm3
                in case actual_volume_pct structure_dvh dose of
                     Inl e \<Rightarrow> Inl e
                   | Inr actual_volume \<Rightarrow>
                       (case list_sub dose actual_dose of
                          Inl e \<Rightarrow> Inl e
                        | Inr dose_score \<Rightarrow>
                            (case list_div volume_cm3 (volume structure_dvh) of
                               Inl e \<Rightarrow> Inl e
                             | Inr ratio \<Rightarrow>
                                 Inr \<lparr>Structure = roi, Structure_Key = structure, Type = ''D%'',
                                      Dose_Gy = Flt dose, Volume_pct = Flt volume_cm3,
                                      Actual_Dose_Gy = Flt (scalar_value actual_dose),
                                      Actual_Volume_pct = Flt (scalar_value actual_volume),
                                      Score = fadd dose_score
                                                (fsub (fmul ratio (Num 100))
                                                   (scalar_value actual_volume))\<rparr>)))))"

text \<open>The body of the loop over \<^verbatim>\<open>structure_constraints.items()\<close>: the rows one
  constraint type adds.\<close>

definition constraint_rows ::
    "pystr \<Rightarrow> pystr \<Rightarrow> dvh \<Rightarrow> pystr \<Rightarrow> constraint \<Rightarrow> py_error + constraint_row list" where
  "constraint_rows roi structure structure_dvh ty c =
     (case c of
        Placeholder \<Rightarrow> Inr []
      | Thresholds entries \<Rightarrow>
          if ty = ascii ''Mean'' then collect (mean_row roi structure structure_dvh) entries
          else if ty = ascii ''Max'' then collect (max_row roi structure structure_dvh) entries
          else if ty = ascii ''V%'' then collect (v_row roi structure structure_dvh) entries
          else if ty = ascii ''D%'' then collect (d_row roi structure structure_dvh) entries
          else Inr [])"

fun structure_rows ::
    "pystr \<Rightarrow> pystr \<Rightarrow> dvh \<Rightarrow> structure_constraints \<Rightarrow> py_error + constraint_row list" where
  "structure_rows roi structure structure_dvh [] = Inr []"
| "structure_rows roi structure structure_dvh ((ty, c) # rest) =
     (case constraint_rows roi structure structure_dvh ty c of
        Inl e \<Rightarrow> Inl e
      | Inr added \<Rightarrow>
          (case structure_rows roi structure structure_dvh rest of
             Inl e \<Rightarrow> Inl e
           | Inr others \<Rightarrow> Inr (added @ others)))"

definition calculate_average_OAR_score :: "constraint_row list \<Rightarrow> py_error + constraint_row list" where
  "calculate_average_OAR_score structure_df =
     (case item structure_df 0 of
        Inl e \<Rightarrow> Inl e
      | Inr first \<Rightarrow>
          Inr (structure_df @
               [\<lparr>Structure = Structure first, Structure_Key = Structure_Key first,
                 Type = ''Average Score'', Dose_Gy = Str ''-'', Volume_pct = Str ''-'',
                 Actual_Dose_Gy = Str ''-'', Actual_Volume_pct = Str ''-'',
                 Score = pd_mean (map Score structure_df)\<rparr>]))"

definition compare_structure_with_constraints ::
    "pystr \<Rightarrow> pystr \<Rightarrow> (pystr \<times> dvh) list \<Rightarrow> (pystr \<times> structure_constraints) list
       \<Rightarrow> py_error + constraint_row list" where
  "compare_structure_with_constraints roi structure dvh_calcs constraints =
     (case getitem constraints structure of
        Inl e \<Rightarrow> Inl e
      | Inr structure_constraints \<Rightarrow>
          (case getitem dvh_calcs roi of
             Inl e \<Rightarrow> Inl e
           | Inr structure_dvh \<Rightarrow>
               (case structure_rows roi structure structure_dvh structure_constraints of
                  Inl e \<Rightarrow> Inl e
                | Inr structure_df \<Rightarrow> calculate_average_OAR_score structure_df)))"

text \<open>\<^verbatim>\<open>constraints_df["Type"]\<close> needs the column, which a table with no row (the
  initial \<^verbatim>\<open>pd.DataFrame()\<close>) does not have.\<close>

definition calculate_total_score :: "constraint_row list \<Rightarrow> py_error + constraint_row list" where
  "calculate_total_score constraints_df =
     (if constraints_df = [] then Inl KeyError
      else Inr (constraints_df @
                [\<lparr>Structure = ascii ''Total Patient'', Structure_Key = ascii ''Total Patient'',
                  Type = ''Total Score'', Dose_Gy = Str ''-'', Volume_pct = Str ''-'',
                  Actual_Dose_Gy = Str ''-'', Actual_Volume_pct = Str ''-'',
                  Score = pd_sum (map Score
                            (filter (\<lambda>r. Type r = ''Average Score'') constraints_df))\<rparr>]))"

text \<open>
  The alias table \<^verbatim>\<open>ALIASES\<close> has one column per structure key, holding that key's
  list of aliases. The test of line 463, \<^verbatim>\<open>roi.lower().strip(" ") in ...\<close>:
\<close>

definition alias_match :: "(pystr \<Rightarrow> pystr) \<Rightarrow> pystr \<Rightarrow> pystr list \<Rightarrow> bool" where
  "alias_match lower roi aliases = (strip_spaces (lower roi) \<in> set aliases)"

text \<open>Lines 461 to 469 of \<^verbatim>\<open>main\<close>: the inner loop over the structure keys and the
  outer loop over the regions of interest, adding to \<^verbatim>\<open>constraints_df\<close>.\<close>

fun score_structures ::
    "(pystr \<Rightarrow> pystr) \<Rightarrow> pystr \<Rightarrow> (pystr \<times> pystr list) list \<Rightarrow> (pystr \<times> dvh) list
       \<Rightarrow> (pystr \<times> structure_constraints) list \<Rightarrow> constraint_row list
       \<Rightarrow> py_error + constraint_row list" where
  "score_structures lower roi [] dvh_calcs constraints constraints_df = Inr constraints_df"
| "score_structures lower roi ((structure, aliases) # rest) dvh_calcs constraints constraints_df =
     (if alias_match lower roi aliases
      then (case compare_structure_with_constraints roi structure dvh_calcs constraints of
              Inl e \<Rightarrow> Inl e
            | Inr structure_df \<Rightarrow>
                score_structures lower roi rest dvh_calcs constraints
                  (constraints_df @ structure_df))
      else score_structures lower roi rest dvh_calcs constraints constraints_df)"

fun score_rois ::
    "(pystr \<Rightarrow> pystr) \<Rightarrow> pystr list \<Rightarrow> (pystr \<times> pystr list) list \<Rightarrow> (pystr \<times> dvh) list
       \<Rightarrow> (pystr \<times> structure_constraints) list \<Rightarrow> constraint_row list
       \<Rightarrow> py_error + constraint_row list" where
  "score_rois lower [] ALIASES dvh_calcs constraints constraints_df = Inr constraints_df"
| "score_rois lower (roi # rois) ALIASES dvh_calcs constraints constraints_df =
     (case score_structures lower roi ALIASES dvh_calcs constraints constraints_df of
        Inl e \<Rightarrow> Inl e
      | Inr df \<Rightarrow> score_rois lower rois ALIASES dvh_calcs constraints df)"

text \<open>Lines 458 to 471: the scored table of a plan.\<close>

definition constraint_check ::
    "(pystr \<Rightarrow> pystr) \<Rightarrow> (pystr \<times> dvh) list \<Rightarrow> (pystr \<times> pystr list) list
       \<Rightarrow> (pystr \<times> structure_constraints) list \<Rightarrow> py_error + constraint_row list" where
  "constraint_check lower dvh_calcs ALIASES constraints =
     (case score_rois lower (map fst dvh_calcs) ALIASES dvh_calcs constraints [] of
        Inl e \<Rightarrow> Inl e
      | Inr constraints_df \<Rightarrow> calculate_total_score constraints_df)"

text \<open>The pairs of a region of interest and a structure key that the test of line 463
  accepts, in the order in which the two loops meet them.\<close>

definition matched_pairs ::
    "(pystr \<Rightarrow> pystr) \<Rightarrow> pystr list \<Rightarrow> (pystr \<times> pystr list) list \<Rightarrow> (pystr \<times> pystr) list" where
  "matched_pairs lower rois ALIASES =
     concat (map (\<lambda>roi. map (\<lambda>sa. (roi, fst sa))
                          (filter (\<lambda>sa. alias_match lower roi (snd sa)) ALIASES)) rois)"

text \<open>The regions of interest of a plan that the test of line 463 accepts for at least
  one structure key.\<close>

definition matched_rois ::
    "(pystr \<Rightarrow> pystr) \<Rightarrow> (pystr \<times> pystr list) list \<Rightarrow> (pystr \<times> dvh) list \<Rightarrow> (pystr \<times> dvh) list" where
  "matched_rois lower ALIASES dvh_calcs =
     filter (\<lambda>rd. list_ex (\<lambda>sa. strip_spaces (lower (fst rd)) \<in> set (snd sa)) ALIASES) dvh_calcs"

text \<open>
  The shape of the rows one scored structure contributes: at least one constraint row
  of the structure, of one of the four types, followed by one row of type
  \<^verbatim>\<open>Average Score\<close> whose score is the pandas mean of the scores before it.
\<close>

definition scored_block :: "pystr \<Rightarrow> pystr \<Rightarrow> constraint_row list \<Rightarrow> bool" where
  "scored_block roi structure block =
     (butlast block \<noteq> []
      \<and> list_all (\<lambda>r. Structure r = roi \<and> Structure_Key r = structure
                       \<and> Type r \<in> set [''Mean'', ''Max'', ''V%'', ''D%''])
          (butlast block)
      \<and> last block =
          \<lparr>Structure = roi, Structure_Key = structure, Type = ''Average Score'',
           Dose_Gy = Str ''-'', Volume_pct = Str ''-'', Actual_Dose_Gy = Str ''-'',
           Actual_Volume_pct = Str ''-'', Score = pd_mean (map Score (butlast block))\<rparr>)"

text \<open>The arithmetic mean of a list of scores: their sum over their number.\<close>

definition arithmetic_mean :: "pyfloat list \<Rightarrow> pyfloat" where
  "arithmetic_mean xs = fdiv (foldl fadd (Num 0) xs) (Num (real (length xs)))"
section \<open>Example inputs\<close>

text \<open>Locators for the examples: one whose ball-bearing search fails on every image, one
  whose field search fails too.\<close>

definition env_bb_failure :: wlutz_env where
  "env_bb_failure =
     \<lparr>field_centre_and_rotation_refining = (\<lambda>image edges pen. Some ((Num 1, Num 2), Num 0)),
      optimise_bb_centre = (\<lambda>image bb edges pen centre rotation. None),
      run_wlutz = (\<lambda>image edges pen centre rotation. None)\<rparr>"

definition env_field_failure :: wlutz_env where
  "env_field_failure =
     \<lparr>field_centre_and_rotation_refining = (\<lambda>image edges pen. None),
      optimise_bb_centre = (\<lambda>image bb edges pen centre rotation. None),
      run_wlutz = (\<lambda>image edges pen centre rotation. None)\<rparr>"

text \<open>What \<^verbatim>\<open>str.lower()\<close> does to a name made of ASCII characters, as the names of
  the examples are.\<close>

definition ascii_lower :: "pystr \<Rightarrow> pystr" where
  "ascii_lower s = map (\<lambda>c. if 65 \<le> c \<and> c \<le> 90 then c + 32 else c) s"

text \<open>A plan for the scoring examples: a liver whose mean dose of 20 Gy is checked against
  a mean threshold of 18 Gy.\<close>

definition liver_dvh :: dvh where
  "liver_dvh =
     \<lparr>mean = NumPy (Num 20), max_dose = NumPy (Num 30), volume = NumPy (Num 1000),
      dose_constraint = (\<lambda>v. NumPy (Num 25)), dose_constraint_cm3 = (\<lambda>v. NumPy (Num 24)),
      volume_constraint = (\<lambda>d. NumPy (Num 400))\<rparr>"

definition liver_constraints :: "(pystr \<times> structure_constraints) list" where
  "liver_constraints =
     [(ascii ''Liver'',
       [(ascii ''Mean'', Thresholds [[Num 18]]), (ascii ''Max'', Placeholder),
        (ascii ''V%'', Placeholder), (ascii ''D%'', Placeholder)])]"

definition liver_rows :: "constraint_row list" where
  "liver_rows =
     [\<lparr>Structure = ascii ''Liver'', Structure_Key = ascii ''Liver'', Type = ''Mean'',
       Dose_Gy = Flt (Num 18), Volume_pct = Str ''-'',
       Actual_Dose_Gy = Flt (Num 20), Actual_Volume_pct = Str ''-'', Score = Num (- 2)\<rparr>,
      \<lparr>Structure = ascii ''Liver'', Structure_Key = ascii ''Liver'', Type = ''Average Score'',
       Dose_Gy = Str ''-'', Volume_pct = Str ''-'',
       Actual_Dose_Gy = Str ''-'', Actual_Volume_pct = Str ''-'', Score = Num (- 2)\<rparr>]"

text \<open>The histogram of a structure that holds no dose data: its mean and maximum are the
  plain number 0, its volume is a NumPy zero.\<close>

definition empty_dvh :: dvh where
  "empty_dvh =
     \<lparr>mean = Plain (Num 0), max_dose = Plain (Num 0), volume = NumPy (Num 0),
      dose_constraint = (\<lambda>v. Plain (Num 0)), dose_constraint_cm3 = (\<lambda>v. Plain (Num 0)),
      volume_constraint = (\<lambda>d. Plain (Num 0))\<rparr>"

text \<open>A histogram whose maximum dose is not a number, scored against a mean threshold of
  21 Gy and a maximum threshold of 30 Gy: the scores 1 and not-a-number.\<close>

definition gap_dvh :: dvh where
  "gap_dvh =
     \<lparr>mean = NumPy (Num 20), max_dose = NumPy NaN, volume = NumPy (Num 1000),
      dose_constraint = (\<lambda>v. NumPy (Num 25)), dose_constraint_cm3 = (\<lambda>v. NumPy (Num 24)),
      volume_constraint = (\<lambda>d. NumPy (Num 400))\<rparr>"

definition gap_constraints :: "(pystr \<times> structure_constraints) list" where
  "gap_constraints =
     [(ascii ''Liver'',
       [(ascii ''Mean'', Thresholds [[Num 21]]), (ascii ''Max'', Thresholds [[Num 30]])])]"

definition gap_rows :: "constraint_row list" where
  "gap_rows =
     [\<lparr>Structure = ascii ''Liver'', Structure_Key = ascii ''Liver'', Type = ''Mean'',
       Dose_Gy = Flt (Num 21), Volume_pct = Str ''-'',
       Actual_Dose_Gy = Flt (Num 20), Actual_Volume_pct = Str ''-'', Score = Num 1\<rparr>,
      \<lparr>Structure = ascii ''Liver'', Structure_Key = ascii ''Liver'', Type = ''Max'',
       Dose_Gy = Flt (Num 30), Volume_pct = Str ''-'',
       Actual_Dose_Gy = Flt NaN, Actual_Volume_pct = Str ''-'', Score = NaN\<rparr>,
      \<lparr>Structure = ascii ''Liver'', Structure_Key = ascii ''Liver'', Type = ''Average Score'',
       Dose_Gy = Str ''-'', Volume_pct = Str ''-'',
       Actual_Dose_Gy = Str ''-'', Actual_Volume_pct = Str ''-'', Score = Num 1\<rparr>]"

text \<open>A plan with two scored structures and one region of interest that no alias names:
  three mean constraints with the scores 1, -2 and 3, and one maximum constraint with
  the score -1. The table is the one its scoring returns.\<close>

definition zero_dvh :: dvh where
  "zero_dvh =
     \<lparr>mean = NumPy (Num 0), max_dose = NumPy (Num 1), volume = NumPy (Num 1000),
      dose_constraint = (\<lambda>v. NumPy (Num 0)), dose_constraint_cm3 = (\<lambda>v. NumPy (Num 0)),
      volume_constraint = (\<lambda>d. NumPy (Num 0))\<rparr>"

definition plan_dvhs :: "(pystr \<times> dvh) list" where
  "plan_dvhs =
     [(ascii '' Liver '', zero_dvh), (ascii ''liver_ptv'', zero_dvh), (ascii ''CORD'', zero_dvh)]"

definition plan_aliases :: "(pystr \<times> pystr list) list" where
  "plan_aliases =
     [(ascii ''Liver'', [ascii ''liver'']),
      (ascii ''Cord'', [ascii ''cord'', ascii ''spinal cord''])]"

definition plan_constraints :: "(pystr \<times> structure_constraints) list" where
  "plan_constraints =
     [(ascii ''Liver'',
       [(ascii ''Mean'', Thresholds [[Num 1], [Num (- 2)], [Num 3]]), (ascii ''Max'', Placeholder)]),
      (ascii ''Cord'',
       [(ascii ''Mean'', Placeholder), (ascii ''Max'', Thresholds [[Num 0]])])]"

definition plan_table :: "constraint_row list" where
  "plan_table =
     [\<lparr>Structure = ascii '' Liver '', Structure_Key = ascii ''Liver'', Type = ''Mean'',
       Dose_Gy = Flt (Num 1), Volume_pct = Str ''-'',
       Actual_Dose_Gy = Flt (Num 0), Actual_Volume_pct = Str ''-'', Score = Num 1\<rparr>,
      \<lparr>Structure = ascii '' Liver '', Structure_Key = ascii ''Liver'', Type = ''Mean'',
       Dose_Gy = Flt (Num (- 2)), Volume_pct = Str ''-'',
       Actual_Dose_Gy = Flt (Num 0), Actual_Volume_pct = Str ''-'', Score = Num (- 2)\<rparr>,
      \<lparr>Structure = ascii '' Liver '', Structure_Key = ascii ''Liver'', Type = ''Mean'',
       Dose_Gy = Flt (Num 3), Volume_pct = Str ''-'',
       Actual_Dose_Gy = Flt (Num 0), Actual_Volume_pct = Str ''-'', Score = Num 3\<rparr>,
      \<lparr>Structure = ascii '' Liver '', Structure_Key = ascii ''Liver'', Type = ''Average Score'',
       Dose_Gy = Str ''-'', Volume_pct = Str ''-'',
       Actual_Dose_Gy = Str ''-'', Actual_Volume_pct = Str ''-'', Score = Num (2 / 3)\<rparr>,
      \<lparr>Structure = ascii ''CORD'', Structure_Key = ascii ''Cord'', Type = ''Max'',
       Dose_Gy = Flt (Num 0), Volume_pct = Str ''-'',
       Actual_Dose_Gy = Flt (Num 1), Actual_Volume_pct = Str ''-'', Score = Num (- 1)\<rparr>,
      \<lparr>Structure = ascii ''CORD'', Structure_Key = ascii ''Cord'', Type = ''Average Score'',
       Dose_Gy = Str ''-'', Volume_pct = Str ''-'',
       Actual_Dose_Gy = Str ''-'', Actual_Volume_pct = Str ''-'', Score = Num (- 1)\<rparr>,
      \<lparr>Structure = ascii ''Total Patient'', Structure_Key = ascii ''Total Patient'',
       Type = ''Total Score'', Dose_Gy = Str ''-'', Volume_pct = Str ''-'',
       Actual_Dose_Gy = Str ''-'', Actual_Volume_pct = Str ''-'', Score = Num (- (1 / 3))\<rparr>]"

text \<open>A plan whose only region of interest is named by no alias.\<close>

definition couch_plan :: "(pystr \<times> dvh) list" where
  "couch_plan = [(ascii ''couch'', zero_dvh)]"

text \<open>
  Inputs for the batch runner examples: a locator that finds everything, a dataset of one
  image and one of two images with different field sizes, and a persisted results table
  in the layout the runner writes (the nine result columns and the dataset's), holding
  one PyMedPhys row for the image that was computed earlier with other settings, and the
  same row in a table that has the nine result columns only.
\<close>

definition env_found :: wlutz_env where
  "env_found =
     \<lparr>field_centre_and_rotation_refining = (\<lambda>image edges pen. Some ((Num 1, Num 2), Num 0)),
      optimise_bb_centre = (\<lambda>image bb edges pen centre rotation. Some (Num 0, Num 0)),
      run_wlutz = (\<lambda>image edges pen centre rotation. Some ((Num 1, Num 2), (Num 1, Num 1)))\<rparr>"

definition one_image :: "image_record list" where
  "one_image =
     [\<lparr>filepath = ''a.jpg'', treatment = ''T1'', port = ''P1'', gantry = Num 90,
       collimator = Num 0, width = Num 10, length_col = Num 10\<rparr>]"

definition two_images :: "image_record list" where
  "two_images =
     [\<lparr>filepath = ''a.jpg'', treatment = ''T1'', port = ''P1'', gantry = Num 90,
       collimator = Num 0, width = Num 10, length_col = Num 10\<rparr>,
      \<lparr>filepath = ''b.jpg'', treatment = ''T1'', port = ''P1'', gantry = Num 180,
       collimator = Num 0, width = Num 20, length_col = Num 5\<rparr>]"

definition persisted_earlier :: frame where
  "persisted_earlier =
     \<lparr>columns = RESULTS_DATA_COLUMNS @ DATABASE_COLUMNS,
      rows = [[Str ''a.jpg'', Str ''PyMedPhys'', Flt (Num 5), Flt (Num 5), Flt (Num 5),
               Flt (Num 5), Flt (Num 0), Flt (Num 0), Flt (Num 0),
               Str ''T1'', Str ''P1'', Flt (Num 90), Flt (Num 0), Flt (Num 10), Flt (Num 10)]]\<rparr>"

definition persisted_nine :: frame where
  "persisted_nine =
     \<lparr>columns = RESULTS_DATA_COLUMNS,
      rows = [[Str ''a.jpg'', Str ''PyMedPhys'', Flt (Num 5), Flt (Num 5), Flt (Num 5),
               Flt (Num 5), Flt (Num 0), Flt (Num 0), Flt (Num 0)]]\<rparr>"

text \<open>The table the one-image run writes when it reads the persisted table in the written
  layout and both algorithms are selected.\<close>

definition recomputed_written :: frame where
  "recomputed_written =
     \<lparr>columns = RESULTS_DATA_COLUMNS @ DATABASE_COLUMNS,
      rows =
        [[Str ''a.jpg'', Str ''PyMedPhys'', Flt (Num 1), Flt (Num 2), Flt (Num 1),
          Flt (Num 2), Flt (Num 0), Flt (Num 0), Flt (Num 0),
          Str ''T1'', Str ''P1'', Flt (Num 90), Flt (Num 0), Flt (Num 10), Flt (Num 10)],
         [Str ''a.jpg'', Str ''PyLinac'', Flt (Num 0), Flt (Num 1), Flt (Num 1),
          Flt (Num 2), Flt (Num 0), Flt (Num 1), Flt (Num 1),
          Str ''T1'', Str ''P1'', Flt (Num 90), Flt (Num 0), Flt (Num 10), Flt (Num 10)],
         [Str ''a.jpg'', Str ''PyMedPhys'', Flt (Num 5), Flt (Num 5), Flt (Num 5),
          Flt (Num 5), Flt (Num 0), Flt (Num 0), Flt (Num 0),
          Str ''T1'', Str ''P1'', Flt (Num 90), Flt (Num 0), Flt (Num 10), Flt (Num 10)]]\<rparr>"

text \<open>
  The tables of two runs in a row over the one-image dataset with both algorithms
  selected, the first run starting from the nine-column persisted table: what the first
  run writes, and what the second run, reading that, writes.
\<close>

definition first_written :: frame where
  "first_written =
     \<lparr>columns = RESULTS_DATA_COLUMNS @ DATABASE_COLUMNS,
      rows =
        [[Str ''a.jpg'', Str ''PyMedPhys'', Flt (Num 1), Flt (Num 2), Flt (Num 1),
          Flt (Num 2), Flt (Num 0), Flt (Num 0), Flt (Num 0),
          Str ''T1'', Str ''P1'', Flt (Num 90), Flt (Num 0), Flt (Num 10), Flt (Num 10)],
         [Str ''a.jpg'', Str ''PyLinac'', Flt (Num 0), Flt (Num 1), Flt (Num 1),
          Flt (Num 2), Flt (Num 0), Flt (Num 1), Flt (Num 1),
          Str ''T1'', Str ''P1'', Flt (Num 90), Flt (Num 0), Flt (Num 10), Flt (Num 10)],
         [Str ''a.jpg'', Str ''PyMedPhys'', Flt (Num 5), Flt (Num 5), Flt (Num 5),
          Flt (Num 5), Flt (Num 0), Flt (Num 0), Flt (Num 0),
          Flt NaN, Flt NaN, Flt NaN, Flt NaN, Flt NaN, Flt NaN]]\<rparr>"

definition second_written :: frame where
  "second_written =
     \<lparr>columns = RESULTS_DATA_COLUMNS @ DATABASE_COLUMNS,
      rows =
        [[Str ''a.jpg'', Str ''PyMedPhys'', Flt (Num 1), Flt (Num 2), Flt (Num 1),
          Flt (Num 2), Flt (Num 0), Flt (Num 0), Flt (Num 0),
          Str ''T1'', Str ''P1'', Flt (Num 90), Flt (Num 0), Flt (Num 10), Flt (Num 10)],
         [Str ''a.jpg'', Str ''PyLinac'', Flt (Num 0), Flt (Num 1), Flt (Num 1),
          Flt (Num 2), Flt (Num 0), Flt (Num 1), Flt (Num 1),
          Str ''T1'', Str ''P1'', Flt (Num 90), Flt (Num 0), Flt (Num 10), Flt (Num 10)],
         [Str ''a.jpg'', Str ''PyMedPhys'', Flt (Num 5), Flt (Num 5), Flt (Num 5),
          Flt (Num 5), Flt (Num 0), Flt (Num 0), Flt (Num 0),
          Str ''T1'', Str ''P1'', Flt (Num 90), Flt (Num 0), Flt (Num 10), Flt (Num 10)],
         [Str ''a.jpg'', Str ''PyMedPhys'', Flt (Num 5), Flt (Num 5), Flt (Num 5),
          Flt (Num 5), Flt (Num 0), Flt (Num 0), Flt (Num 0),
          Flt NaN, Flt NaN, Flt NaN, Flt NaN, Flt NaN, Flt NaN]]\<rparr>"

text \<open>The table the two-image run of the examples writes when it starts without a
  persisted table.\<close>

definition two_images_written :: frame where
  "two_images_written =
     \<lparr>columns = RESULTS_DATA_COLUMNS @ DATABASE_COLUMNS,
      rows =
        [[Str ''b.jpg'', Str ''PyMedPhys'', Flt (Num 1), Flt (Num 2), Flt (Num 1),
          Flt (Num 2), Flt (Num 0), Flt (Num 0), Flt (Num 0),
          Str ''T1'', Str ''P1'', Flt (Num 180), Flt (Num 0), Flt (Num 20), Flt (Num 5)],
         [Str ''a.jpg'', Str ''PyMedPhys'', Flt (Num 1), Flt (Num 2), Flt (Num 1),
          Flt (Num 2), Flt (Num 0), Flt (Num 0), Flt (Num 0),
          Str ''T1'', Str ''P1'', Flt (Num 90), Flt (Num 0), Flt (Num 10), Flt (Num 10)]]\<rparr>"


text \<open>
  Two formats for the examples, in both of which the contents of the file are the table
  that was written. The first reads every table that has a column back as it is. The
  second reads a cell that holds the string \<^verbatim>\<open>1\<close> back as the number 1, as the
  parser does with a column of such strings.
\<close>

definition exact_csv :: "frame csv_format" where
  "exact_csv =
     \<lparr>to_csv = (\<lambda>table. table),
      read_csv = (\<lambda>contents. if columns contents = [] then Inl EmptyDataError else Inr contents)\<rparr>"

definition digits_csv :: "frame csv_format" where
  "digits_csv =
     \<lparr>to_csv = (\<lambda>table. table),
      read_csv = (\<lambda>contents.
        if columns contents = [] then Inl EmptyDataError
        else Inr (contents\<lparr>rows :=
               map (map (\<lambda>c. if c = Str ''1'' then Flt (Num 1) else c)) (rows contents)\<rparr>))\<rparr>"

text \<open>A dataset of one image whose treatment is named \<^verbatim>\<open>1\<close>, the table a run without
  a results file writes for it, and the table the next run writes when the file is
  parsed by the second format.\<close>

definition numbered_image :: "image_record list" where
  "numbered_image =
     [\<lparr>filepath = ''a.jpg'', treatment = ''1'', port = ''P1'', gantry = Num 90,
       collimator = Num 0, width = Num 10, length_col = Num 10\<rparr>]"

definition numbered_written :: frame where
  "numbered_written =
     \<lparr>columns = RESULTS_DATA_COLUMNS @ DATABASE_COLUMNS,
      rows =
        [[Str ''a.jpg'', Str ''PyMedPhys'', Flt (Num 1), Flt (Num 2), Flt (Num 1),
          Flt (Num 2), Flt (Num 0), Flt (Num 0), Flt (Num 0),
          Str ''1'', Str ''P1'', Flt (Num 90), Flt (Num 0), Flt (Num 10), Flt (Num 10)]]\<rparr>"

definition numbered_rewritten :: frame where
  "numbered_rewritten =
     \<lparr>columns = RESULTS_DATA_COLUMNS @ DATABASE_COLUMNS,
      rows =
        [[Str ''a.jpg'', Str ''PyMedPhys'', Flt (Num 1), Flt (Num 2), Flt (Num 1),
          Flt (Num 2), Flt (Num 0), Flt (Num 0), Flt (Num 0),
          Str ''1'', Str ''P1'', Flt (Num 90), Flt (Num 0), Flt (Num 10), Flt (Num 10)],
         [Str ''a.jpg'', Str ''PyMedPhys'', Flt (Num 1), Flt (Num 2), Flt (Num 1),
          Flt (Num 2), Flt (Num 0), Flt (Num 0), Flt (Num 0),
          Flt (Num 1), Str ''P1'', Flt (Num 90), Flt (Num 0), Flt (Num 10), Flt (Num 10)]]\<rparr>"
section \<open>Properties of the locator\<close>

lemma py_eq_NaN: "\<not> py_eq x NaN"
  by (simp add: py_eq_def)

lemma calculate_wlutz_dispatch:
  "calculate_wlutz env path algorithm bb edges pen =
     (case ALGORITHM_FUNCTION_MAP algorithm of
        None \<Rightarrow> ([], Inl KeyError)
      | Some f \<Rightarrow>
          ([Invoked algorithm (get_wlutz_input_parameters env path bb edges pen)],
           Inr (f env (get_wlutz_input_parameters env path bb edges pen))))"
  by (simp add: calculate_wlutz_def Let_def py_eq_NaN)

lemma ALGORITHM_FUNCTION_MAP_simps:
  "ALGORITHM_FUNCTION_MAP ''PyMedPhys'' = Some pymedphys_wlutz_calculate"
  "ALGORITHM_FUNCTION_MAP ''PyLinac'' = Some pylinac_wlutz_calculate"
  by (simp_all add: ALGORITHM_FUNCTION_MAP_def)

text \<open>
  Claim C1, as stated, says that the four coordinates of every result are all finite or
  all not-a-number. The PyMedPhys algorithm breaks it: when the field search succeeds and
  the ball-bearing search raises \<^verbatim>\<open>ValueError\<close>, the field centre is kept and only the
  ball-bearing centre is not-a-number.
\<close>

theorem partial_detection_counterexample:
  "snd (calculate_wlutz env_bb_failure ''a.jpg'' ''PyMedPhys'' (Num 8) (Num 10, Num 10) (Num 2))
     = Inr ((Num 1, Num 2), Num 0, (NaN, NaN))
   \<and> \<not> all_finite_or_all_nan ((Num 1, Num 2), Num 0, (NaN, NaN))"
  by (simp add: calculate_wlutz_dispatch ALGORITHM_FUNCTION_MAP_simps env_bb_failure_def
      pymedphys_wlutz_calculate_def get_wlutz_input_parameters_def
      get_pymedphys_field_centre_and_rotation_def all_finite_or_all_nan_def coordinates_def
      is_finite_def)

text \<open>
  Claim C1, amended: what a failure does to the coordinates. With PyLinac, a
  \<^verbatim>\<open>ValueError\<close> of the third-party run makes all four coordinates not-a-number. With
  PyMedPhys, all four are not-a-number when both the field search and the ball-bearing
  search fail; when only the ball-bearing search fails, the result keeps the field
  centre and rotation that were found and has a not-a-number ball-bearing centre.
\<close>

theorem detection_failure_degrades:
  "(run_wlutz env path edges pen
        (fst (get_pymedphys_field_centre_and_rotation env path edges pen))
        (snd (get_pymedphys_field_centre_and_rotation env path edges pen)) = None
      \<longrightarrow> (\<exists>ev d. calculate_wlutz env path ''PyLinac'' bb edges pen = (ev, Inr d)
             \<and> coordinates d = [NaN, NaN, NaN, NaN]))
   \<and> (field_centre_and_rotation_refining env path edges pen = None
        \<and> optimise_bb_centre env path bb edges pen (NaN, NaN) NaN = None
      \<longrightarrow> (\<exists>ev d. calculate_wlutz env path ''PyMedPhys'' bb edges pen = (ev, Inr d)
             \<and> coordinates d = [NaN, NaN, NaN, NaN]))
   \<and> (field_centre_and_rotation_refining env path edges pen = Some (centre, rotation)
        \<and> optimise_bb_centre env path bb edges pen centre rotation = None
      \<longrightarrow> (\<exists>ev. calculate_wlutz env path ''PyMedPhys'' bb edges pen
                  = (ev, Inr (centre, rotation, (NaN, NaN)))))"
  by (auto simp add: calculate_wlutz_dispatch ALGORITHM_FUNCTION_MAP_simps
      pymedphys_wlutz_calculate_def pylinac_wlutz_calculate_def get_wlutz_input_parameters_def
      get_pymedphys_field_centre_and_rotation_def coordinates_def Let_def
      split: option.splits prod.splits)

theorem detection_failure_degrades_witness:
  "coordinates (case snd (calculate_wlutz env_field_failure ''a.jpg'' ''PyLinac'' (Num 8)
                            (Num 10, Num 10) (Num 2)) of Inr d \<Rightarrow> d)
     = [NaN, NaN, NaN, NaN]
   \<and> coordinates (case snd (calculate_wlutz env_field_failure ''a.jpg'' ''PyMedPhys'' (Num 8)
                              (Num 10, Num 10) (Num 2)) of Inr d \<Rightarrow> d)
     = [NaN, NaN, NaN, NaN]
   \<and> snd (calculate_wlutz env_bb_failure ''a.jpg'' ''PyMedPhys'' (Num 8) (Num 10, Num 10) (Num 2))
     = Inr ((Num 1, Num 2), Num 0, (NaN, NaN))"
  using detection_failure_degrades [of env_field_failure "''a.jpg''" "(Num 10, Num 10)" "Num 2"
      "Num 8" "(Num 1, Num 2)" "Num 0"]
    detection_failure_degrades [of env_bb_failure "''a.jpg''" "(Num 10, Num 10)" "Num 2"
      "Num 8" "(Num 1, Num 2)" "Num 0"]
  by (auto simp add: env_field_failure_def env_bb_failure_def
      get_pymedphys_field_centre_and_rotation_def)

text \<open>
  Claim C10: the guard of \<^verbatim>\<open>_calculate_wlutz\<close> compares the field rotation with
  not-a-number by \<^verbatim>\<open>==\<close>, which is false for every value. So the branch that would
  return not-a-number without detection is never taken: for every image and every
  algorithm of the dispatch table the algorithm function is called, once, with the
  parameters of the image, also when the field search has failed and these parameters
  hold a not-a-number field centre and rotation.
\<close>

theorem nan_guard_never_fires:
  "\<not> py_eq x NaN
   \<and> (ALGORITHM_FUNCTION_MAP algorithm = Some calculate_function
      \<longrightarrow> calculate_wlutz env path algorithm bb edges pen =
            ([Invoked algorithm (get_wlutz_input_parameters env path bb edges pen)],
             Inr (calculate_function env (get_wlutz_input_parameters env path bb edges pen))))
   \<and> (field_centre_and_rotation_refining env path edges pen = None
      \<longrightarrow> get_wlutz_input_parameters env path bb edges pen =
            \<lparr>bb_diameter = bb, edge_lengths = edges, penumbra = pen, field = path,
             pymedphys_field_centre = (NaN, NaN), field_rotation = NaN\<rparr>)"
  by (simp add: py_eq_NaN calculate_wlutz_dispatch get_wlutz_input_parameters_def
      get_pymedphys_field_centre_and_rotation_def)

theorem nan_guard_never_fires_witness:
  "calculate_wlutz env_field_failure ''a.jpg'' ''PyMedPhys'' (Num 8) (Num 10, Num 10) (Num 2) =
     ([Invoked ''PyMedPhys''
         \<lparr>bb_diameter = Num 8, edge_lengths = (Num 10, Num 10), penumbra = Num 2,
          field = ''a.jpg'', pymedphys_field_centre = (NaN, NaN), field_rotation = NaN\<rparr>],
      Inr ((NaN, NaN), NaN, (NaN, NaN)))"
  using nan_guard_never_fires [of NaN "''PyMedPhys''" pymedphys_wlutz_calculate
      env_field_failure "''a.jpg''" "Num 8" "(Num 10, Num 10)" "Num 2"]
  by (simp add: ALGORITHM_FUNCTION_MAP_simps env_field_failure_def pymedphys_wlutz_calculate_def)

section \<open>Properties of the constraint scorer\<close>

lemma ascii_eq_iff [simp]: "ascii a = ascii b \<longleftrightarrow> a = b"
proof -
  have "inj (of_char :: char \<Rightarrow> nat)" by (rule injI) simp
  then show ?thesis unfolding ascii_def by (rule inj_map_eq_map)
qed

lemma returns_iff: "returns r \<longleftrightarrow> (\<exists>v. r = Inr v)"
  by (cases r) (simp_all add: returns_def)

lemma collect_Inr:
  "collect f xs = Inr ys \<Longrightarrow> list_all2 (\<lambda>x y. f x = Inr y) xs ys"
  by (induction xs arbitrary: ys) (auto split: sum.splits)

lemma collect_total:
  "list_all (\<lambda>x. f x = Inr (g x)) xs \<Longrightarrow> collect f xs = Inr (map g xs)"
  by (induction xs) auto

lemma collect_property:
  assumes "collect f xs = Inr ys" and "\<And>x y. f x = Inr y \<Longrightarrow> P y"
  shows "list_all P ys"
  using collect_Inr [OF assms(1)] assms(2)
  by (induction xs ys rule: list_all2_induct) auto

lemma mean_row_Cons:
  "mean d = NumPy m \<Longrightarrow>
   mean_row roi structure d (t # rest) =
     Inr \<lparr>Structure = roi, Structure_Key = structure, Type = ''Mean'',
          Dose_Gy = Flt t, Volume_pct = Str ''-'',
          Actual_Dose_Gy = Flt m, Actual_Volume_pct = Str ''-'',
          Score = fsub t m\<rparr>"
  by (simp add: mean_row_def item_def)

lemma mean_row_Plain: "mean d = Plain m \<Longrightarrow> mean_row roi structure d (t # rest) = Inl TypeError"
  by (simp add: mean_row_def item_def)

lemma row_shapes:
  "mean_row roi structure d e = Inr r \<Longrightarrow>
     Structure r = roi \<and> Structure_Key r = structure \<and> Type r = ''Mean''"
  "max_row roi structure d e = Inr r \<Longrightarrow>
     Structure r = roi \<and> Structure_Key r = structure \<and> Type r = ''Max''"
  "v_row roi structure d e = Inr r \<Longrightarrow>
     Structure r = roi \<and> Structure_Key r = structure \<and> Type r = ''V%''"
  "d_row roi structure d e = Inr r \<Longrightarrow>
     Structure r = roi \<and> Structure_Key r = structure \<and> Type r = ''D%''"
  by (auto simp: mean_row_def max_row_def v_row_def d_row_def Let_def split: sum.splits)

lemma constraint_rows_shape:
  assumes "constraint_rows roi structure d ty c = Inr added"
  shows "list_all (\<lambda>r. Structure r = roi \<and> Structure_Key r = structure
                       \<and> Type r \<in> set [''Mean'', ''Max'', ''V%'', ''D%'']) added"
proof (cases c)
  case Placeholder
  with assms show ?thesis by (simp add: constraint_rows_def)
next
  case (Thresholds entries)
  consider "ty = ascii ''Mean''" | "ty = ascii ''Max''" | "ty = ascii ''V%''" | "ty = ascii ''D%''"
    | "ty \<noteq> ascii ''Mean''" "ty \<noteq> ascii ''Max''" "ty \<noteq> ascii ''V%''" "ty \<noteq> ascii ''D%''"
    by blast
  then show ?thesis
  proof cases
    case 1
    with assms Thresholds have "collect (mean_row roi structure d) entries = Inr added"
      by (simp add: constraint_rows_def)
    then show ?thesis by (rule collect_property) (use row_shapes(1) in auto)
  next
    case 2
    with assms Thresholds have "collect (max_row roi structure d) entries = Inr added"
      by (simp add: constraint_rows_def)
    then show ?thesis by (rule collect_property) (use row_shapes(2) in auto)
  next
    case 3
    with assms Thresholds have "collect (v_row roi structure d) entries = Inr added"
      by (simp add: constraint_rows_def)
    then show ?thesis by (rule collect_property) (use row_shapes(3) in auto)
  next
    case 4
    with assms Thresholds have "collect (d_row roi structure d) entries = Inr added"
      by (simp add: constraint_rows_def)
    then show ?thesis by (rule collect_property) (use row_shapes(4) in auto)
  next
    case 5
    with assms Thresholds show ?thesis by (simp add: constraint_rows_def)
  qed
qed

lemma structure_rows_Inr:
  "structure_rows roi structure d sc = Inr df \<Longrightarrow>
   \<exists>blocks. list_all2 (\<lambda>tc added. constraint_rows roi structure d (fst tc) (snd tc) = Inr added) sc blocks
     \<and> df = concat blocks"
proof (induction sc arbitrary: df)
  case Nil
  then show ?case by simp
next
  case (Cons tc sc)
  obtain ty c where tc: "tc = (ty, c)" by (cases tc)
  from Cons.prems tc obtain added others where
    a: "constraint_rows roi structure d ty c = Inr added" and
    o: "structure_rows roi structure d sc = Inr others" and
    df: "df = added @ others"
    by (auto split: sum.splits)
  from Cons.IH [OF o] obtain blocks where
    b: "list_all2 (\<lambda>tc added. constraint_rows roi structure d (fst tc) (snd tc) = Inr added) sc blocks"
    and c: "others = concat blocks" by blast
  have "list_all2 (\<lambda>tc added. constraint_rows roi structure d (fst tc) (snd tc) = Inr added)
          (tc # sc) (added # blocks)"
    using a b tc by simp
  moreover have "df = concat (added # blocks)" using df c by simp
  ultimately show ?case by blast
qed

lemma structure_rows_member:
  assumes "structure_rows roi structure d sc = Inr df" and "(ty, c) \<in> set sc"
  shows "\<exists>added. constraint_rows roi structure d ty c = Inr added \<and> set added \<subseteq> set df"
proof -
  from structure_rows_Inr [OF assms(1)] obtain blocks where
    b: "list_all2 (\<lambda>tc added. constraint_rows roi structure d (fst tc) (snd tc) = Inr added) sc blocks"
    and df: "df = concat blocks" by blast
  from assms(2) obtain i where i: "i < length sc" "sc ! i = (ty, c)"
    by (auto simp: in_set_conv_nth)
  with b have r: "constraint_rows roi structure d ty c = Inr (blocks ! i)" and l: "i < length blocks"
    by (auto simp: list_all2_conv_all_nth)
  from l have "blocks ! i \<in> set blocks" by simp
  then have "set (blocks ! i) \<subseteq> set df" using df by auto
  with r show ?thesis by blast
qed

lemma structure_rows_shape:
  assumes "structure_rows roi structure d sc = Inr df"
  shows "list_all (\<lambda>r. Structure r = roi \<and> Structure_Key r = structure
                       \<and> Type r \<in> set [''Mean'', ''Max'', ''V%'', ''D%'']) df"
proof -
  from structure_rows_Inr [OF assms] obtain blocks where
    b: "list_all2 (\<lambda>tc added. constraint_rows roi structure d (fst tc) (snd tc) = Inr added) sc blocks"
    and df: "df = concat blocks" by blast
  have "\<forall>added \<in> set blocks. list_all (\<lambda>r. Structure r = roi \<and> Structure_Key r = structure
                       \<and> Type r \<in> set [''Mean'', ''Max'', ''V%'', ''D%'']) added"
  proof
    fix added assume "added \<in> set blocks"
    then obtain i where "i < length blocks" "blocks ! i = added" by (auto simp: in_set_conv_nth)
    with b have "constraint_rows roi structure d (fst (sc ! i)) (snd (sc ! i)) = Inr added"
      by (auto simp: list_all2_conv_all_nth)
    then show "list_all (\<lambda>r. Structure r = roi \<and> Structure_Key r = structure
                       \<and> Type r \<in> set [''Mean'', ''Max'', ''V%'', ''D%'']) added"
      by (rule constraint_rows_shape)
  qed
  then show ?thesis unfolding df by (auto simp: list_all_iff)
qed

lemma compare_structure_with_constraints_Inr:
  assumes "compare_structure_with_constraints roi structure dvh_calcs constraints = Inr block"
  shows "\<exists>sc d body. getitem constraints structure = Inr sc \<and> getitem dvh_calcs roi = Inr d
           \<and> structure_rows roi structure d sc = Inr body \<and> body \<noteq> []
           \<and> block = body @
               [\<lparr>Structure = roi, Structure_Key = structure, Type = ''Average Score'',
                 Dose_Gy = Str ''-'', Volume_pct = Str ''-'', Actual_Dose_Gy = Str ''-'',
                 Actual_Volume_pct = Str ''-'', Score = pd_mean (map Score body)\<rparr>]"
proof -
  from assms obtain sc d body where
    sc: "getitem constraints structure = Inr sc" and d: "getitem dvh_calcs roi = Inr d" and
    body: "structure_rows roi structure d sc = Inr body" and
    avg: "calculate_average_OAR_score body = Inr block"
    by (auto simp: compare_structure_with_constraints_def split: sum.splits)
  from avg obtain first others where b: "body = first # others"
    by (cases body) (auto simp: calculate_average_OAR_score_def item_def)
  from structure_rows_shape [OF body] b have "Structure first = roi" "Structure_Key first = structure"
    by auto
  with avg b have "block = body @
               [\<lparr>Structure = roi, Structure_Key = structure, Type = ''Average Score'',
                 Dose_Gy = Str ''-'', Volume_pct = Str ''-'', Actual_Dose_Gy = Str ''-'',
                 Actual_Volume_pct = Str ''-'', Score = pd_mean (map Score body)\<rparr>]"
    by (auto simp: calculate_average_OAR_score_def item_def)
  with sc d body b show ?thesis by blast
qed

lemma compare_scored_block:
  assumes "compare_structure_with_constraints roi structure dvh_calcs constraints = Inr block"
  shows "scored_block roi structure block"
proof -
  from compare_structure_with_constraints_Inr [OF assms] obtain sc d body where
    body: "structure_rows roi structure d sc = Inr body" "body \<noteq> []" and
    block: "block = body @
               [\<lparr>Structure = roi, Structure_Key = structure, Type = ''Average Score'',
                 Dose_Gy = Str ''-'', Volume_pct = Str ''-'', Actual_Dose_Gy = Str ''-'',
                 Actual_Volume_pct = Str ''-'', Score = pd_mean (map Score body)\<rparr>]"
    by blast
  from structure_rows_shape [OF body(1)] body(2) block show ?thesis
    by (simp add: scored_block_def)
qed

lemma score_structures_Inr:
  "score_structures lower roi ALIASES dvh_calcs constraints df = Inr out \<Longrightarrow>
   \<exists>blocks. list_all2 (\<lambda>sa block.
                 compare_structure_with_constraints roi (fst sa) dvh_calcs constraints = Inr block)
               (filter (\<lambda>sa. alias_match lower roi (snd sa)) ALIASES) blocks
     \<and> out = df @ concat blocks"
proof (induction ALIASES arbitrary: df)
  case Nil
  then show ?case by simp
next
  case (Cons sa ALIASES)
  obtain key aliases where sa: "sa = (key, aliases)" by (cases sa)
  show ?case
  proof (cases "alias_match lower roi aliases")
    case False
    with Cons.prems sa have "score_structures lower roi ALIASES dvh_calcs constraints df = Inr out"
      by simp
    from Cons.IH [OF this] False sa show ?thesis by simp
  next
    case True
    with Cons.prems sa obtain block where
      b: "compare_structure_with_constraints roi key dvh_calcs constraints = Inr block" and
      r: "score_structures lower roi ALIASES dvh_calcs constraints (df @ block) = Inr out"
      by (auto split: sum.splits)
    from Cons.IH [OF r] obtain blocks where
      bs: "list_all2 (\<lambda>sa block.
                 compare_structure_with_constraints roi (fst sa) dvh_calcs constraints = Inr block)
               (filter (\<lambda>sa. alias_match lower roi (snd sa)) ALIASES) blocks"
      and out: "out = (df @ block) @ concat blocks" by blast
    have "list_all2 (\<lambda>sa block.
                 compare_structure_with_constraints roi (fst sa) dvh_calcs constraints = Inr block)
               (filter (\<lambda>sa. alias_match lower roi (snd sa)) (sa # ALIASES)) (block # blocks)"
      using True sa b bs by simp
    moreover have "out = df @ concat (block # blocks)" using out by simp
    ultimately show ?thesis by blast
  qed
qed

lemma score_rois_Inr:
  "score_rois lower rois ALIASES dvh_calcs constraints df = Inr out \<Longrightarrow>
   \<exists>blocks. list_all2 (\<lambda>rs block.
                 compare_structure_with_constraints (fst rs) (snd rs) dvh_calcs constraints = Inr block)
               (matched_pairs lower rois ALIASES) blocks
     \<and> out = df @ concat blocks"
proof (induction rois arbitrary: df)
  case Nil
  then show ?case by (simp add: matched_pairs_def)
next
  case (Cons roi rois)
  from Cons.prems obtain mid where
    m: "score_structures lower roi ALIASES dvh_calcs constraints df = Inr mid" and
    r: "score_rois lower rois ALIASES dvh_calcs constraints mid = Inr out"
    by (auto split: sum.splits)
  from score_structures_Inr [OF m] obtain bs1 where
    b1: "list_all2 (\<lambda>sa block.
                 compare_structure_with_constraints roi (fst sa) dvh_calcs constraints = Inr block)
               (filter (\<lambda>sa. alias_match lower roi (snd sa)) ALIASES) bs1"
    and mid: "mid = df @ concat bs1" by blast
  from Cons.IH [OF r] obtain bs2 where
    b2: "list_all2 (\<lambda>rs block.
                 compare_structure_with_constraints (fst rs) (snd rs) dvh_calcs constraints = Inr block)
               (matched_pairs lower rois ALIASES) bs2"
    and out: "out = mid @ concat bs2" by blast
  from b1 have b1': "list_all2 (\<lambda>rs block.
                 compare_structure_with_constraints (fst rs) (snd rs) dvh_calcs constraints = Inr block)
               (map (\<lambda>sa. (roi, fst sa)) (filter (\<lambda>sa. alias_match lower roi (snd sa)) ALIASES)) bs1"
    by (simp add: list_all2_map1)
  have "matched_pairs lower (roi # rois) ALIASES =
          map (\<lambda>sa. (roi, fst sa)) (filter (\<lambda>sa. alias_match lower roi (snd sa)) ALIASES)
          @ matched_pairs lower rois ALIASES"
    by (simp add: matched_pairs_def)
  with b1' b2 have "list_all2 (\<lambda>rs block.
                 compare_structure_with_constraints (fst rs) (snd rs) dvh_calcs constraints = Inr block)
               (matched_pairs lower (roi # rois) ALIASES) (bs1 @ bs2)"
    by (simp add: list_all2_appendI)
  moreover have "out = df @ concat (bs1 @ bs2)" using out mid by simp
  ultimately show ?case by blast
qed

lemma score_structures_unmatched:
  "list_all (\<lambda>sa. \<not> alias_match lower roi (snd sa)) ALIASES \<Longrightarrow>
   score_structures lower roi ALIASES dvh_calcs constraints df = Inr df"
  by (induction ALIASES) auto

lemma foldl_fadd_finite:
  "list_all is_finite xs \<Longrightarrow> foldl fadd (Num a) xs = Num (a + sum_list (map number xs))"
proof (induction xs arbitrary: a)
  case Nil
  then show ?case by simp
next
  case (Cons x xs)
  then obtain v where "x = Num v" by (cases x) (auto simp: is_finite_def)
  with Cons show ?case by (simp add: add.assoc)
qed

lemma finite_not_NaN: "list_all is_finite xs \<Longrightarrow> filter (\<lambda>x. x \<noteq> NaN) xs = xs"
  by (induction xs) (auto simp: is_finite_def)

lemma pd_sum_finite:
  "list_all is_finite xs \<Longrightarrow> pd_sum xs = Num (sum_list (map number xs))"
  by (simp add: pd_sum_def finite_not_NaN foldl_fadd_finite)

lemma pd_mean_finite:
  "list_all is_finite xs \<Longrightarrow> xs \<noteq> [] \<Longrightarrow>
   pd_mean xs = Num (sum_list (map number xs) / real (length xs))"
  by (simp add: pd_mean_def Let_def finite_not_NaN pd_sum_finite)

lemma scored_block_filters:
  assumes "scored_block roi structure block"
  shows "filter (\<lambda>r. Type r = ''Average Score'') block = [last block]"
    and "filter (\<lambda>r. Type r = ''Total Score'') block = []"
    and "block \<noteq> []"
proof -
  from assms have ne: "block \<noteq> []" by (auto simp: scored_block_def)
  then have split: "block = butlast block @ [last block]" by simp
  from assms have body: "list_all (\<lambda>r. Type r \<in> set [''Mean'', ''Max'', ''V%'', ''D%'']) (butlast block)"
    and l: "Type (last block) = ''Average Score''"
    by (auto simp: scored_block_def list_all_iff)
  from body have "filter (\<lambda>r. Type r = ''Average Score'') (butlast block) = []"
    and "filter (\<lambda>r. Type r = ''Total Score'') (butlast block) = []"
    by (auto simp: list_all_iff filter_empty_conv)
  with l show "filter (\<lambda>r. Type r = ''Average Score'') block = [last block]"
    and "filter (\<lambda>r. Type r = ''Total Score'') block = []"
    by (subst split, simp)+
  show "block \<noteq> []" by fact
qed

lemma blocks_filters:
  assumes "list_all (\<lambda>b. \<exists>roi structure. scored_block roi structure b) blocks"
  shows "filter (\<lambda>r. Type r = ''Average Score'') (concat blocks) = map last blocks"
    and "filter (\<lambda>r. Type r = ''Total Score'') (concat blocks) = []"
  using assms by (induction blocks) (auto simp: scored_block_filters)


lemma no_NaN_filter: "list_all (\<lambda>x. x \<noteq> NaN) xs \<Longrightarrow> filter (\<lambda>x. x \<noteq> NaN) xs = xs"
  by (induction xs) auto

lemma pd_sum_no_NaN:
  "list_all (\<lambda>x. x \<noteq> NaN) xs \<Longrightarrow> pd_sum xs = foldl fadd (Num 0) xs"
  by (simp add: pd_sum_def no_NaN_filter)

lemma pd_mean_no_NaN:
  "list_all (\<lambda>x. x \<noteq> NaN) xs \<Longrightarrow> pd_mean xs = arithmetic_mean xs"
  by (cases "xs = []") (simp_all add: pd_mean_def Let_def arithmetic_mean_def no_NaN_filter pd_sum_no_NaN)

lemma getitem_filter:
  "P k \<Longrightarrow> getitem (filter (\<lambda>kv. P (fst kv)) d) k = getitem d k"
  by (induction d) (auto simp: getitem_def)

lemma compare_structure_with_constraints_cong:
  "getitem d roi = getitem d' roi \<Longrightarrow>
   compare_structure_with_constraints roi structure d constraints =
     compare_structure_with_constraints roi structure d' constraints"
  by (simp add: compare_structure_with_constraints_def cong: sum.case_cong)

lemma score_structures_cong:
  "getitem d roi = getitem d' roi \<Longrightarrow>
   score_structures lower roi ALIASES d constraints df =
     score_structures lower roi ALIASES d' constraints df"
proof (induction ALIASES arbitrary: df)
  case Nil
  then show ?case by simp
next
  case (Cons sa ALIASES)
  obtain key aliases where sa: "sa = (key, aliases)" by (cases sa)
  from Cons.prems have
    "compare_structure_with_constraints roi key d constraints =
       compare_structure_with_constraints roi key d' constraints"
    by (rule compare_structure_with_constraints_cong)
  with Cons.IH [OF Cons.prems] sa show ?case by (simp split: sum.splits)
qed

lemma score_rois_cong:
  "\<forall>roi \<in> set rois. getitem d roi = getitem d' roi \<Longrightarrow>
   score_rois lower rois ALIASES d constraints df = score_rois lower rois ALIASES d' constraints df"
proof (induction rois arbitrary: df)
  case Nil
  then show ?case by simp
next
  case (Cons roi rois)
  from Cons.prems have
    "score_structures lower roi ALIASES d constraints df =
       score_structures lower roi ALIASES d' constraints df"
    by (intro score_structures_cong) simp
  moreover from Cons.prems have
    "\<And>df. score_rois lower rois ALIASES d constraints df =
           score_rois lower rois ALIASES d' constraints df"
    by (intro Cons.IH) simp
  ultimately show ?case by (simp split: sum.splits)
qed

lemma score_rois_filter:
  assumes "\<And>roi. \<not> P roi \<Longrightarrow> list_all (\<lambda>sa. \<not> alias_match lower roi (snd sa)) ALIASES"
  shows "score_rois lower (filter P rois) ALIASES d constraints df =
           score_rois lower rois ALIASES d constraints df"
proof (induction rois arbitrary: df)
  case Nil
  then show ?case by simp
next
  case (Cons roi rois)
  show ?case
  proof (cases "P roi")
    case True
    with Cons.IH show ?thesis by (simp split: sum.splits)
  next
    case False
    from assms [OF False] have
      "score_structures lower roi ALIASES d constraints df = Inr df"
      by (rule score_structures_unmatched)
    with False Cons.IH show ?thesis by simp
  qed
qed

lemma score_structures_total:
  assumes "list_all (\<lambda>sa. alias_match lower roi (snd sa) \<longrightarrow>
             (\<exists>block. compare_structure_with_constraints roi (fst sa) d constraints = Inr block))
           ALIASES"
  shows "\<exists>out. score_structures lower roi ALIASES d constraints df = Inr out"
  using assms
proof (induction ALIASES arbitrary: df)
  case Nil
  then show ?case by simp
next
  case (Cons sa ALIASES)
  obtain key aliases where sa: "sa = (key, aliases)" by (cases sa)
  from Cons.prems have rest: "list_all (\<lambda>sa. alias_match lower roi (snd sa) \<longrightarrow>
             (\<exists>block. compare_structure_with_constraints roi (fst sa) d constraints = Inr block))
           ALIASES" by simp
  show ?case
  proof (cases "alias_match lower roi aliases")
    case False
    with Cons.IH [OF rest] sa show ?thesis by simp
  next
    case True
    with Cons.prems sa obtain block where
      "compare_structure_with_constraints roi key d constraints = Inr block" by auto
    with Cons.IH [OF rest, of "df @ block"] True sa show ?thesis by simp
  qed
qed

lemma score_rois_total:
  assumes "list_all (\<lambda>roi. list_all (\<lambda>sa. alias_match lower roi (snd sa) \<longrightarrow>
             (\<exists>block. compare_structure_with_constraints roi (fst sa) d constraints = Inr block))
           ALIASES) rois"
  shows "\<exists>out. score_rois lower rois ALIASES d constraints df = Inr out"
  using assms
proof (induction rois arbitrary: df)
  case Nil
  then show ?case by simp
next
  case (Cons roi rois)
  from Cons.prems have
    "list_all (\<lambda>sa. alias_match lower roi (snd sa) \<longrightarrow>
             (\<exists>block. compare_structure_with_constraints roi (fst sa) d constraints = Inr block))
           ALIASES" by simp
  from score_structures_total [OF this] obtain mid where
    "score_structures lower roi ALIASES d constraints df = Inr mid" by blast
  moreover from Cons.prems have "\<exists>out. score_rois lower rois ALIASES d constraints mid = Inr out"
    by (intro Cons.IH) simp
  ultimately show ?case by simp
qed

lemma scored_blocks:
  assumes "list_all2 (\<lambda>rs block.
               compare_structure_with_constraints (fst rs) (snd rs) d constraints = Inr block)
             pairs blocks"
  shows "list_all2 (\<lambda>rs block. scored_block (fst rs) (snd rs) block) pairs blocks"
    and "list_all (\<lambda>b. \<exists>roi structure. scored_block roi structure b) blocks"
    and "map (\<lambda>b. (Structure (last b), Structure_Key (last b))) blocks = pairs"
    and "pairs \<noteq> [] \<Longrightarrow> concat blocks \<noteq> []"
proof -
  show 1: "list_all2 (\<lambda>rs block. scored_block (fst rs) (snd rs) block) pairs blocks"
    using assms by (rule list_all2_mono) (simp add: compare_scored_block)
  from 1 show "list_all (\<lambda>b. \<exists>roi structure. scored_block roi structure b) blocks"
    by (induction rule: list_all2_induct) auto
  from 1 show "map (\<lambda>b. (Structure (last b), Structure_Key (last b))) blocks = pairs"
    by (induction rule: list_all2_induct) (auto simp: scored_block_def)
  from 1 show "pairs \<noteq> [] \<Longrightarrow> concat blocks \<noteq> []"
    by (induction rule: list_all2_induct) (auto simp: scored_block_def)
qed

lemma matched_pairs_explicit:
  "matched_pairs lower rois ALIASES =
     concat (map (\<lambda>roi. map (\<lambda>sa. (roi, fst sa))
                          (filter (\<lambda>sa. strip_spaces (lower roi) \<in> set (snd sa)) ALIASES)) rois)"
  by (simp add: matched_pairs_def alias_match_def)

lemma matched_pairs_nonempty:
  "matched_pairs lower rois ALIASES \<noteq> [] \<longleftrightarrow>
     filter (\<lambda>roi. list_ex (\<lambda>sa. strip_spaces (lower roi) \<in> set (snd sa)) ALIASES) rois \<noteq> []"
  by (auto simp: matched_pairs_def alias_match_def filter_empty_conv list_ex_iff)

lemma liver_example:
  "compare_structure_with_constraints (ascii ''Liver'') (ascii ''Liver'')
     [(ascii ''Liver'', liver_dvh)] liver_constraints = Inr liver_rows"
  by code_simp

lemma collect_member:
  "collect f xs = Inr ys \<Longrightarrow> x \<in> set xs \<Longrightarrow> \<exists>y \<in> set ys. f x = Inr y"
  by (induction xs arbitrary: ys) (auto split: sum.splits)

text \<open>
  Claim C7, as stated, fails on a histogram that reports its mean dose as a plain Python
  number, as the histogram of a structure without dose data does (the plain \<^verbatim>\<open>0\<close>):
  \<^verbatim>\<open>[18] - 0\<close> is a list minus an integer, the scoring of the structure stops with
  a \<^verbatim>\<open>TypeError\<close> and no row is emitted.
\<close>

theorem mean_of_plain_number_counterexample:
  "compare_structure_with_constraints (ascii ''Liver'') (ascii ''Liver'')
     [(ascii ''Liver'', empty_dvh)] liver_constraints = Inl TypeError"
  by code_simp

text \<open>
  Claim C7, amended: for a structure whose \<^verbatim>\<open>Mean\<close> constraint is not the placeholder
  and whose histogram reports its mean dose as a NumPy float, every threshold \<open>t\<close> of
  that constraint gives a row of type \<^verbatim>\<open>Mean\<close> in every table the scoring of the
  structure returns, and the score of the row is \<open>t\<close> minus the mean dose. The loop over
  the thresholds raises nothing when every entry holds a number, and it builds these
  rows. With a mean dose of 20 and a threshold of 18 the score is -2.
\<close>

theorem mean_constraint_score:
  assumes "getitem constraints structure = Inr sc"
      and "getitem dvh_calcs roi = Inr d"
      and "(ascii ''Mean'', Thresholds entries) \<in> set sc"
      and "t # rest \<in> set entries"
      and "mean d = NumPy m"
  shows "(compare_structure_with_constraints roi structure dvh_calcs constraints = Inr block \<longrightarrow>
            (\<exists>r \<in> set block. Structure r = roi \<and> Structure_Key r = structure \<and> Type r = ''Mean''
               \<and> Dose_Gy r = Flt t \<and> Actual_Dose_Gy r = Flt m \<and> Score r = fsub t m))
         \<and> (list_all (\<lambda>e. e \<noteq> []) entries \<longrightarrow>
              constraint_rows roi structure d (ascii ''Mean'') (Thresholds entries) =
                Inr (map (\<lambda>e. \<lparr>Structure = roi, Structure_Key = structure, Type = ''Mean'',
                                  Dose_Gy = Flt (hd e), Volume_pct = Str ''-'',
                                  Actual_Dose_Gy = Flt m, Actual_Volume_pct = Str ''-'',
                                  Score = fsub (hd e) m\<rparr>) entries))"
proof -
  have first: "\<exists>r \<in> set block. Structure r = roi \<and> Structure_Key r = structure
            \<and> Type r = ''Mean'' \<and> Dose_Gy r = Flt t \<and> Actual_Dose_Gy r = Flt m
            \<and> Score r = fsub t m"
    if ret: "compare_structure_with_constraints roi structure dvh_calcs constraints = Inr block"
  proof -
    from compare_structure_with_constraints_Inr [OF ret] obtain sc' d' body where
      c: "getitem constraints structure = Inr sc'" "getitem dvh_calcs roi = Inr d'"
         "structure_rows roi structure d' sc' = Inr body" and
      b: "block = body @
                 [\<lparr>Structure = roi, Structure_Key = structure, Type = ''Average Score'',
                   Dose_Gy = Str ''-'', Volume_pct = Str ''-'', Actual_Dose_Gy = Str ''-'',
                   Actual_Volume_pct = Str ''-'', Score = pd_mean (map Score body)\<rparr>]"
      by blast
    from c assms(1,2) have body: "structure_rows roi structure d sc = Inr body" by simp
    from b have block: "set body \<subseteq> set block" by auto
    from structure_rows_member [OF body assms(3)] obtain added where
      added: "constraint_rows roi structure d (ascii ''Mean'') (Thresholds entries) = Inr added"
      and sub: "set added \<subseteq> set body" by blast
    from added have "collect (mean_row roi structure d) entries = Inr added"
      by (simp add: constraint_rows_def)
    from collect_member [OF this assms(4)] obtain r where
      r: "r \<in> set added" "mean_row roi structure d (t # rest) = Inr r"
      by blast
    from r(2) have "Structure r = roi \<and> Structure_Key r = structure \<and> Type r = ''Mean''
             \<and> Dose_Gy r = Flt t \<and> Actual_Dose_Gy r = Flt m \<and> Score r = fsub t m"
      by (auto simp: mean_row_Cons [OF assms(5)])
    with r(1) sub block show ?thesis by blast
  qed
  have "list_all (\<lambda>e. e \<noteq> []) entries \<Longrightarrow>
        collect (mean_row roi structure d) entries =
          Inr (map (\<lambda>e. \<lparr>Structure = roi, Structure_Key = structure, Type = ''Mean'',
                            Dose_Gy = Flt (hd e), Volume_pct = Str ''-'',
                            Actual_Dose_Gy = Flt m, Actual_Volume_pct = Str ''-'',
                            Score = fsub (hd e) m\<rparr>) entries)"
    by (rule collect_total)
       (auto simp: list_all_iff neq_Nil_conv mean_row_Cons [OF assms(5)])
  then show ?thesis using first by (simp add: constraint_rows_def)
qed

theorem mean_constraint_score_witness:
  "compare_structure_with_constraints (ascii ''Liver'') (ascii ''Liver'')
     [(ascii ''Liver'', liver_dvh)] liver_constraints = Inr liver_rows
   \<and> Score (hd liver_rows) = fsub (Num 18) (Num 20)
   \<and> fsub (Num 18) (Num 20) = Num (- 2)
   \<and> constraint_rows (ascii ''Liver'') (ascii ''Liver'') liver_dvh (ascii ''Mean'')
       (Thresholds [[Num 18]]) = Inr [hd liver_rows]"
proof -
  have 1: "getitem liver_constraints (ascii ''Liver'') =
             Inr [(ascii ''Mean'', Thresholds [[Num 18]]), (ascii ''Max'', Placeholder),
                  (ascii ''V%'', Placeholder), (ascii ''D%'', Placeholder)]"
    by (simp add: getitem_def liver_constraints_def)
  have 2: "getitem [(ascii ''Liver'', liver_dvh)] (ascii ''Liver'') = Inr liver_dvh"
    by (simp add: getitem_def)
  have 3: "mean liver_dvh = NumPy (Num 20)" by (simp add: liver_dvh_def)
  have 4: "fsub (Num 18) (Num 20) = Num (- 2)" by (simp add: fsub_def)
  from mean_constraint_score [OF 1 2 _ _ 3, of "[[Num 18]]" "Num 18" "[]" liver_rows] liver_example
  have "constraint_rows (ascii ''Liver'') (ascii ''Liver'') liver_dvh (ascii ''Mean'')
          (Thresholds [[Num 18]]) = Inr [hd liver_rows]"
    by (simp add: liver_rows_def 4)
  with liver_example 4 show ?thesis by (simp add: liver_rows_def)
qed

lemma gap_example:
  "compare_structure_with_constraints (ascii ''Liver'') (ascii ''Liver'')
     [(ascii ''Liver'', gap_dvh)] gap_constraints = Inr gap_rows"
  by code_simp

lemma plan_example:
  "constraint_check ascii_lower plan_dvhs plan_aliases plan_constraints = Inr plan_table"
  by code_simp

text \<open>
  Claim C8, as stated, fails when one of the constraint scores of a structure is not a
  number: the \<^verbatim>\<open>Average Score\<close> row is computed by the pandas mean, which skips such
  scores. With the scores 1 and not-a-number the row holds 1, where the arithmetic mean
  of the two scores is not a number.
\<close>

theorem average_skips_missing_counterexample:
  "compare_structure_with_constraints (ascii ''Liver'') (ascii ''Liver'')
     [(ascii ''Liver'', gap_dvh)] gap_constraints = Inr gap_rows
   \<and> map Score gap_rows = [Num 1, NaN, Num 1]
   \<and> arithmetic_mean [Num 1, NaN] = NaN"
  using gap_example by (simp add: gap_rows_def arithmetic_mean_def)

text \<open>
  Claim C8, amended: when the scoring of a plan returns its table, the table is made of
  one block of rows per matched pair of a region of interest and a structure key, in
  loop order, followed by one last row. Each block is the constraint rows of that
  structure followed by exactly one \<^verbatim>\<open>Average Score\<close> row, whose score is the pandas
  mean of the block's constraint scores: the scores that are not a number are skipped,
  so that it is the arithmetic mean of the scores when each of them is a number. The
  last row is the only \<^verbatim>\<open>Total Score\<close> row, and its score is the pandas sum of the
  scores of the \<^verbatim>\<open>Average Score\<close> rows: their sum when each of them is a number.
\<close>

theorem average_and_total_scores:
  assumes "constraint_check lower dvh_calcs ALIASES constraints = Inr table"
  shows "\<exists>blocks.
           table = concat blocks @ [last table]
         \<and> list_all2 (\<lambda>rs block.
               compare_structure_with_constraints (fst rs) (snd rs) dvh_calcs constraints = Inr block
               \<and> scored_block (fst rs) (snd rs) block)
             (matched_pairs lower (map fst dvh_calcs) ALIASES) blocks
         \<and> filter (\<lambda>r. Type r = ''Average Score'') table = map last blocks
         \<and> filter (\<lambda>r. Type r = ''Total Score'') table = [last table]
         \<and> list_all (\<lambda>b. Score (last b) = pd_mean (map Score (butlast b))) blocks
         \<and> list_all (\<lambda>b. list_all (\<lambda>r. Score r \<noteq> NaN) (butlast b) \<longrightarrow>
                Score (last b) = arithmetic_mean (map Score (butlast b)))
             blocks
         \<and> list_all (\<lambda>b. list_all (\<lambda>r. is_finite (Score r)) (butlast b) \<longrightarrow>
                Score (last b) =
                  Num (sum_list (map (\<lambda>r. number (Score r)) (butlast b)) / real (length (butlast b))))
             blocks
         \<and> Score (last table) = pd_sum (map (\<lambda>b. Score (last b)) blocks)
         \<and> (list_all (\<lambda>b. Score (last b) \<noteq> NaN) blocks \<longrightarrow>
              Score (last table) = foldl fadd (Num 0) (map (\<lambda>b. Score (last b)) blocks))
         \<and> (list_all (\<lambda>b. is_finite (Score (last b))) blocks \<longrightarrow>
              Score (last table) = Num (sum_list (map (\<lambda>b. number (Score (last b))) blocks)))"
proof -
  from assms obtain df where
    df: "score_rois lower (map fst dvh_calcs) ALIASES dvh_calcs constraints [] = Inr df" and
    tot: "calculate_total_score df = Inr table"
    by (auto simp: constraint_check_def split: sum.splits)
  from score_rois_Inr [OF df] obtain blocks where
    b: "list_all2 (\<lambda>rs block.
                 compare_structure_with_constraints (fst rs) (snd rs) dvh_calcs constraints = Inr block)
               (matched_pairs lower (map fst dvh_calcs) ALIASES) blocks"
    and dfc: "df = concat blocks" by auto
  let ?total = "\<lparr>Structure = ascii ''Total Patient'', Structure_Key = ascii ''Total Patient'',
                  Type = ''Total Score'', Dose_Gy = Str ''-'', Volume_pct = Str ''-'',
                  Actual_Dose_Gy = Str ''-'', Actual_Volume_pct = Str ''-'',
                  Score = pd_sum (map Score (filter (\<lambda>r. Type r = ''Average Score'') df))\<rparr>"
  from tot have table: "table = df @ [?total]"
    by (auto simp: calculate_total_score_def split: if_splits)
  then have last: "last table = ?total" by simp
  note sb = scored_blocks(2) [OF b]
  have b': "list_all2 (\<lambda>rs block.
               compare_structure_with_constraints (fst rs) (snd rs) dvh_calcs constraints = Inr block
               \<and> scored_block (fst rs) (snd rs) block)
             (matched_pairs lower (map fst dvh_calcs) ALIASES) blocks"
    using b by (rule list_all2_mono) (simp add: compare_scored_block)
  note f = blocks_filters [OF sb]
  have avg: "filter (\<lambda>r. Type r = ''Average Score'') table = map last blocks"
    using f(1) by (simp add: table dfc)
  have total: "filter (\<lambda>r. Type r = ''Total Score'') table = [last table]"
    using f(2) by (simp add: table dfc)
  have score: "Score (last table) = pd_sum (map (\<lambda>b. Score (last b)) blocks)"
    using f(1) by (simp add: last dfc comp_def)
  have pm: "Score (last blk) = pd_mean (map Score (butlast blk))" and ne: "butlast blk \<noteq> []"
    if "blk \<in> set blocks" for blk
  proof -
    from that sb obtain roi key where "scored_block roi key blk" by (auto simp: list_all_iff)
    then show "Score (last blk) = pd_mean (map Score (butlast blk))" and "butlast blk \<noteq> []"
      by (auto simp: scored_block_def)
  qed
  have means: "list_all (\<lambda>b. Score (last b) = pd_mean (map Score (butlast b))) blocks"
    using pm by (simp add: list_all_iff)
  have arith: "list_all (\<lambda>b. list_all (\<lambda>r. Score r \<noteq> NaN) (butlast b) \<longrightarrow>
                Score (last b) = arithmetic_mean (map Score (butlast b))) blocks"
    unfolding list_all_iff
  proof (intro ballI impI)
    fix blk assume blk: "blk \<in> set blocks" and "\<forall>r \<in> set (butlast blk). Score r \<noteq> NaN"
    then have "list_all (\<lambda>x. x \<noteq> NaN) (map Score (butlast blk))" by (simp add: list_all_iff)
    from pd_mean_no_NaN [OF this] pm [OF blk]
    show "Score (last blk) = arithmetic_mean (map Score (butlast blk))" by simp
  qed
  have reals: "list_all (\<lambda>b. list_all (\<lambda>r. is_finite (Score r)) (butlast b) \<longrightarrow>
                Score (last b) =
                  Num (sum_list (map (\<lambda>r. number (Score r)) (butlast b)) / real (length (butlast b))))
             blocks"
    unfolding list_all_iff
  proof (intro ballI impI)
    fix blk assume blk: "blk \<in> set blocks" and fin: "\<forall>r \<in> set (butlast blk). is_finite (Score r)"
    from fin have "list_all is_finite (map Score (butlast blk))" by (simp add: list_all_iff)
    from pd_mean_finite [OF this] ne [OF blk] pm [OF blk]
    show "Score (last blk) =
            Num (sum_list (map (\<lambda>r. number (Score r)) (butlast blk)) / real (length (butlast blk)))"
      by (simp add: comp_def)
  qed
  have sum: "list_all (\<lambda>b. Score (last b) \<noteq> NaN) blocks \<longrightarrow>
              Score (last table) = foldl fadd (Num 0) (map (\<lambda>b. Score (last b)) blocks)"
  proof
    assume "list_all (\<lambda>b. Score (last b) \<noteq> NaN) blocks"
    then have "list_all (\<lambda>x. x \<noteq> NaN) (map (\<lambda>b. Score (last b)) blocks)"
      by (simp add: list_all_iff)
    from pd_sum_no_NaN [OF this] score
    show "Score (last table) = foldl fadd (Num 0) (map (\<lambda>b. Score (last b)) blocks)" by simp
  qed
  have rsum: "list_all (\<lambda>b. is_finite (Score (last b))) blocks \<longrightarrow>
              Score (last table) = Num (sum_list (map (\<lambda>b. number (Score (last b))) blocks))"
  proof
    assume "list_all (\<lambda>b. is_finite (Score (last b))) blocks"
    then have "list_all is_finite (map (\<lambda>b. Score (last b)) blocks)" by (simp add: list_all_iff)
    from pd_sum_finite [OF this] score
    show "Score (last table) = Num (sum_list (map (\<lambda>b. number (Score (last b))) blocks))"
      by (simp add: comp_def)
  qed
  have "table = concat blocks @ [last table]" using table dfc by simp
  with b' avg total means arith reals score sum rsum show ?thesis by blast
qed

theorem average_and_total_scores_witness:
  "constraint_check ascii_lower plan_dvhs plan_aliases plan_constraints = Inr plan_table
   \<and> map (\<lambda>r. (Type r, Score r)) plan_table =
       [(''Mean'', Num 1), (''Mean'', Num (- 2)), (''Mean'', Num 3),
        (''Average Score'', Num (2 / 3)),
        (''Max'', Num (- 1)), (''Average Score'', Num (- 1)),
        (''Total Score'', Num (- (1 / 3)))]
   \<and> length (filter (\<lambda>r. Type r = ''Total Score'') plan_table) = 1
   \<and> length (filter (\<lambda>r. Type r = ''Average Score'') plan_table) =
       length (matched_pairs ascii_lower (map fst plan_dvhs) plan_aliases)"
proof -
  from average_and_total_scores [OF plan_example] obtain blocks where
    b: "list_all2 (\<lambda>rs block.
               compare_structure_with_constraints (fst rs) (snd rs) plan_dvhs plan_constraints = Inr block
               \<and> scored_block (fst rs) (snd rs) block)
             (matched_pairs ascii_lower (map fst plan_dvhs) plan_aliases) blocks" and
    a: "filter (\<lambda>r. Type r = ''Average Score'') plan_table = map last blocks" and
    t: "filter (\<lambda>r. Type r = ''Total Score'') plan_table = [last plan_table]"
    by blast
  from b have "length (matched_pairs ascii_lower (map fst plan_dvhs) plan_aliases) = length blocks"
    by (rule list_all2_lengthD)
  with a t have "length (filter (\<lambda>r. Type r = ''Total Score'') plan_table) = 1"
    and "length (filter (\<lambda>r. Type r = ''Average Score'') plan_table) =
       length (matched_pairs ascii_lower (map fst plan_dvhs) plan_aliases)"
    by simp_all
  moreover have "map (\<lambda>r. (Type r, Score r)) plan_table =
       [(''Mean'', Num 1), (''Mean'', Num (- 2)), (''Mean'', Num 3),
        (''Average Score'', Num (2 / 3)),
        (''Max'', Num (- 1)), (''Average Score'', Num (- 1)),
        (''Total Score'', Num (- (1 / 3)))]"
    by (simp add: plan_table_def)
  ultimately show ?thesis using plan_example by blast
qed

lemma couch_example:
  "constraint_check ascii_lower couch_plan plan_aliases plan_constraints = Inl KeyError"
  by code_simp

lemma plan_alias_matches:
  "alias_match ascii_lower (ascii '' Liver '') [ascii ''liver'']"
  "\<not> alias_match ascii_lower (ascii ''liver_ptv'') [ascii ''liver'']"
  "\<not> alias_match ascii_lower (ascii '' Liver '') [ascii ''liver_ptv'']"
  "matched_pairs ascii_lower (map fst couch_plan) plan_aliases = []"
  "matched_pairs ascii_lower (map fst plan_dvhs) plan_aliases =
     [(ascii '' Liver '', ascii ''Liver''), (ascii ''CORD'', ascii ''Cord'')]"
  "list_ex (\<lambda>sa. strip_spaces (ascii_lower (ascii '' Liver '')) \<in> set (snd sa)) plan_aliases"
  "\<not> list_ex (\<lambda>sa. strip_spaces (ascii_lower (ascii ''liver_ptv'')) \<in> set (snd sa)) plan_aliases"
  "list_ex (\<lambda>sa. strip_spaces (ascii_lower (ascii ''CORD'')) \<in> set (snd sa)) plan_aliases"
  by code_simp+

lemma plan_matched_rois:
  "matched_rois ascii_lower plan_aliases plan_dvhs =
     [(ascii '' Liver '', zero_dvh), (ascii ''CORD'', zero_dvh)]"
  by (simp add: matched_rois_def plan_dvhs_def plan_alias_matches(6,7,8))

text \<open>
  Claim C9, as stated, fails for a plan in which no region of interest matches an alias:
  the regions are left out of the table, the table stays without a row or a column, and
  the step that follows the two loops (\<^verbatim>\<open>calculate_total_score\<close>, line 471) raises a
  \<^verbatim>\<open>KeyError\<close> on it.
\<close>

theorem unmatched_only_counterexample:
  "matched_pairs ascii_lower (map fst couch_plan) plan_aliases = []
   \<and> constraint_check ascii_lower couch_plan plan_aliases plan_constraints = Inl KeyError"
  using couch_example plan_alias_matches(4) by simp

text \<open>
  Claim C9, amended: a region of interest is scored against a structure key exactly when
  its name, lower-cased and stripped of the spaces at both ends, is one of the aliases
  of that key: the \<^verbatim>\<open>Average Score\<close> rows of the table the scoring returns name
  exactly these pairs, in loop order. The regions of interest that match no alias list
  are excluded: the scoring of the plan gives what the scoring of the plan without
  them gives, the same table or the same exception. It returns a table when at least
  one region of interest is matched and the scoring of every matched pair raises
  nothing. The name \<^verbatim>\<open>" Liver "\<close> matches the alias \<^verbatim>\<open>"liver"\<close>;
  \<^verbatim>\<open>"liver_ptv"\<close> does not, and \<^verbatim>\<open>" Liver "\<close> does not match the alias
  \<^verbatim>\<open>"liver_ptv"\<close>.
\<close>

theorem alias_matching:
  "(constraint_check lower dvh_calcs ALIASES constraints = Inr table \<longrightarrow>
      map (\<lambda>r. (Structure r, Structure_Key r)) (filter (\<lambda>r. Type r = ''Average Score'') table)
        = concat (map (\<lambda>roi. map (\<lambda>sa. (roi, fst sa))
                          (filter (\<lambda>sa. strip_spaces (lower roi) \<in> set (snd sa)) ALIASES))
                   (map fst dvh_calcs)))
   \<and> constraint_check lower dvh_calcs ALIASES constraints =
       constraint_check lower (matched_rois lower ALIASES dvh_calcs) ALIASES constraints
   \<and> (matched_rois lower ALIASES dvh_calcs \<noteq> []
        \<and> list_all (\<lambda>roi. list_all (\<lambda>sa. strip_spaces (lower roi) \<in> set (snd sa) \<longrightarrow>
              returns (compare_structure_with_constraints roi (fst sa) dvh_calcs constraints))
            ALIASES) (map fst dvh_calcs)
      \<longrightarrow> returns (constraint_check lower dvh_calcs ALIASES constraints))
   \<and> alias_match ascii_lower (ascii '' Liver '') [ascii ''liver'']
   \<and> \<not> alias_match ascii_lower (ascii ''liver_ptv'') [ascii ''liver'']
   \<and> \<not> alias_match ascii_lower (ascii '' Liver '') [ascii ''liver_ptv'']"
proof -
  let ?rois = "map fst dvh_calcs"
  let ?P = "\<lambda>roi. list_ex (\<lambda>sa. strip_spaces (lower roi) \<in> set (snd sa)) ALIASES"
  have 1: "map (\<lambda>r. (Structure r, Structure_Key r)) (filter (\<lambda>r. Type r = ''Average Score'') table)
        = concat (map (\<lambda>roi. map (\<lambda>sa. (roi, fst sa))
                          (filter (\<lambda>sa. strip_spaces (lower roi) \<in> set (snd sa)) ALIASES)) ?rois)"
    if ret: "constraint_check lower dvh_calcs ALIASES constraints = Inr table"
  proof -
    from ret obtain df where
      df: "score_rois lower ?rois ALIASES dvh_calcs constraints [] = Inr df" and
      tot: "calculate_total_score df = Inr table"
      by (auto simp: constraint_check_def split: sum.splits)
    from score_rois_Inr [OF df] obtain blocks where
      b: "list_all2 (\<lambda>rs block.
                 compare_structure_with_constraints (fst rs) (snd rs) dvh_calcs constraints = Inr block)
               (matched_pairs lower ?rois ALIASES) blocks"
      and dfc: "df = concat blocks" by auto
    from tot have "filter (\<lambda>r. Type r = ''Average Score'') table
                     = filter (\<lambda>r. Type r = ''Average Score'') df"
      by (auto simp: calculate_total_score_def split: if_splits)
    with blocks_filters(1) [OF scored_blocks(2) [OF b]] dfc scored_blocks(3) [OF b]
    have "map (\<lambda>r. (Structure r, Structure_Key r)) (filter (\<lambda>r. Type r = ''Average Score'') table)
            = matched_pairs lower ?rois ALIASES"
      by (simp add: comp_def)
    then show ?thesis by (simp add: matched_pairs_explicit)
  qed
  have unmatched: "list_all (\<lambda>sa. \<not> alias_match lower roi (snd sa)) ALIASES" if "\<not> ?P roi" for roi
    using that by (simp add: alias_match_def list_all_iff list_ex_iff)
  have rois: "map fst (matched_rois lower ALIASES dvh_calcs) = filter ?P ?rois"
    by (simp add: matched_rois_def filter_map comp_def)
  have "score_rois lower (filter ?P ?rois) ALIASES (matched_rois lower ALIASES dvh_calcs) constraints []
          = score_rois lower (filter ?P ?rois) ALIASES dvh_calcs constraints []"
    unfolding matched_rois_def
    by (rule score_rois_cong) (simp add: getitem_filter [where P = ?P])
  also have "\<dots> = score_rois lower ?rois ALIASES dvh_calcs constraints []"
    using unmatched by (rule score_rois_filter)
  finally have 2: "constraint_check lower dvh_calcs ALIASES constraints =
       constraint_check lower (matched_rois lower ALIASES dvh_calcs) ALIASES constraints"
    by (simp add: constraint_check_def rois)
  have 3: "returns (constraint_check lower dvh_calcs ALIASES constraints)"
    if some: "matched_rois lower ALIASES dvh_calcs \<noteq> []"
      and ok: "list_all (\<lambda>roi. list_all (\<lambda>sa. strip_spaces (lower roi) \<in> set (snd sa) \<longrightarrow>
              returns (compare_structure_with_constraints roi (fst sa) dvh_calcs constraints))
            ALIASES) ?rois"
  proof -
    from ok have "list_all (\<lambda>roi. list_all (\<lambda>sa. alias_match lower roi (snd sa) \<longrightarrow>
             (\<exists>block. compare_structure_with_constraints roi (fst sa) dvh_calcs constraints = Inr block))
           ALIASES) ?rois"
      by (simp add: alias_match_def returns_iff)
    from score_rois_total [OF this] obtain df where
      df: "score_rois lower ?rois ALIASES dvh_calcs constraints [] = Inr df" by blast
    from score_rois_Inr [OF df] obtain blocks where
      b: "list_all2 (\<lambda>rs block.
                 compare_structure_with_constraints (fst rs) (snd rs) dvh_calcs constraints = Inr block)
               (matched_pairs lower ?rois ALIASES) blocks"
      and dfc: "df = concat blocks" by auto
    from some have "filter ?P ?rois \<noteq> []" using rois by (metis map_is_Nil_conv)
    then have "matched_pairs lower ?rois ALIASES \<noteq> []" by (simp add: matched_pairs_nonempty)
    from scored_blocks(4) [OF b this] dfc have "df \<noteq> []" by simp
    with df show ?thesis by (simp add: constraint_check_def calculate_total_score_def returns_iff)
  qed
  from 1 2 3 plan_alias_matches(1,2,3) show ?thesis by blast
qed

theorem alias_matching_witness:
  "constraint_check ascii_lower plan_dvhs plan_aliases plan_constraints = Inr plan_table
   \<and> map (\<lambda>r. (Structure r, Structure_Key r))
       (filter (\<lambda>r. Type r = ''Average Score'') plan_table)
       = [(ascii '' Liver '', ascii ''Liver''), (ascii ''CORD'', ascii ''Cord'')]
   \<and> constraint_check ascii_lower
       [(ascii '' Liver '', zero_dvh), (ascii ''CORD'', zero_dvh)] plan_aliases plan_constraints
       = Inr plan_table
   \<and> returns (constraint_check ascii_lower plan_dvhs plan_aliases plan_constraints)"
proof -
  have m: "concat (map (\<lambda>roi. map (\<lambda>sa. (roi, fst sa))
                          (filter (\<lambda>sa. strip_spaces (ascii_lower roi) \<in> set (snd sa)) plan_aliases))
                   (map fst plan_dvhs))
           = [(ascii '' Liver '', ascii ''Liver''), (ascii ''CORD'', ascii ''Cord'')]"
    using plan_alias_matches(5) by (simp add: matched_pairs_explicit)
  have some: "matched_rois ascii_lower plan_aliases plan_dvhs \<noteq> []"
    by (simp add: plan_matched_rois)
  have scored: "list_all (\<lambda>roi. list_all (\<lambda>sa.
              strip_spaces (ascii_lower roi) \<in> set (snd sa) \<longrightarrow>
              returns (compare_structure_with_constraints roi (fst sa) plan_dvhs plan_constraints))
            plan_aliases) (map fst plan_dvhs)"
    by code_simp
  note claim = alias_matching [of ascii_lower plan_dvhs plan_aliases plan_constraints plan_table]
  from claim have
    "constraint_check ascii_lower plan_dvhs plan_aliases plan_constraints = Inr plan_table \<longrightarrow>
      map (\<lambda>r. (Structure r, Structure_Key r)) (filter (\<lambda>r. Type r = ''Average Score'') plan_table)
        = concat (map (\<lambda>roi. map (\<lambda>sa. (roi, fst sa))
                          (filter (\<lambda>sa. strip_spaces (ascii_lower roi) \<in> set (snd sa)) plan_aliases))
                   (map fst plan_dvhs))"
    by (rule conjunct1)
  with plan_example m have pairs: "map (\<lambda>r. (Structure r, Structure_Key r))
       (filter (\<lambda>r. Type r = ''Average Score'') plan_table)
       = [(ascii '' Liver '', ascii ''Liver''), (ascii ''CORD'', ascii ''Cord'')]"
    by simp
  from claim have "constraint_check ascii_lower plan_dvhs plan_aliases plan_constraints =
       constraint_check ascii_lower (matched_rois ascii_lower plan_aliases plan_dvhs)
         plan_aliases plan_constraints"
    by blast
  with plan_example plan_matched_rois have without: "constraint_check ascii_lower
       [(ascii '' Liver '', zero_dvh), (ascii ''CORD'', zero_dvh)] plan_aliases plan_constraints
       = Inr plan_table"
    by simp
  from claim some scored
  have "returns (constraint_check ascii_lower plan_dvhs plan_aliases plan_constraints)"
    by blast
  with plan_example pairs without show ?thesis by blast
qed
section \<open>Properties of the batch runner\<close>

subsection \<open>Dropping duplicates\<close>

lemma set_drop_dups [simp]: "set (drop_dups xs) = set xs"
  by (induction xs rule: drop_dups.induct) auto

lemma distinct_drop_dups [simp]: "distinct (drop_dups xs)"
  by (induction xs rule: drop_dups.induct) auto

lemma drop_dups_distinct: "distinct xs \<Longrightarrow> drop_dups xs = xs"
proof (induction xs)
  case Nil
  then show ?case by simp
next
  case (Cons x xs)
  then have "filter (\<lambda>y. y \<noteq> x) xs = xs" by (auto simp: filter_id_conv)
  with Cons show ?case by simp
qed

lemma filter_drop_dups: "filter P (drop_dups xs) = drop_dups (filter P xs)"
proof (induction xs rule: drop_dups.induct)
  case 1
  then show ?case by simp
next
  case (2 x xs)
  have a: "filter (\<lambda>y. y \<noteq> x) (filter P xs) = filter P (filter (\<lambda>y. y \<noteq> x) xs)"
    by (simp add: conj_commute)
  have b: "filter P (filter (\<lambda>y. y \<noteq> x) xs) = filter P xs" if "\<not> P x"
  proof -
    have "filter (\<lambda>y. y \<noteq> x \<and> P y) xs = filter P xs"
      using that by (intro filter_cong) auto
    then show ?thesis by simp
  qed
  show ?case
  proof (cases "P x")
    case True
    with 2 a show ?thesis by simp
  next
    case False
    with 2 b show ?thesis by simp
  qed
qed

lemma drop_dups_append:
  "drop_dups (xs @ ys) = drop_dups xs @ drop_dups (filter (\<lambda>y. y \<notin> set xs) ys)"
proof (induction xs arbitrary: ys rule: drop_dups.induct)
  case 1
  then show ?case by simp
next
  case (2 x xs)
  have "filter (\<lambda>y. y \<notin> set (filter (\<lambda>y. y \<noteq> x) xs)) (filter (\<lambda>y. y \<noteq> x) ys)
        = filter (\<lambda>y. y \<noteq> x \<and> y \<notin> set xs) ys"
    by (auto intro: filter_cong)
  with 2 [of "filter (\<lambda>y. y \<noteq> x) ys"] show ?case by simp
qed

lemma drop_dups_twice: "distinct xs \<Longrightarrow> drop_dups (xs @ xs) = xs"
  by (simp add: drop_dups_append drop_dups_distinct)

lemma map_drop_dups: "inj_on f (set xs) \<Longrightarrow> map f (drop_dups xs) = drop_dups (map f xs)"
proof (induction xs rule: drop_dups.induct)
  case 1
  then show ?case by simp
next
  case (2 x xs)
  from 2(2) have inj: "inj_on f (set (filter (\<lambda>y. y \<noteq> x) xs))"
    by (auto intro: inj_on_subset)
  from 2(2) have "filter (\<lambda>y. y \<noteq> f x) (map f xs) = map f (filter (\<lambda>y. y \<noteq> x) xs)"
    by (auto simp: filter_map comp_def inj_on_def intro!: arg_cong [where f = "map f"] filter_cong)
  with 2(1) [OF inj] show ?case by simp
qed

lemma drop_dups_concat_disjoint:
  "(\<And>i j. i < j \<Longrightarrow> j < length bs \<Longrightarrow> set (bs ! i) \<inter> set (bs ! j) = {}) \<Longrightarrow>
   drop_dups (concat bs) = concat (map drop_dups bs)"
proof (induction bs)
  case Nil
  then show ?case by simp
next
  case (Cons b bs)
  have rest: "\<And>i j. i < j \<Longrightarrow> j < length bs \<Longrightarrow> set (bs ! i) \<inter> set (bs ! j) = {}"
    using Cons.prems [of "Suc i" "Suc j" for i j] by simp
  have "\<And>y. y \<in> set (concat bs) \<Longrightarrow> y \<notin> set b"
  proof -
    fix y assume "y \<in> set (concat bs)"
    then obtain c where "c \<in> set bs" "y \<in> set c" by auto
    then obtain j where "j < length bs" "y \<in> set (bs ! j)" by (metis in_set_conv_nth)
    with Cons.prems [of 0 "Suc j"] show "y \<notin> set b" by auto
  qed
  then have "filter (\<lambda>y. y \<notin> set b) (concat bs) = concat bs"
    by (simp add: filter_id_conv)
  with Cons.IH [OF rest] show ?case by (simp add: drop_dups_append)
qed

subsection \<open>Columns and rows\<close>

lemma index_of_nth: "distinct cs \<Longrightarrow> i < length cs \<Longrightarrow> index_of (cs ! i) cs = Some i"
proof (induction cs arbitrary: i)
  case Nil
  then show ?case by simp
next
  case (Cons c cs)
  show ?case
  proof (cases i)
    case 0
    then show ?thesis by simp
  next
    case (Suc j)
    with Cons.prems have "cs ! j \<noteq> c" by auto
    with Cons Suc show ?thesis by simp
  qed
qed

lemma index_of_None: "index_of c cs = None \<longleftrightarrow> c \<notin> set cs"
  by (induction cs) auto

lemma index_of_Some: "index_of c cs = Some j \<Longrightarrow> j < length cs \<and> cs ! j = c"
  by (induction cs arbitrary: j) (auto split: if_splits)

lemma index_of_append: "c \<in> set cs \<Longrightarrow> index_of c (cs @ ds) = index_of c cs"
  by (induction cs) auto

lemma lookup_self:
  assumes "distinct cs" and "length r = length cs"
  shows "map (lookup cs r) cs = r"
proof (rule nth_equalityI)
  show "length (map (lookup cs r) cs) = length r" using assms by simp
next
  fix i assume "i < length (map (lookup cs r) cs)"
  then have i: "i < length cs" by simp
  with assms show "map (lookup cs r) cs ! i = r ! i"
    by (simp add: lookup_def index_of_nth cell_at_def)
qed

lemma lookup_prefix:
  assumes "c \<in> set cs" and "length r = length cs"
  shows "lookup (cs @ ds) (r @ m) c = lookup cs r c"
proof -
  from assms(1) obtain j where j: "index_of c cs = Some j"
    by (cases "index_of c cs") (auto simp: index_of_None)
  with index_of_Some [OF j] assms show ?thesis
    by (simp add: lookup_def index_of_append cell_at_def nth_append)
qed

lemma nine_columns:
  "distinct RESULTS_DATA_COLUMNS" "length RESULTS_DATA_COLUMNS = 9"
  "index_of ''filepath'' RESULTS_DATA_COLUMNS = Some 0"
  "index_of ''algorithm'' RESULTS_DATA_COLUMNS = Some 1"
  "index_of ''field_rotation'' RESULTS_DATA_COLUMNS = Some 6"
  "RESULTS_DATA_COLUMNS \<noteq> []"
  by (simp_all add: RESULTS_DATA_COLUMNS_def)

lemma fifteen_columns:
  "index_of ''filepath'' (RESULTS_DATA_COLUMNS @ DATABASE_COLUMNS) = Some 0"
  "index_of ''field_rotation'' (RESULTS_DATA_COLUMNS @ DATABASE_COLUMNS) = Some 6"
  "index_of ''treatment'' (RESULTS_DATA_COLUMNS @ DATABASE_COLUMNS) = Some 9"
  "index_of ''port'' (RESULTS_DATA_COLUMNS @ DATABASE_COLUMNS) = Some 10"
  "distinct (RESULTS_DATA_COLUMNS @ DATABASE_COLUMNS)"
  "length (RESULTS_DATA_COLUMNS @ DATABASE_COLUMNS) = 15"
  by (simp_all add: RESULTS_DATA_COLUMNS_def DATABASE_COLUMNS_def)

lemma concat_frames_same:
  assumes "columns f = cs" and "columns g = cs" and "distinct cs"
      and "\<forall>r \<in> set (rows f). length r = length cs"
      and "\<forall>r \<in> set (rows g). length r = length cs"
  shows "concat_frames f g = \<lparr>columns = cs, rows = rows f @ rows g\<rparr>"
proof -
  have "filter (\<lambda>c. c \<notin> set cs) cs = []" by (simp add: filter_empty_conv)
  moreover have "map (\<lambda>r. map (lookup cs r) cs) (rows f) = rows f"
    using assms(3,4) by (simp add: lookup_self map_idI)
  moreover have "map (\<lambda>r. map (lookup cs r) cs) (rows g) = rows g"
    using assms(3,5) by (simp add: lookup_self map_idI)
  ultimately show ?thesis using assms(1,2) by (simp add: concat_frames_def Let_def)
qed

lemma concat_frames_empty:
  assumes "distinct (columns g)" and "\<forall>r \<in> set (rows g). length r = length (columns g)"
  shows "concat_frames empty_frame g = g"
proof -
  have "map (\<lambda>r. map (lookup (columns g) r) (columns g)) (rows g) = rows g"
    using assms by (simp add: lookup_self map_idI)
  then show ?thesis by (simp add: concat_frames_def empty_frame_def Let_def)
qed

lemma drop_dups_const:
  assumes "xs \<noteq> []" and "\<forall>x \<in> set xs. x = v"
  shows "drop_dups xs = [v]"
proof -
  from assms obtain ys where xs: "xs = v # ys" by (cases xs) auto
  with assms(2) have "filter (\<lambda>y. y \<noteq> v) ys = []" by (auto simp: filter_empty_conv)
  with xs show ?thesis by simp
qed

lemma merge_database_columns:
  "columns f = RESULTS_DATA_COLUMNS \<Longrightarrow>
   \<exists>joined. merge_database f db =
     Inr \<lparr>columns = RESULTS_DATA_COLUMNS @ DATABASE_COLUMNS, rows = joined\<rparr>"
  by (simp add: merge_database_def nine_columns)

lemma concat_map_concat:
  "concat (map (\<lambda>k. concat (map h (g k))) ks) = concat (map h (concat (map g ks)))"
  by (induction ks) simp_all

lemma merge_database_nine:
  assumes "columns f = RESULTS_DATA_COLUMNS"
      and "grouped_by (\<lambda>r. cell_at r 0) (rows f)"
  shows "merge_database f db =
     Inr \<lparr>columns = RESULTS_DATA_COLUMNS @ DATABASE_COLUMNS,
          rows = concat (map (\<lambda>r. map (\<lambda>d. r @ database_cells d)
                                 (filter (\<lambda>d. cell_at r 0 = Str (filepath d)) db))
                             (rows f))\<rparr>"
proof -
  let ?h = "\<lambda>r. map (\<lambda>d. r @ database_cells d) (filter (\<lambda>d. cell_at r 0 = Str (filepath d)) db)"
  let ?keys = "drop_dups (map (\<lambda>r. cell_at r 0) (rows f))"
  have "concat (map (\<lambda>key.
           concat (map (\<lambda>r. map (\<lambda>d. r @ database_cells d)
                                 (filter (\<lambda>d. key = Str (filepath d)) db))
                       (filter (\<lambda>r. cell_at r 0 = key) (rows f)))) ?keys)
        = concat (map (\<lambda>key. concat (map ?h (filter (\<lambda>r. cell_at r 0 = key) (rows f)))) ?keys)"
    by (intro arg_cong [where f = concat] map_cong refl) simp
  also have "\<dots> = concat (map ?h (concat (map (\<lambda>key. filter (\<lambda>r. cell_at r 0 = key) (rows f)) ?keys)))"
    by (rule concat_map_concat)
  also have "\<dots> = concat (map ?h (rows f))"
    using assms(2) by (simp add: grouped_by_def)
  finally show ?thesis using assms(1) by (simp add: merge_database_def nine_columns)
qed

lemma grouped_by_const:
  assumes "\<forall>x \<in> set xs. key x = k"
  shows "grouped_by key xs"
proof (cases xs)
  case Nil
  then show ?thesis by (simp add: grouped_by_def)
next
  case (Cons y ys)
  with assms have "drop_dups (map key xs) = [k]"
    by (intro drop_dups_const) auto
  moreover from assms have "filter (\<lambda>x. key x = k) xs = xs" by (simp add: filter_id_conv)
  ultimately show ?thesis by (simp add: grouped_by_def)
qed

lemma grouped_by_concat:
  assumes "distinct (map kf ps)"
      and "\<forall>p \<in> set ps. \<forall>x \<in> set (g p). key x = kf p"
  shows "grouped_by key (concat (map g ps))"
  using assms
proof (induction ps)
  case Nil
  then show ?case by (simp add: grouped_by_def)
next
  case (Cons p ps)
  let ?rest = "concat (map g ps)"
  from Cons.prems have here: "\<forall>x \<in> set (g p). key x = kf p" by simp
  from Cons.prems have IH: "grouped_by key ?rest" by (intro Cons.IH) simp_all
  have there: "\<forall>x \<in> set ?rest. key x \<noteq> kf p"
  proof
    fix x assume "x \<in> set ?rest"
    then obtain q where q: "q \<in> set ps" "x \<in> set (g q)" by auto
    with Cons.prems(2) have "key x = kf q" by simp
    moreover from Cons.prems(1) q(1) have "kf q \<noteq> kf p" by (metis distinct.simps(2) imageI list.simps(9) set_map)
    ultimately show "key x \<noteq> kf p" by simp
  qed
  show ?case
  proof (cases "g p")
    case Nil
    with IH show ?thesis by simp
  next
    case (Cons y ys)
    have keys: "drop_dups (map key (g p @ ?rest)) = kf p # drop_dups (map key ?rest)"
    proof -
      from here Cons have "map key (g p @ ?rest) = kf p # (map key ys @ map key ?rest)" by simp
      moreover from here Cons have "filter (\<lambda>k. k \<noteq> kf p) (map key ys) = []"
        by (auto simp: filter_empty_conv)
      moreover from there have "filter (\<lambda>k. k \<noteq> kf p) (map key ?rest) = map key ?rest"
        by (simp add: filter_id_conv)
      ultimately show ?thesis by simp
    qed
    have first: "filter (\<lambda>x. key x = kf p) (g p @ ?rest) = g p"
      using here there by (simp add: filter_id_conv filter_empty_conv)
    have others: "map (\<lambda>k. filter (\<lambda>x. key x = k) (g p @ ?rest)) (drop_dups (map key ?rest))
                  = map (\<lambda>k. filter (\<lambda>x. key x = k) ?rest) (drop_dups (map key ?rest))"
    proof (intro map_cong refl)
      fix k assume "k \<in> set (drop_dups (map key ?rest))"
      then have "k \<in> key ` set ?rest" by (simp add: set_drop_dups)
      with there have "k \<noteq> kf p" by auto
      with here have "filter (\<lambda>x. key x = k) (g p) = []" by (auto simp: filter_empty_conv)
      then show "filter (\<lambda>x. key x = k) (g p @ ?rest) = filter (\<lambda>x. key x = k) ?rest" by simp
    qed
    from IH have "concat (map (\<lambda>k. filter (\<lambda>x. key x = k) ?rest) (drop_dups (map key ?rest))) = ?rest"
      by (simp add: grouped_by_def)
    then have "concat (map (\<lambda>k. filter (\<lambda>x. key x = k) (g p @ ?rest))
                 (drop_dups (map key (g p @ ?rest)))) = g p @ ?rest"
      by (simp only: keys list.map concat.simps first others)
    then show ?thesis by (simp only: grouped_by_def list.map concat.simps)
  qed
qed

lemma filter_unique:
  "distinct (map f xs) \<Longrightarrow> x \<in> set xs \<Longrightarrow> filter (\<lambda>d. f x = f d) xs = [x]"
proof (induction xs)
  case Nil
  then show ?case by simp
next
  case (Cons y ys)
  show ?case
  proof (cases "x = y")
    case True
    with Cons.prems have "filter (\<lambda>d. f y = f d) ys = []"
      by (auto simp: filter_empty_conv)
    with True show ?thesis by simp
  next
    case False
    with Cons.prems have x: "x \<in> set ys" by auto
    from Cons.prems(1) have "f y \<notin> f ` set ys" by simp
    with x have "f x \<noteq> f y" by (metis imageI)
    with Cons x show ?thesis by simp
  qed
qed

lemma filter_concat_unique:
  assumes "distinct ks" and "k \<in> set ks" and "\<forall>r \<in> set (g k). P r"
      and "\<forall>k' \<in> set ks. k' \<noteq> k \<longrightarrow> (\<forall>r \<in> set (g k'). \<not> P r)"
  shows "filter P (concat (map g ks)) = g k"
  using assms
proof (induction ks)
  case Nil
  then show ?case by simp
next
  case (Cons a ks)
  show ?case
  proof (cases "a = k")
    case True
    with Cons.prems have "\<forall>k' \<in> set ks. \<forall>r \<in> set (g k'). \<not> P r" by auto
    then have "filter P (concat (map g ks)) = []" by (auto simp: filter_empty_conv)
    moreover from True Cons.prems(3) have "filter P (g a) = g k" by (simp add: filter_id_conv)
    ultimately show ?thesis by simp
  next
    case False
    with Cons.prems have "filter P (g a) = []" by (auto simp: filter_empty_conv)
    moreover from False Cons.prems have "filter P (concat (map g ks)) = g k"
      by (intro Cons.IH) auto
    ultimately show ?thesis by simp
  qed
qed

lemma select_nine_of_joined:
  assumes "length b = 9"
  shows "map (lookup (RESULTS_DATA_COLUMNS @ DATABASE_COLUMNS) (b @ m)) RESULTS_DATA_COLUMNS = b"
proof -
  have "map (lookup (RESULTS_DATA_COLUMNS @ DATABASE_COLUMNS) (b @ m)) RESULTS_DATA_COLUMNS
        = map (lookup RESULTS_DATA_COLUMNS b) RESULTS_DATA_COLUMNS"
    using assms by (intro map_cong refl lookup_prefix) (simp_all add: nine_columns)
  also have "\<dots> = b" using assms by (intro lookup_self) (simp_all add: nine_columns)
  finally show ?thesis .
qed

subsection \<open>The results of one image\<close>

lemma results_data_eq:
  "results_data env path algs bb edges pen =
     (if list_all (\<lambda>a. ALGORITHM_FUNCTION_MAP a \<noteq> None) algs
      then (map (\<lambda>a. Invoked a (get_wlutz_input_parameters env path bb edges pen)) algs,
            Inr (map (computed_row env path bb edges pen) algs))
      else (map (\<lambda>a. Invoked a (get_wlutz_input_parameters env path bb edges pen))
              (takeWhile (\<lambda>a. ALGORITHM_FUNCTION_MAP a \<noteq> None) algs),
            Inl KeyError))"
  by (induction algs)
     (auto simp: calculate_wlutz_dispatch computed_row_def split: option.splits)

lemma get_results_for_image_eq:
  "get_results_for_image env path algs bb edges pen =
     (if \<not> list_all (\<lambda>a. ALGORITHM_FUNCTION_MAP a \<noteq> None) algs
      then (map (\<lambda>a. Invoked a (get_wlutz_input_parameters env path bb edges pen))
              (takeWhile (\<lambda>a. ALGORITHM_FUNCTION_MAP a \<noteq> None) algs),
            Inl KeyError)
      else if algs = [] then ([], Inl (ValueError ''Unexpected columns''))
      else (map (\<lambda>a. Invoked a (get_wlutz_input_parameters env path bb edges pen)) algs,
            Inr \<lparr>columns = RESULTS_DATA_COLUMNS,
                 rows = map (computed_row env path bb edges pen) algs\<rparr>))"
  by (simp add: get_results_for_image_def results_data_eq from_dict_def empty_frame_def
      RESULTS_DATA_COLUMNS_def Let_def)

lemma computed_row_shape:
  assumes "ALGORITHM_FUNCTION_MAP a \<noteq> None"
  shows "length (computed_row env path bb edges pen a) = 9"
    and "computed_row env path bb edges pen a ! 0 = Str path"
    and "computed_row env path bb edges pen a ! 1 = Str a"
    and "\<exists>x. computed_row env path bb edges pen a ! 6 = Flt x"
  using assms by (auto simp: computed_row_def result_row_def split: option.splits prod.splits)

subsection \<open>What a run computes\<close>

lemma results_for_position_events:
  assumes "results_for_position env db previously algs bb pen i path = (ev, r)"
  shows "\<forall>e \<in> set ev. \<exists>a \<in> set algs. i < length db \<and>
           e = Invoked a (get_wlutz_input_parameters env path bb
                  (width (db ! i), length_col (db ! i)) pen)"
proof -
  have compute: "\<forall>e \<in> set ev'. \<exists>a \<in> set algs. i < length db \<and>
           e = Invoked a (get_wlutz_input_parameters env path bb
                  (width (db ! i), length_col (db ! i)) pen)"
    if "(case iloc db i of Inl e \<Rightarrow> ([], Inl e)
         | Inr row \<Rightarrow> get_results_for_image env path algs bb (width row, length_col row) pen)
        = (ev', r')" for ev' r'
  proof (cases "i < length db")
    case False
    with that show ?thesis by (auto simp: iloc_def)
  next
    case True
    with that have "get_results_for_image env path algs bb (width (db ! i), length_col (db ! i)) pen
                    = (ev', r')"
      by (simp add: iloc_def)
    moreover have "set (takeWhile (\<lambda>a. ALGORITHM_FUNCTION_MAP a \<noteq> None) algs) \<subseteq> set algs"
      by (auto dest: set_takeWhileD)
    ultimately have "\<forall>e \<in> set ev'. \<exists>a \<in> set algs.
           e = Invoked a (get_wlutz_input_parameters env path bb
                  (width (db ! i), length_col (db ! i)) pen)"
      by (fastforce simp: get_results_for_image_eq split: if_splits)
    with True show ?thesis by auto
  qed
  show ?thesis
  proof (cases previously)
    case None
    with assms compute show ?thesis by (simp add: results_for_position_def)
  next
    case (Some prev)
    with assms compute show ?thesis
      by (auto simp: results_for_position_def Let_def split: sum.splits if_splits)
  qed
qed

lemma run_loop_events:
  "run_loop env db previously algs bb pen ips collated = (ev, r) \<Longrightarrow>
   \<forall>e \<in> set ev. \<exists>ip \<in> set ips. \<exists>a \<in> set algs. fst ip < length db \<and>
      e = Invoked a (get_wlutz_input_parameters env (snd ip) bb
             (width (db ! fst ip), length_col (db ! fst ip)) pen)"
proof (induction ips arbitrary: collated ev r)
  case Nil
  then show ?case by simp
next
  case (Cons ip ips)
  obtain i path where ip: "ip = (i, path)" by (cases ip)
  obtain ev1 r1 where p: "results_for_position env db previously algs bb pen i path = (ev1, r1)"
    by (cases "results_for_position env db previously algs bb pen i path")
  note here = results_for_position_events [OF p]
  show ?case
  proof (cases r1)
    case (Inl e)
    with Cons.prems ip p have "ev = ev1" by simp
    with here ip show ?thesis by auto
  next
    case (Inr results)
    show ?thesis
    proof (cases "working_table_keys results db")
      case (Inl e)
      with Cons.prems ip p Inr have "ev = ev1" by simp
      with here ip show ?thesis by auto
    next
      case (Inr keys)
      obtain ev2 r2 where
        rest: "run_loop env db previously algs bb pen ips (concat_frames collated results) = (ev2, r2)"
        by (cases "run_loop env db previously algs bb pen ips (concat_frames collated results)")
      with Cons.prems ip p \<open>r1 = Inr results\<close> Inr have ev: "ev = ev1 @ ev2" by simp
      from Cons.IH [OF rest] here ip show ?thesis unfolding ev by auto
    qed
  qed
qed

lemma enumerate_rev_filepath:
  assumes "ip \<in> set (enumerate 0 (rev (map filepath db)))"
  shows "fst ip < length db \<and> snd ip = filepath (db ! (length db - 1 - fst ip))"
proof -
  from assms have i: "fst ip < length db" "snd ip = rev (map filepath db) ! fst ip"
    by (auto simp: in_set_enumerate_eq)
  then have "snd ip = filepath (db ! (length db - 1 - fst ip))"
    by (simp add: rev_nth)
  with i show ?thesis by simp
qed

lemma results_for_position_None:
  assumes "results_for_position env db None algs bb pen i path = (ev, Inr results)"
  shows "i < length db" and "algs \<noteq> []" and "list_all (\<lambda>a. ALGORITHM_FUNCTION_MAP a \<noteq> None) algs"
    and "results = \<lparr>columns = RESULTS_DATA_COLUMNS,
                     rows = map (computed_row env path bb (width (db ! i), length_col (db ! i)) pen) algs\<rparr>"
    and "ev = map (\<lambda>a. Invoked a (get_wlutz_input_parameters env path bb
                          (width (db ! i), length_col (db ! i)) pen)) algs"
proof -
  from assms show i: "i < length db"
    by (auto simp: results_for_position_def iloc_def split: if_splits)
  with assms have g: "get_results_for_image env path algs bb (width (db ! i), length_col (db ! i)) pen
                      = (ev, Inr results)"
    by (simp add: results_for_position_def iloc_def)
  then show "algs \<noteq> []" and "list_all (\<lambda>a. ALGORITHM_FUNCTION_MAP a \<noteq> None) algs"
    and "results = \<lparr>columns = RESULTS_DATA_COLUMNS,
                     rows = map (computed_row env path bb (width (db ! i), length_col (db ! i)) pen) algs\<rparr>"
    and "ev = map (\<lambda>a. Invoked a (get_wlutz_input_parameters env path bb
                          (width (db ! i), length_col (db ! i)) pen)) algs"
    by (auto simp: get_results_for_image_eq split: if_splits)
qed

lemma computed_rows_length:
  "list_all (\<lambda>a. ALGORITHM_FUNCTION_MAP a \<noteq> None) algs \<Longrightarrow>
   \<forall>r \<in> set (map (computed_row env path bb edges pen) algs). length r = 9"
  by (auto simp: list_all_iff computed_row_shape(1))

lemma run_loop_None:
  assumes "run_loop env db None algs bb pen ips collated = (ev, Inr out)"
      and "ips \<noteq> []"
      and "collated = empty_frame \<or>
           columns collated = RESULTS_DATA_COLUMNS \<and> (\<forall>r \<in> set (rows collated). length r = 9)"
  shows "out = \<lparr>columns = RESULTS_DATA_COLUMNS,
                 rows = rows collated @
                   concat (map (\<lambda>ip. map (computed_row env (snd ip) bb
                                            (width (db ! fst ip), length_col (db ! fst ip)) pen) algs)
                               ips)\<rparr>
         \<and> ev = concat (map (\<lambda>ip. map (\<lambda>a. Invoked a (get_wlutz_input_parameters env (snd ip) bb
                                            (width (db ! fst ip), length_col (db ! fst ip)) pen)) algs)
                             ips)
         \<and> algs \<noteq> [] \<and> list_all (\<lambda>a. ALGORITHM_FUNCTION_MAP a \<noteq> None) algs
         \<and> (\<forall>ip \<in> set ips. fst ip < length db)"
  using assms
proof (induction ips arbitrary: collated ev)
  case Nil
  then show ?case by simp
next
  case (Cons ip ips)
  obtain i path where ip: "ip = (i, path)" by (cases ip)
  from Cons.prems(1) ip obtain ev1 results keys ev2 where
    p: "results_for_position env db None algs bb pen i path = (ev1, Inr results)" and
    k: "working_table_keys results db = Inr keys" and
    rest: "run_loop env db None algs bb pen ips (concat_frames collated results) = (ev2, Inr out)" and
    ev: "ev = ev1 @ ev2"
    by (auto split: prod.splits sum.splits)
  note r = results_for_position_None [OF p]
  let ?block = "map (computed_row env path bb (width (db ! i), length_col (db ! i)) pen) algs"
  have wf: "\<forall>r \<in> set ?block. length r = 9" using r(3) by (rule computed_rows_length)
  have next_frame: "concat_frames collated results =
          \<lparr>columns = RESULTS_DATA_COLUMNS, rows = rows collated @ ?block\<rparr>"
  proof (cases "collated = empty_frame")
    case True
    have "concat_frames empty_frame results = results"
      using wf by (intro concat_frames_empty) (simp_all add: r(4) nine_columns)
    with True show ?thesis by (simp add: r(4) empty_frame_def)
  next
    case False
    with Cons.prems(3) have c: "columns collated = RESULTS_DATA_COLUMNS"
      "\<forall>r \<in> set (rows collated). length r = 9" by auto
    have "concat_frames collated results =
            \<lparr>columns = RESULTS_DATA_COLUMNS, rows = rows collated @ rows results\<rparr>"
      using c wf by (intro concat_frames_same) (simp_all add: r(4) nine_columns)
    then show ?thesis by (simp add: r(4))
  qed
  have rows_ok: "\<forall>r \<in> set (rows collated). length r = 9"
    using Cons.prems(3) by (auto simp: empty_frame_def)
  have good: "columns (concat_frames collated results) = RESULTS_DATA_COLUMNS
              \<and> (\<forall>r \<in> set (rows (concat_frames collated results)). length r = 9)"
    unfolding next_frame using rows_ok wf by auto
  show ?case
  proof (cases "ips = []")
    case True
    with rest have "out = concat_frames collated results" "ev2 = []" by simp_all
    with True ip r ev next_frame show ?thesis by simp
  next
    case False
    from Cons.IH [OF rest False] good
    have "out = \<lparr>columns = RESULTS_DATA_COLUMNS,
                 rows = rows (concat_frames collated results) @
                   concat (map (\<lambda>ip. map (computed_row env (snd ip) bb
                                            (width (db ! fst ip), length_col (db ! fst ip)) pen) algs)
                               ips)\<rparr>"
      and "ev2 = concat (map (\<lambda>ip. map (\<lambda>a. Invoked a (get_wlutz_input_parameters env (snd ip) bb
                                            (width (db ! fst ip), length_col (db ! fst ip)) pen)) algs)
                             ips)"
      and "\<forall>ip \<in> set ips. fst ip < length db"
      by blast+
    with ip r ev next_frame show ?thesis by simp
  qed
qed

lemma results_for_position_columns:
  assumes "results_for_position env db previously algs bb pen i path = (ev, Inr results)"
  shows "columns results = RESULTS_DATA_COLUMNS"
proof -
  have compute: "columns results = RESULTS_DATA_COLUMNS"
    if "(case iloc db i of Inl e \<Rightarrow> ([], Inl e)
         | Inr row \<Rightarrow> get_results_for_image env path algs bb (width row, length_col row) pen)
        = (ev, Inr results)"
    using that by (auto simp: get_results_for_image_eq split: sum.splits if_splits)
  show ?thesis
  proof (cases previously)
    case None
    with assms compute show ?thesis by (simp add: results_for_position_def)
  next
    case (Some prev)
    with assms compute show ?thesis
      by (auto simp: results_for_position_def select_columns_def split: sum.splits if_splits)
  qed
qed

lemma concat_frames_columns:
  "columns g = cs \<Longrightarrow> f = empty_frame \<or> columns f = cs \<Longrightarrow> columns (concat_frames f g) = cs"
  by (auto simp: concat_frames_def empty_frame_def Let_def filter_empty_conv)

lemma run_loop_columns:
  assumes "run_loop env db previously algs bb pen ips collated = (ev, Inr out)"
      and "ips \<noteq> []"
      and "collated = empty_frame \<or> columns collated = RESULTS_DATA_COLUMNS"
  shows "columns out = RESULTS_DATA_COLUMNS"
  using assms
proof (induction ips arbitrary: collated ev)
  case Nil
  then show ?case by simp
next
  case (Cons ip ips)
  obtain i path where ip: "ip = (i, path)" by (cases ip)
  from Cons.prems(1) ip obtain ev1 results ev2 where
    p: "results_for_position env db previously algs bb pen i path = (ev1, Inr results)" and
    rest: "run_loop env db previously algs bb pen ips (concat_frames collated results) = (ev2, Inr out)"
    by (auto split: prod.splits sum.splits)
  from results_for_position_columns [OF p] Cons.prems(3)
  have c: "columns (concat_frames collated results) = RESULTS_DATA_COLUMNS"
    by (intro concat_frames_columns) auto
  show ?case
  proof (cases "ips = []")
    case True
    with rest c show ?thesis by simp
  next
    case False
    from Cons.IH [OF rest False] c show ?thesis by simp
  qed
qed

lemma run_calculation_Inr:
  assumes "run_calculation env db previously algs bb pen = (ev, Inr written)"
  shows "\<exists>collated contextualised.
           run_loop env db previously algs bb pen (enumerate 0 (rev (map filepath db))) empty_frame
             = (ev, Inr collated)
         \<and> db \<noteq> [] \<and> columns collated = RESULTS_DATA_COLUMNS
         \<and> merge_database collated db = Inr contextualised
         \<and> columns contextualised = RESULTS_DATA_COLUMNS @ DATABASE_COLUMNS
         \<and> written = drop_duplicates
              (case previously of None \<Rightarrow> contextualised
               | Some prev \<Rightarrow> concat_frames contextualised prev)"
proof -
  let ?ips = "enumerate 0 (rev (map filepath db))"
  from assms obtain collated contextualised where
    loop: "run_loop env db previously algs bb pen ?ips empty_frame = (ev, Inr collated)" and
    m: "merge_database collated db = Inr contextualised" and
    w: "written = drop_duplicates
              (case previously of None \<Rightarrow> contextualised
               | Some prev \<Rightarrow> concat_frames contextualised prev)"
    by (auto simp: run_calculation_def split: prod.splits sum.splits)
  have ne: "db \<noteq> []"
  proof
    assume "db = []"
    with loop have "collated = empty_frame" by simp
    with m show False by (simp add: merge_database_def empty_frame_def)
  qed
  then have "?ips \<noteq> []" by (simp add: enumerate_eq_zip)
  from run_loop_columns [OF loop this] have c: "columns collated = RESULTS_DATA_COLUMNS" by simp
  with m merge_database_columns [of collated db]
  have "columns contextualised = RESULTS_DATA_COLUMNS @ DATABASE_COLUMNS"
    by auto
  with loop ne c m w show ?thesis by blast
qed

lemma get_results_for_image_columns_error:
  "get_results_for_image env path algs bb edges pen = (ev, Inl (ValueError ''Unexpected columns''))
   \<Longrightarrow> algs = []"
  by (auto simp: get_results_for_image_eq split: if_splits)

lemma merge_database_error: "merge_database f db = Inl e \<Longrightarrow> e = KeyError"
  by (auto simp: merge_database_def split: option.splits)

lemma get_column_error: "get_column f c = Inl e \<Longrightarrow> e = KeyError"
  by (auto simp: get_column_def split: option.splits)

lemma collapse_column_error:
  "collapse_column_to_single_value f c = Inl e \<Longrightarrow>
   e = KeyError \<or> e = ValueError (''Expected exactly one '' @ c @ '' per image'')"
  by (auto simp: collapse_column_to_single_value_def dest: get_column_error
      split: sum.splits list.splits)

lemma working_table_keys_error:
  "working_table_keys results db \<noteq> Inl (ValueError ''Unexpected columns'')"
proof
  assume a: "working_table_keys results db = Inl (ValueError ''Unexpected columns'')"
  show False
  proof (cases "merge_database results db")
    case (Inl e)
    with a merge_database_error [OF Inl] show False by (simp add: working_table_keys_def)
  next
    case m: (Inr working_table)
    show False
    proof (cases "get_column working_table ''field_rotation''")
      case (Inl e)
      with a m get_column_error [OF Inl] show False by (simp add: working_table_keys_def)
    next
      case r: (Inr rotations)
      show False
      proof (cases "collapse_column_to_single_value working_table ''treatment''")
        case (Inl e)
        with a m r collapse_column_error [OF Inl] show False
          by (auto simp: working_table_keys_def split: if_splits)
      next
        case t: (Inr tr)
        show False
        proof (cases "collapse_column_to_single_value working_table ''port''")
          case (Inl e)
          with a m r t collapse_column_error [OF Inl] show False
            by (auto simp: working_table_keys_def split: if_splits)
        next
          case (Inr po)
          with a m r t show False by (auto simp: working_table_keys_def split: if_splits)
        qed
      qed
    qed
  qed
qed

lemma results_for_position_Some_error:
  "results_for_position env db (Some prev) algs bb pen i path
     \<noteq> (ev, Inl (ValueError ''Unexpected columns''))"
proof
  assume a: "results_for_position env db (Some prev) algs bb pen i path
               = (ev, Inl (ValueError ''Unexpected columns''))"
  then obtain located results present where
    "loc_filepath prev path = Inr located"
    "select_columns located RESULTS_DATA_COLUMNS = Inr results"
    "get_column results ''algorithm'' = Inr present"
    and n: "\<not> list_all (\<lambda>a. Str a \<in> set present) algs"
    and c: "(case iloc db i of Inl e \<Rightarrow> ([], Inl e)
             | Inr row \<Rightarrow> get_results_for_image env path algs bb (width row, length_col row) pen)
            = (ev, Inl (ValueError ''Unexpected columns''))"
    by (auto simp: results_for_position_def select_columns_def loc_filepath_def get_column_def
        split: sum.splits option.splits if_splits)
  from c have "algs = []"
    by (auto simp: iloc_def dest: get_results_for_image_columns_error split: if_splits)
  with n show False by simp
qed

lemma run_loop_Some_error:
  "run_loop env db (Some prev) algs bb pen ips collated
     \<noteq> (ev, Inl (ValueError ''Unexpected columns''))"
proof (induction ips arbitrary: collated ev)
  case Nil
  then show ?case by simp
next
  case (Cons ip ips)
  obtain i path where ip: "ip = (i, path)" by (cases ip)
  show ?case
  proof
    assume a: "run_loop env db (Some prev) algs bb pen (ip # ips) collated
                 = (ev, Inl (ValueError ''Unexpected columns''))"
    obtain ev1 r1 where p: "results_for_position env db (Some prev) algs bb pen i path = (ev1, r1)"
      by (cases "results_for_position env db (Some prev) algs bb pen i path")
    show False
    proof (cases r1)
      case (Inl e)
      with a ip p have "results_for_position env db (Some prev) algs bb pen i path
                          = (ev, Inl (ValueError ''Unexpected columns''))"
        by simp
      with results_for_position_Some_error show False by blast
    next
      case (Inr results)
      show False
      proof (cases "working_table_keys results db")
        case (Inl e)
        with a ip p Inr have "working_table_keys results db = Inl (ValueError ''Unexpected columns'')"
          by simp
        with working_table_keys_error show False by blast
      next
        case (Inr keys)
        with a ip p \<open>r1 = Inr results\<close> obtain ev2 where
          "run_loop env db (Some prev) algs bb pen ips (concat_frames collated results)
             = (ev2, Inl (ValueError ''Unexpected columns''))"
          by (auto split: prod.splits)
        with Cons.IH show False by blast
      qed
    qed
  qed
qed

lemma run_calculation_distinct:
  assumes "run_calculation env db previously algs bb pen = (ev, Inr written)"
  shows "distinct (rows written)"
proof -
  from run_calculation_Inr [OF assms] obtain contextualised where
    "written = drop_duplicates
              (case previously of None \<Rightarrow> contextualised
               | Some prev \<Rightarrow> concat_frames contextualised prev)"
    by blast
  then show ?thesis by (simp add: drop_duplicates_def)
qed

subsection \<open>The claims about the batch runner\<close>

lemma map_enumerate:
  "map f (enumerate 0 xs) = map (\<lambda>i. f (i, xs ! i)) [0..<length xs]"
  by (rule nth_equalityI) (simp_all add: nth_enumerate_eq)

lemma two_images_run:
  "run_calculation env_found two_images None [''PyMedPhys''] (Num 8) (Num 2) =
     ([Invoked ''PyMedPhys''
         \<lparr>bb_diameter = Num 8, edge_lengths = (Num 10, Num 10), penumbra = Num 2,
          field = ''b.jpg'', pymedphys_field_centre = (Num 1, Num 2), field_rotation = Num 0\<rparr>,
       Invoked ''PyMedPhys''
         \<lparr>bb_diameter = Num 8, edge_lengths = (Num 20, Num 5), penumbra = Num 2,
          field = ''a.jpg'', pymedphys_field_centre = (Num 1, Num 2), field_rotation = Num 0\<rparr>],
      Inr two_images_written)"
  by code_simp

text \<open>
  Claim C5: at loop position \<open>i\<close> the runner takes the image path from the reversed
  filepath column, so from the dataset row \<open>n - 1 - i\<close>, and the width and length from
  the dataset row \<open>i\<close>. Every detection of a run is therefore called for the image of row
  \<open>n - 1 - i\<close> with the edge lengths of row \<open>i\<close>, for some position \<open>i\<close>; a run without a
  persisted table that writes its results has made exactly these calls, for every
  position in turn and every selected algorithm.
\<close>

theorem edge_lengths_of_forward_row:
  assumes "run_calculation env db previously algs bb pen = (ev, r)"
  shows "(\<forall>e \<in> set ev. \<exists>i < length db. \<exists>a \<in> set algs.
            e = Invoked a (get_wlutz_input_parameters env (filepath (db ! (length db - 1 - i))) bb
                   (width (db ! i), length_col (db ! i)) pen))
       \<and> (previously = None \<and> (\<exists>written. r = Inr written) \<longrightarrow>
            ev = concat (map (\<lambda>i. map (\<lambda>a. Invoked a
                      (get_wlutz_input_parameters env (filepath (db ! (length db - 1 - i))) bb
                         (width (db ! i), length_col (db ! i)) pen)) algs)
                    [0..<length db]))
       \<and> edge_lengths (get_wlutz_input_parameters env path bb edges pen) = edges
       \<and> field (get_wlutz_input_parameters env path bb edges pen) = path"
proof -
  let ?ips = "enumerate 0 (rev (map filepath db))"
  obtain ev0 r0 where loop: "run_loop env db previously algs bb pen ?ips empty_frame = (ev0, r0)"
    by (cases "run_loop env db previously algs bb pen ?ips empty_frame")
  with assms have ev: "ev = ev0"
    by (auto simp: run_calculation_def split: sum.splits)
  have 1: "\<forall>e \<in> set ev. \<exists>i < length db. \<exists>a \<in> set algs.
            e = Invoked a (get_wlutz_input_parameters env (filepath (db ! (length db - 1 - i))) bb
                   (width (db ! i), length_col (db ! i)) pen)"
  proof
    fix e assume "e \<in> set ev"
    with run_loop_events [OF loop] ev obtain ip a where
      ip: "ip \<in> set ?ips" and a: "a \<in> set algs" and
      e: "e = Invoked a (get_wlutz_input_parameters env (snd ip) bb
             (width (db ! fst ip), length_col (db ! fst ip)) pen)"
      by blast
    from enumerate_rev_filepath [OF ip] e a
    show "\<exists>i < length db. \<exists>a \<in> set algs.
            e = Invoked a (get_wlutz_input_parameters env (filepath (db ! (length db - 1 - i))) bb
                   (width (db ! i), length_col (db ! i)) pen)"
      by auto
  qed
  have 2: "ev = concat (map (\<lambda>i. map (\<lambda>a. Invoked a
                      (get_wlutz_input_parameters env (filepath (db ! (length db - 1 - i))) bb
                         (width (db ! i), length_col (db ! i)) pen)) algs)
                    [0..<length db])"
    if none: "previously = None" and written: "r = Inr written" for written
  proof -
    from assms written loop obtain collated where r0: "r0 = Inr collated" and
      m: "merge_database collated db \<noteq> Inl KeyError"
      by (auto simp: run_calculation_def split: sum.splits)
    have ne: "?ips \<noteq> []"
    proof
      assume "?ips = []"
      with loop r0 have "collated = empty_frame" by simp
      with m show False by (simp add: merge_database_def empty_frame_def)
    qed
    from loop none r0 have "run_loop env db None algs bb pen ?ips empty_frame = (ev0, Inr collated)"
      by simp
    from run_loop_None [OF this ne] have
      "ev0 = concat (map (\<lambda>ip. map (\<lambda>a. Invoked a (get_wlutz_input_parameters env (snd ip) bb
                                            (width (db ! fst ip), length_col (db ! fst ip)) pen)) algs)
                             ?ips)"
      by simp
    also have "\<dots> = concat (map (\<lambda>i. map (\<lambda>a. Invoked a
                      (get_wlutz_input_parameters env (rev (map filepath db) ! i) bb
                         (width (db ! i), length_col (db ! i)) pen)) algs)
                    [0..<length db])"
      by (simp add: map_enumerate)
    also have "\<dots> = concat (map (\<lambda>i. map (\<lambda>a. Invoked a
                      (get_wlutz_input_parameters env (filepath (db ! (length db - 1 - i))) bb
                         (width (db ! i), length_col (db ! i)) pen)) algs)
                    [0..<length db])"
      by (intro arg_cong [where f = concat] map_cong) (simp_all add: rev_nth)
    finally show ?thesis using ev by simp
  qed
  have 3: "edge_lengths (get_wlutz_input_parameters env path bb edges pen) = edges
       \<and> field (get_wlutz_input_parameters env path bb edges pen) = path"
    by (simp add: get_wlutz_input_parameters_def split: prod.splits)
  from 1 2 3 show ?thesis by blast
qed

theorem edge_lengths_of_forward_row_witness:
  "fst (run_calculation env_found two_images None [''PyMedPhys''] (Num 8) (Num 2)) =
     [Invoked ''PyMedPhys''
        (get_wlutz_input_parameters env_found ''b.jpg'' (Num 8) (Num 10, Num 10) (Num 2)),
      Invoked ''PyMedPhys''
        (get_wlutz_input_parameters env_found ''a.jpg'' (Num 8) (Num 20, Num 5) (Num 2))]
   \<and> (width (two_images ! 1), length_col (two_images ! 1)) = (Num 20, Num 5)
   \<and> filepath (two_images ! 1) = ''b.jpg''"
proof -
  have l: "[0..<length two_images] = [0, 1]" by (simp add: two_images_def upt_conv_Cons)
  from edge_lengths_of_forward_row [OF two_images_run, of "''a.jpg''" "(Num 10, Num 10)"]
  have "fst (run_calculation env_found two_images None [''PyMedPhys''] (Num 8) (Num 2)) =
          concat (map (\<lambda>i. map (\<lambda>a. Invoked a
                      (get_wlutz_input_parameters env_found
                         (filepath (two_images ! (length two_images - 1 - i))) (Num 8)
                         (width (two_images ! i), length_col (two_images ! i)) (Num 2)))
                      [''PyMedPhys''])
                    [0..<length two_images])"
    by (simp add: two_images_run)
  then show ?thesis unfolding l by (simp add: two_images_def)
qed

text \<open>
  Claim C2, as stated, says that when some selected algorithm has no persisted row for
  the image, detection is invoked for the missing algorithms only. The persisted table
  of the example has a PyMedPhys row for the image and no PyLinac row; with both
  algorithms selected, PyMedPhys is invoked again.
\<close>

theorem recomputes_present_algorithm_counterexample:
  "result_keys persisted_earlier = [(Str ''a.jpg'', Str ''PyMedPhys'')]
   \<and> fst (results_for_position env_found one_image (Some persisted_earlier)
             [''PyMedPhys'', ''PyLinac''] (Num 8) (Num 2) 0 ''a.jpg'') =
       [Invoked ''PyMedPhys''
          \<lparr>bb_diameter = Num 8, edge_lengths = (Num 10, Num 10), penumbra = Num 2,
           field = ''a.jpg'', pymedphys_field_centre = (Num 1, Num 2), field_rotation = Num 0\<rparr>,
        Invoked ''PyLinac''
          \<lparr>bb_diameter = Num 8, edge_lengths = (Num 10, Num 10), penumbra = Num 2,
           field = ''a.jpg'', pymedphys_field_centre = (Num 1, Num 2), field_rotation = Num 0\<rparr>]
   \<and> fst (run_calculation env_found one_image (Some persisted_earlier)
             [''PyMedPhys'', ''PyLinac''] (Num 8) (Num 2)) =
       [Invoked ''PyMedPhys''
          \<lparr>bb_diameter = Num 8, edge_lengths = (Num 10, Num 10), penumbra = Num 2,
           field = ''a.jpg'', pymedphys_field_centre = (Num 1, Num 2), field_rotation = Num 0\<rparr>,
        Invoked ''PyLinac''
          \<lparr>bb_diameter = Num 8, edge_lengths = (Num 10, Num 10), penumbra = Num 2,
           field = ''a.jpg'', pymedphys_field_centre = (Num 1, Num 2), field_rotation = Num 0\<rparr>]"
  by code_simp

text \<open>
  Claim C2, amended: the rows of the persisted table for the image's filepath, reduced
  to the nine result columns, are reused, with no detection, when every selected
  algorithm has a row among them. Otherwise the image is computed by
  \<^verbatim>\<open>get_results_for_image\<close> for the whole selection: detection is invoked for every
  selected algorithm, those with a persisted row included, and the computed rows take
  the place of the persisted ones.
\<close>

theorem reuse_or_recompute_selection:
  assumes "loc_filepath previous path = Inr located"
      and "select_columns located RESULTS_DATA_COLUMNS = Inr results"
      and "get_column results ''algorithm'' = Inr present"
      and "iloc db i = Inr row"
  shows "rows results =
           map (\<lambda>r. map (lookup (columns previous) r) RESULTS_DATA_COLUMNS)
             (filter (\<lambda>r. lookup (columns previous) r ''filepath'' = Str path) (rows previous))
       \<and> (list_all (\<lambda>a. Str a \<in> set present) algs \<longrightarrow>
            results_for_position env db (Some previous) algs bb pen i path = ([], Inr results))
       \<and> (\<not> list_all (\<lambda>a. Str a \<in> set present) algs \<longrightarrow>
            results_for_position env db (Some previous) algs bb pen i path =
              get_results_for_image env path algs bb (width row, length_col row) pen)
       \<and> (list_all (\<lambda>a. ALGORITHM_FUNCTION_MAP a \<noteq> None) algs \<and> algs \<noteq> [] \<longrightarrow>
            get_results_for_image env path algs bb (width row, length_col row) pen =
              (map (\<lambda>a. Invoked a (get_wlutz_input_parameters env path bb
                                     (width row, length_col row) pen)) algs,
               Inr \<lparr>columns = RESULTS_DATA_COLUMNS,
                    rows = map (computed_row env path bb (width row, length_col row) pen) algs\<rparr>))"
proof -
  from assms(1) obtain j where j: "index_of ''filepath'' (columns previous) = Some j"
    and located: "located = previous\<lparr>rows := filter (\<lambda>r. cell_at r j = Str path) (rows previous)\<rparr>"
    by (auto simp: loc_filepath_def split: option.splits)
  from assms(2) have "rows results =
      map (\<lambda>r. map (lookup (columns located) r) RESULTS_DATA_COLUMNS) (rows located)"
    by (auto simp: select_columns_def split: if_splits)
  with located j have 1: "rows results =
           map (\<lambda>r. map (lookup (columns previous) r) RESULTS_DATA_COLUMNS)
             (filter (\<lambda>r. lookup (columns previous) r ''filepath'' = Str path) (rows previous))"
    by (simp add: lookup_def)
  from assms have 2: "list_all (\<lambda>a. Str a \<in> set present) algs \<longrightarrow>
            results_for_position env db (Some previous) algs bb pen i path = ([], Inr results)"
    by (simp add: results_for_position_def)
  from assms have 3: "\<not> list_all (\<lambda>a. Str a \<in> set present) algs \<longrightarrow>
            results_for_position env db (Some previous) algs bb pen i path =
              get_results_for_image env path algs bb (width row, length_col row) pen"
    by (simp add: results_for_position_def)
  have 4: "list_all (\<lambda>a. ALGORITHM_FUNCTION_MAP a \<noteq> None) algs \<and> algs \<noteq> [] \<longrightarrow>
            get_results_for_image env path algs bb (width row, length_col row) pen =
              (map (\<lambda>a. Invoked a (get_wlutz_input_parameters env path bb
                                     (width row, length_col row) pen)) algs,
               Inr \<lparr>columns = RESULTS_DATA_COLUMNS,
                    rows = map (computed_row env path bb (width row, length_col row) pen) algs\<rparr>)"
    by (simp add: get_results_for_image_eq)
  from 1 2 3 4 show ?thesis by blast
qed

lemma persisted_earlier_located:
  "loc_filepath persisted_earlier ''a.jpg'' = Inr persisted_earlier"
  "select_columns persisted_earlier RESULTS_DATA_COLUMNS =
     Inr \<lparr>columns = RESULTS_DATA_COLUMNS,
          rows = [[Str ''a.jpg'', Str ''PyMedPhys'', Flt (Num 5), Flt (Num 5), Flt (Num 5),
                   Flt (Num 5), Flt (Num 0), Flt (Num 0), Flt (Num 0)]]\<rparr>"
  "get_column \<lparr>columns = RESULTS_DATA_COLUMNS,
          rows = [[Str ''a.jpg'', Str ''PyMedPhys'', Flt (Num 5), Flt (Num 5), Flt (Num 5),
                   Flt (Num 5), Flt (Num 0), Flt (Num 0), Flt (Num 0)]]\<rparr> ''algorithm''
     = Inr [Str ''PyMedPhys'']"
  "iloc one_image 0 = Inr (one_image ! 0)"
  by code_simp+

theorem reuse_or_recompute_selection_witness:
  "results_for_position env_found one_image (Some persisted_earlier) [''PyMedPhys'']
       (Num 8) (Num 2) 0 ''a.jpg'' =
     ([], Inr \<lparr>columns = RESULTS_DATA_COLUMNS,
               rows = [[Str ''a.jpg'', Str ''PyMedPhys'', Flt (Num 5), Flt (Num 5), Flt (Num 5),
                        Flt (Num 5), Flt (Num 0), Flt (Num 0), Flt (Num 0)]]\<rparr>)
   \<and> results_for_position env_found one_image (Some persisted_earlier) [''PyMedPhys'', ''PyLinac'']
       (Num 8) (Num 2) 0 ''a.jpg'' =
     (map (\<lambda>a. Invoked a (get_wlutz_input_parameters env_found ''a.jpg'' (Num 8)
                            (Num 10, Num 10) (Num 2))) [''PyMedPhys'', ''PyLinac''],
      Inr \<lparr>columns = RESULTS_DATA_COLUMNS,
           rows = map (computed_row env_found ''a.jpg'' (Num 8) (Num 10, Num 10) (Num 2))
                    [''PyMedPhys'', ''PyLinac'']\<rparr>)"
proof -
  have w: "width (one_image ! 0) = Num 10" "length_col (one_image ! 0) = Num 10"
    by (simp_all add: one_image_def)
  from reuse_or_recompute_selection [OF persisted_earlier_located,
      of "[''PyMedPhys'']" env_found "Num 8" "Num 2"]
  have a: "results_for_position env_found one_image (Some persisted_earlier) [''PyMedPhys'']
       (Num 8) (Num 2) 0 ''a.jpg'' =
     ([], Inr \<lparr>columns = RESULTS_DATA_COLUMNS,
               rows = [[Str ''a.jpg'', Str ''PyMedPhys'', Flt (Num 5), Flt (Num 5), Flt (Num 5),
                        Flt (Num 5), Flt (Num 0), Flt (Num 0), Flt (Num 0)]]\<rparr>)"
    by simp
  from reuse_or_recompute_selection [OF persisted_earlier_located,
      of "[''PyMedPhys'', ''PyLinac'']" env_found "Num 8" "Num 2"]
  have b: "results_for_position env_found one_image (Some persisted_earlier) [''PyMedPhys'', ''PyLinac'']
       (Num 8) (Num 2) 0 ''a.jpg'' =
     (map (\<lambda>a. Invoked a (get_wlutz_input_parameters env_found ''a.jpg'' (Num 8)
                            (Num 10, Num 10) (Num 2))) [''PyMedPhys'', ''PyLinac''],
      Inr \<lparr>columns = RESULTS_DATA_COLUMNS,
           rows = map (computed_row env_found ''a.jpg'' (Num 8) (Num 10, Num 10) (Num 2))
                    [''PyMedPhys'', ''PyLinac'']\<rparr>)"
    by (simp add: w ALGORITHM_FUNCTION_MAP_simps)
  from a b show ?thesis by simp
qed

lemma one_image_rerun:
  "run_calculation env_found one_image (Some persisted_earlier) [''PyMedPhys'', ''PyLinac'']
       (Num 8) (Num 2) =
     ([Invoked ''PyMedPhys''
         \<lparr>bb_diameter = Num 8, edge_lengths = (Num 10, Num 10), penumbra = Num 2,
          field = ''a.jpg'', pymedphys_field_centre = (Num 1, Num 2), field_rotation = Num 0\<rparr>,
       Invoked ''PyLinac''
         \<lparr>bb_diameter = Num 8, edge_lengths = (Num 10, Num 10), penumbra = Num 2,
          field = ''a.jpg'', pymedphys_field_centre = (Num 1, Num 2), field_rotation = Num 0\<rparr>],
      Inr recomputed_written)"
  by code_simp

text \<open>
  Claim C4, as stated, says that the table written at the end of a run has no two rows
  with the same filepath and algorithm. The persisted table of the example holds a
  PyMedPhys row for the image, computed earlier with other settings; the run selects
  PyMedPhys and PyLinac, recomputes the image, and writes the new PyMedPhys row and the
  old one.
\<close>

theorem duplicate_pair_counterexample:
  "snd (run_calculation env_found one_image (Some persisted_earlier) [''PyMedPhys'', ''PyLinac'']
          (Num 8) (Num 2)) = Inr recomputed_written
   \<and> result_keys recomputed_written =
       [(Str ''a.jpg'', Str ''PyMedPhys''), (Str ''a.jpg'', Str ''PyLinac''),
        (Str ''a.jpg'', Str ''PyMedPhys'')]
   \<and> \<not> distinct (result_keys recomputed_written)"
  by code_simp

text \<open>
  Claim C4, amended: the table written at the end of a run has no two equal rows. Rows
  are compared as wholes, and every row of a persisted table in the written layout is
  kept, so a recomputed row and a differing persisted row of the same filepath and
  algorithm are both written.
\<close>

theorem written_rows_distinct:
  assumes "run_calculation env db previously algs bb pen = (ev, Inr written)"
  shows "distinct (rows written)
       \<and> (case previously of
            None \<Rightarrow> True
          | Some prev \<Rightarrow>
              columns prev = RESULTS_DATA_COLUMNS @ DATABASE_COLUMNS
              \<and> list_all (\<lambda>r. length r = 15) (rows prev)
              \<longrightarrow> set (rows prev) \<subseteq> set (rows written))"
proof -
  from run_calculation_Inr [OF assms] obtain contextualised where
    c: "columns contextualised = RESULTS_DATA_COLUMNS @ DATABASE_COLUMNS" and
    w: "written = drop_duplicates
              (case previously of None \<Rightarrow> contextualised
               | Some prev \<Rightarrow> concat_frames contextualised prev)"
    by blast
  from assms have 1: "distinct (rows written)" by (rule run_calculation_distinct)
  have 2: "set (rows prev) \<subseteq> set (rows written)"
    if p: "previously = Some prev" and cols: "columns prev = RESULTS_DATA_COLUMNS @ DATABASE_COLUMNS"
      and len: "list_all (\<lambda>r. length r = 15) (rows prev)" for prev
  proof -
    have d: "distinct (columns prev)" unfolding cols by (rule fifteen_columns(5))
    have l: "\<forall>r \<in> set (rows prev). length r = length (columns prev)"
      unfolding cols fifteen_columns(6) using len by (simp only: list_all_iff)
    have "map (\<lambda>r. map (lookup (columns prev) r) (columns prev)) (rows prev) = rows prev"
      using d l by (intro map_idI lookup_self) auto
    with c cols have "rows (concat_frames contextualised prev) =
        map (\<lambda>r. map (lookup (columns contextualised) r) (columns contextualised)) (rows contextualised)
        @ rows prev"
      by (simp add: concat_frames_def Let_def filter_empty_conv)
    with w p show ?thesis by (simp add: drop_duplicates_def)
  qed
  from 1 2 show ?thesis by (auto split: option.splits)
qed

theorem written_rows_distinct_witness:
  "distinct (rows recomputed_written)
   \<and> set (rows persisted_earlier) \<subseteq> set (rows recomputed_written)"
proof -
  have "columns persisted_earlier = RESULTS_DATA_COLUMNS @ DATABASE_COLUMNS"
    and "list_all (\<lambda>r. length r = 15) (rows persisted_earlier)"
    by (simp_all add: persisted_earlier_def)
  with written_rows_distinct [OF one_image_rerun] show ?thesis by simp
qed

lemma run_calculation_not_unexpected:
  "run_calculation env db (Some prev) algs bb pen \<noteq> (ev, Inl (ValueError ''Unexpected columns''))"
proof
  assume a: "run_calculation env db (Some prev) algs bb pen
               = (ev, Inl (ValueError ''Unexpected columns''))"
  obtain ev0 r0 where l: "run_loop env db (Some prev) algs bb pen
      (enumerate 0 (rev (map filepath db))) empty_frame = (ev0, r0)"
    by (cases "run_loop env db (Some prev) algs bb pen
      (enumerate 0 (rev (map filepath db))) empty_frame")
  show False
  proof (cases r0)
    case (Inl e)
    with a l have "run_loop env db (Some prev) algs bb pen
      (enumerate 0 (rev (map filepath db))) empty_frame
        = (ev, Inl (ValueError ''Unexpected columns''))"
      by (simp add: run_calculation_def)
    with run_loop_Some_error show False by blast
  next
    case (Inr collated)
    with a l show False
      by (auto simp: run_calculation_def merge_database_def split: sum.splits option.splits)
  qed
qed

lemma run_calculation_missing_column:
  assumes ne: "db \<noteq> []" and missing: "\<not> set RESULTS_DATA_COLUMNS \<subseteq> set (columns prev)"
  shows "run_calculation env db (Some prev) algs bb pen = ([], Inl KeyError)"
proof -
  from ne obtain path rest where
    ips: "enumerate 0 (rev (map filepath db)) = (0, path) # rest"
    by (cases "rev (map filepath db)") auto
  have "results_for_position env db (Some prev) algs bb pen 0 path = ([], Inl KeyError)"
  proof (cases "loc_filepath prev path")
    case (Inl e)
    then have "e = KeyError" by (auto simp: loc_filepath_def split: option.splits)
    with Inl show ?thesis by (simp add: results_for_position_def)
  next
    case (Inr located)
    then have "columns located = columns prev"
      by (auto simp: loc_filepath_def split: option.splits)
    with missing have "select_columns located RESULTS_DATA_COLUMNS = Inl KeyError"
      by (auto simp: select_columns_def list_all_iff)
    with Inr show ?thesis by (simp add: results_for_position_def)
  qed
  with ips show ?thesis by (simp add: run_calculation_def)
qed

text \<open>
  Claim C6, as stated, says that a persisted results file whose columns are not exactly
  the nine result columns makes the run fail with an "unexpected columns" error when it
  is loaded. The persisted table of the example has the nine result columns and the six
  dataset columns, which is the layout the runner itself writes; the run reads it,
  reuses its row and writes its table.
\<close>

theorem other_columns_accepted_counterexample:
  "set (columns persisted_earlier) \<noteq> set RESULTS_DATA_COLUMNS
   \<and> read_csv exact_csv persisted_earlier = Inr persisted_earlier
   \<and> run_calculation_on_file exact_csv env_found one_image (Some persisted_earlier)
       [''PyMedPhys''] (Num 8) (Num 2) = ([], Inr (persisted_earlier, persisted_earlier))"
  by code_simp

text \<open>
  Claim C6, amended: the columns of the persisted results file are not checked when it
  is loaded. The only failure of the load is an exception of the parser itself, which
  ends the run before any image is processed; a file that is parsed is never rejected
  with an "unexpected columns" error, whatever its columns. When the parsed table lacks
  one of the nine result columns, a run over a dataset that is not empty fails with a
  \<^verbatim>\<open>KeyError\<close> at the first image, before any detection. The error
  \<^verbatim>\<open>ValueError("Unexpected columns")\<close> comes from \<^verbatim>\<open>get_results_for_image\<close> alone,
  which raises it on the table it has just computed, exactly when the selection of
  algorithms is empty.
\<close>

theorem persisted_columns_not_validated:
  "(read_csv fmt contents = Inl e \<longrightarrow>
      run_calculation_on_file fmt env db (Some contents) algs bb pen = ([], Inl e))
   \<and> (read_csv fmt contents = Inr prev \<longrightarrow>
        run_calculation_on_file fmt env db (Some contents) algs bb pen
          \<noteq> (ev, Inl (ValueError ''Unexpected columns''))
        \<and> (db \<noteq> [] \<and> \<not> set RESULTS_DATA_COLUMNS \<subseteq> set (columns prev) \<longrightarrow>
             run_calculation_on_file fmt env db (Some contents) algs bb pen = ([], Inl KeyError)))
   \<and> get_results_for_image env path [] bb edges pen = ([], Inl (ValueError ''Unexpected columns''))
   \<and> (algs \<noteq> [] \<longrightarrow>
        get_results_for_image env path algs bb edges pen
          \<noteq> (ev, Inl (ValueError ''Unexpected columns'')))"
proof -
  have 0: "run_calculation_on_file fmt env db (Some contents) algs bb pen = ([], Inl e)"
    if "read_csv fmt contents = Inl e"
    using that by (simp add: run_calculation_on_file_def read_previous_def)
  have 1: "run_calculation_on_file fmt env db (Some contents) algs bb pen
             \<noteq> (ev, Inl (ValueError ''Unexpected columns''))"
    if parsed: "read_csv fmt contents = Inr prev"
  proof
    assume "run_calculation_on_file fmt env db (Some contents) algs bb pen
              = (ev, Inl (ValueError ''Unexpected columns''))"
    with parsed have "run_calculation env db (Some prev) algs bb pen
              = (ev, Inl (ValueError ''Unexpected columns''))"
      by (auto simp: run_calculation_on_file_def read_previous_def split: prod.splits sum.splits)
    with run_calculation_not_unexpected show False by blast
  qed
  have 2: "run_calculation_on_file fmt env db (Some contents) algs bb pen = ([], Inl KeyError)"
    if parsed: "read_csv fmt contents = Inr prev"
      and ne: "db \<noteq> []" and missing: "\<not> set RESULTS_DATA_COLUMNS \<subseteq> set (columns prev)"
    using run_calculation_missing_column [OF ne missing, of env algs bb pen] parsed
    by (simp add: run_calculation_on_file_def read_previous_def)
  have 3: "get_results_for_image env path [] bb edges pen
             = ([], Inl (ValueError ''Unexpected columns''))"
    by (simp add: get_results_for_image_eq)
  have 4: "algs \<noteq> [] \<longrightarrow> get_results_for_image env path algs bb edges pen
          \<noteq> (ev, Inl (ValueError ''Unexpected columns''))"
    using get_results_for_image_columns_error by blast
  from 0 1 2 3 4 show ?thesis by blast
qed

theorem persisted_columns_not_validated_witness:
  "run_calculation_on_file exact_csv env_found one_image (Some empty_frame) [''PyMedPhys'']
     (Num 8) (Num 2) = ([], Inl EmptyDataError)
   \<and> run_calculation_on_file exact_csv env_found one_image
       (Some \<lparr>columns = [''filepath'', ''algorithm''], rows = []\<rparr>) [''PyMedPhys''] (Num 8) (Num 2)
       = ([], Inl KeyError)
   \<and> run_calculation_on_file exact_csv env_found one_image (Some persisted_earlier)
       [''PyMedPhys''] (Num 8) (Num 2) \<noteq> ([], Inl (ValueError ''Unexpected columns''))
   \<and> get_results_for_image env_found ''a.jpg'' [''PyMedPhys''] (Num 8) (Num 10, Num 10) (Num 2)
       \<noteq> ([], Inl (ValueError ''Unexpected columns''))"
proof -
  let ?two = "\<lparr>columns = [''filepath'', ''algorithm''], rows = []\<rparr>"
  have empty: "read_csv exact_csv empty_frame = Inl EmptyDataError"
    by (simp add: exact_csv_def empty_frame_def)
  have two: "read_csv exact_csv ?two = Inr ?two" by (simp add: exact_csv_def)
  have earlier: "read_csv exact_csv persisted_earlier = Inr persisted_earlier"
    by (simp add: exact_csv_def persisted_earlier_def RESULTS_DATA_COLUMNS_def)
  have ne: "one_image \<noteq> []" by (simp add: one_image_def)
  have missing: "\<not> set RESULTS_DATA_COLUMNS \<subseteq> set (columns ?two)"
    by (simp add: RESULTS_DATA_COLUMNS_def)
  from persisted_columns_not_validated [of exact_csv empty_frame EmptyDataError env_found
      one_image "[''PyMedPhys'']" "Num 8" "Num 2"] empty
  have a: "run_calculation_on_file exact_csv env_found one_image (Some empty_frame) [''PyMedPhys'']
     (Num 8) (Num 2) = ([], Inl EmptyDataError)"
    by blast
  from persisted_columns_not_validated [of exact_csv ?two _ env_found
      one_image "[''PyMedPhys'']" "Num 8" "Num 2" ?two] two ne missing
  have b: "run_calculation_on_file exact_csv env_found one_image (Some ?two) [''PyMedPhys'']
     (Num 8) (Num 2) = ([], Inl KeyError)"
    by blast
  from persisted_columns_not_validated [of exact_csv persisted_earlier _ env_found
      one_image "[''PyMedPhys'']" "Num 8" "Num 2" persisted_earlier "[]"
      "''a.jpg''" "(Num 10, Num 10)"] earlier
  have c: "run_calculation_on_file exact_csv env_found one_image (Some persisted_earlier)
       [''PyMedPhys''] (Num 8) (Num 2) \<noteq> ([], Inl (ValueError ''Unexpected columns''))"
    and d: "get_results_for_image env_found ''a.jpg'' [''PyMedPhys''] (Num 8) (Num 10, Num 10) (Num 2)
       \<noteq> ([], Inl (ValueError ''Unexpected columns''))"
    by simp_all
  from a b c d show ?thesis by blast
qed
subsection \<open>A second run over the table of a first run\<close>

lemma position_rows_shape:
  assumes "list_all (\<lambda>a. ALGORITHM_FUNCTION_MAP a \<noteq> None) algs"
      and "r \<in> set (position_rows env db algs bb pen ip)"
  shows "length r = 9" and "cell_at r 0 = Str (snd ip)" and "\<exists>x. cell_at r 6 = Flt x"
proof -
  from assms(2) obtain a where a: "a \<in> set algs" and
    r: "r = computed_row env (snd ip) bb (width (db ! fst ip), length_col (db ! fst ip)) pen a"
    by (auto simp: position_rows_def)
  from assms(1) a have k: "ALGORITHM_FUNCTION_MAP a \<noteq> None" by (simp add: list_all_iff)
  note s = computed_row_shape [OF k, of env "snd ip" bb "(width (db ! fst ip), length_col (db ! fst ip))" pen]
  from s(1) r show "length r = 9" by simp
  from s(1,2) r show "cell_at r 0 = Str (snd ip)" by (simp add: cell_at_def)
  from s(1,4) r show "\<exists>x. cell_at r 6 = Flt x" by (simp add: cell_at_def)
qed

lemma position_rows_algorithm:
  assumes "list_all (\<lambda>a. ALGORITHM_FUNCTION_MAP a \<noteq> None) algs" and "a \<in> set algs"
  shows "\<exists>r \<in> set (position_rows env db algs bb pen ip). cell_at r 1 = Str a"
proof -
  from assms have k: "ALGORITHM_FUNCTION_MAP a \<noteq> None" by (simp add: list_all_iff)
  note s = computed_row_shape [OF k, of env "snd ip" bb "(width (db ! fst ip), length_col (db ! fst ip))" pen]
  from s(1,3) have "cell_at (computed_row env (snd ip) bb
      (width (db ! fst ip), length_col (db ! fst ip)) pen a) 1 = Str a"
    by (simp add: cell_at_def)
  with assms(2) show ?thesis by (auto simp: position_rows_def)
qed

lemma join_position_row:
  assumes "distinct (map filepath db)"
      and "ip \<in> set (enumerate 0 (rev (map filepath db)))"
      and "cell_at r 0 = Str (snd ip)"
  shows "map (\<lambda>d. r @ database_cells d) (filter (\<lambda>d. cell_at r 0 = Str (filepath d)) db)
         = [r @ database_cells (db ! (length db - 1 - fst ip))]"
proof -
  from enumerate_rev_filepath [OF assms(2)] have
    i: "fst ip < length db" and p: "snd ip = filepath (db ! (length db - 1 - fst ip))" by auto
  from i have "db ! (length db - 1 - fst ip) \<in> set db" by simp
  from filter_unique [OF assms(1) this]
  have "filter (\<lambda>d. cell_at r 0 = Str (filepath d)) db = [db ! (length db - 1 - fst ip)]"
    by (simp add: assms(3) p)
  then show ?thesis by simp
qed

lemma merge_position_rows:
  assumes "distinct (map filepath db)"
      and "\<forall>ip \<in> set ips. ip \<in> set (enumerate 0 (rev (map filepath db)))"
      and "\<forall>ip \<in> set ips. \<forall>r \<in> set (g ip). cell_at r 0 = Str (snd ip)"
      and "distinct (map snd ips)"
  shows "merge_database \<lparr>columns = RESULTS_DATA_COLUMNS, rows = concat (map g ips)\<rparr> db =
           Inr \<lparr>columns = RESULTS_DATA_COLUMNS @ DATABASE_COLUMNS,
                rows = concat (map (\<lambda>ip. map (\<lambda>r. r @ database_cells
                                           (db ! (length db - 1 - fst ip))) (g ip)) ips)\<rparr>"
proof -
  have one: "concat (map (\<lambda>r. map (\<lambda>d. r @ database_cells d)
                               (filter (\<lambda>d. cell_at r 0 = Str (filepath d)) db)) rs)
             = map (\<lambda>r. r @ database_cells (db ! (length db - 1 - fst ip))) rs"
    if "ip \<in> set (enumerate 0 (rev (map filepath db)))"
      and "\<forall>r \<in> set rs. cell_at r 0 = Str (snd ip)" for ip rs
    using that(2)
  proof (induction rs)
    case Nil
    then show ?case by simp
  next
    case (Cons r rs)
    then show ?case using join_position_row [OF assms(1) that(1), of r] by simp
  qed
  have "concat (map (\<lambda>r. map (\<lambda>d. r @ database_cells d)
                               (filter (\<lambda>d. cell_at r 0 = Str (filepath d)) db))
                    (concat (map g ips)))
        = concat (map (\<lambda>ip. map (\<lambda>r. r @ database_cells
                                           (db ! (length db - 1 - fst ip))) (g ip)) ips)"
    using assms(2,3)
  proof (induction ips)
    case Nil
    then show ?case by simp
  next
    case (Cons ip ips)
    then show ?case using one [of ip "g ip"] by simp
  qed
  moreover have "grouped_by (\<lambda>r. cell_at r 0) (concat (map g ips))"
  proof (rule grouped_by_concat)
    from assms(4) show "distinct (map (\<lambda>ip. Str (snd ip)) ips)"
      by (simp add: distinct_map inj_on_def)
    from assms(3) show "\<forall>ip \<in> set ips. \<forall>r \<in> set (g ip). cell_at r 0 = Str (snd ip)" .
  qed
  ultimately show ?thesis by (simp add: merge_database_nine)
qed

lemma enumerate_paths_distinct:
  assumes "distinct (map filepath db)"
  shows "distinct (map snd (enumerate 0 (rev (map filepath db))))"
    and "distinct (enumerate 0 (rev (map filepath db)))"
proof -
  show d: "distinct (map snd (enumerate 0 (rev (map filepath db))))"
    using assms by (simp add: enumerate_eq_zip)
  then show "distinct (enumerate 0 (rev (map filepath db)))"
    by (rule distinct_map [THEN iffD1, THEN conjunct1])
qed

lemma joined_rows_shape:
  assumes "list_all (\<lambda>a. ALGORITHM_FUNCTION_MAP a \<noteq> None) algs"
      and "r \<in> set (joined_rows env db algs bb pen ip)"
  shows "length r = 15" and "cell_at r 0 = Str (snd ip)"
proof -
  from assms(2) obtain b where b: "b \<in> set (position_rows env db algs bb pen ip)" and
    r: "r = b @ database_cells (db ! (length db - 1 - fst ip))"
    by (auto simp: joined_rows_def)
  note s = position_rows_shape [OF assms(1) b]
  from s(1) r show "length r = 15" by (simp add: database_cells_def)
  from s(1,2) r show "cell_at r 0 = Str (snd ip)" by (simp add: cell_at_def nth_append)
qed

lemma first_run_written:
  assumes "run_calculation env db None algs bb pen = (ev, Inr written)"
      and "distinct (map filepath db)"
  shows "written = \<lparr>columns = RESULTS_DATA_COLUMNS @ DATABASE_COLUMNS,
                     rows = concat (map (\<lambda>ip. drop_dups (joined_rows env db algs bb pen ip))
                                     (enumerate 0 (rev (map filepath db))))\<rparr>"
    and "algs \<noteq> []" and "list_all (\<lambda>a. ALGORITHM_FUNCTION_MAP a \<noteq> None) algs" and "db \<noteq> []"
proof -
  let ?ips = "enumerate 0 (rev (map filepath db))"
  from run_calculation_Inr [OF assms(1)] obtain collated contextualised where
    loop: "run_loop env db None algs bb pen ?ips empty_frame = (ev, Inr collated)" and
    ne: "db \<noteq> []" and
    m: "merge_database collated db = Inr contextualised" and
    w: "written = drop_duplicates contextualised"
    by auto
  from ne have ips: "?ips \<noteq> []" by (simp add: enumerate_eq_zip)
  from run_loop_None [OF loop ips] have
    collated: "collated = \<lparr>columns = RESULTS_DATA_COLUMNS,
                 rows = concat (map (position_rows env db algs bb pen) ?ips)\<rparr>"
    and a: "algs \<noteq> []" and known: "list_all (\<lambda>a. ALGORITHM_FUNCTION_MAP a \<noteq> None) algs"
    by (simp_all add: empty_frame_def position_rows_def [abs_def])
  show "algs \<noteq> []" "list_all (\<lambda>a. ALGORITHM_FUNCTION_MAP a \<noteq> None) algs" "db \<noteq> []"
    by fact+
  have "merge_database collated db =
          Inr \<lparr>columns = RESULTS_DATA_COLUMNS @ DATABASE_COLUMNS,
               rows = concat (map (joined_rows env db algs bb pen) ?ips)\<rparr>"
    unfolding collated joined_rows_def [abs_def]
    using assms(2) position_rows_shape(2) [OF known]
    by (intro merge_position_rows) auto
  with m have c: "contextualised = \<lparr>columns = RESULTS_DATA_COLUMNS @ DATABASE_COLUMNS,
               rows = concat (map (joined_rows env db algs bb pen) ?ips)\<rparr>"
    by simp
  have disjoint: "set (map (joined_rows env db algs bb pen) ?ips ! i)
                  \<inter> set (map (joined_rows env db algs bb pen) ?ips ! j) = {}"
    if "i < j" and "j < length (map (joined_rows env db algs bb pen) ?ips)" for i j
  proof -
    from that have i: "i < length ?ips" and j: "j < length ?ips" by simp_all
    from enumerate_paths_distinct(1) [OF assms(2)] that i j
    have neq: "snd (?ips ! i) \<noteq> snd (?ips ! j)"
      by (simp add: distinct_conv_nth nth_enumerate_eq)
    show ?thesis
    proof (rule ccontr)
      assume "\<not> ?thesis"
      then obtain r where "r \<in> set (joined_rows env db algs bb pen (?ips ! i))"
        "r \<in> set (joined_rows env db algs bb pen (?ips ! j))"
        using i j by auto
      from joined_rows_shape(2) [OF known this(1)] joined_rows_shape(2) [OF known this(2)] neq
      show False by simp
    qed
  qed
  from drop_dups_concat_disjoint [OF disjoint]
  have "drop_dups (concat (map (joined_rows env db algs bb pen) ?ips))
        = concat (map (\<lambda>ip. drop_dups (joined_rows env db algs bb pen ip)) ?ips)"
    by (simp add: comp_def)
  with w c show "written = \<lparr>columns = RESULTS_DATA_COLUMNS @ DATABASE_COLUMNS,
                     rows = concat (map (\<lambda>ip. drop_dups (joined_rows env db algs bb pen ip)) ?ips)\<rparr>"
    by (simp add: drop_duplicates_def)
qed

lemma drop_dups_joined_rows:
  "drop_dups (joined_rows env db algs bb pen ip) =
     map (\<lambda>r. r @ database_cells (db ! (length db - 1 - fst ip)))
       (drop_dups (position_rows env db algs bb pen ip))"
  unfolding joined_rows_def by (rule map_drop_dups [symmetric]) (simp add: inj_on_def)

lemma second_run_position:
  assumes known: "list_all (\<lambda>a. ALGORITHM_FUNCTION_MAP a \<noteq> None) algs"
      and dist: "distinct (map filepath db)"
      and ip: "ip \<in> set (enumerate 0 (rev (map filepath db)))"
      and w: "written = \<lparr>columns = RESULTS_DATA_COLUMNS @ DATABASE_COLUMNS,
                     rows = concat (map (\<lambda>ip. drop_dups (joined_rows env db algs bb pen ip))
                                     (enumerate 0 (rev (map filepath db))))\<rparr>"
  shows "results_for_position env db (Some written) algs bb pen (fst ip) (snd ip) =
           ([], Inr \<lparr>columns = RESULTS_DATA_COLUMNS,
                     rows = drop_dups (position_rows env db algs bb pen ip)\<rparr>)"
proof -
  let ?ips = "enumerate 0 (rev (map filepath db))"
  let ?P = "position_rows env db algs bb pen ip"
  let ?m = "database_cells (db ! (length db - 1 - fst ip))"
  have inj: "inj_on snd (set ?ips)"
    using enumerate_paths_distinct(1) [OF dist] by (simp only: distinct_map)
  have here: "\<forall>r \<in> set (drop_dups (joined_rows env db algs bb pen ip)). cell_at r 0 = Str (snd ip)"
    using joined_rows_shape(2) [OF known] by simp
  have others: "\<forall>k \<in> set ?ips. k \<noteq> ip \<longrightarrow>
      (\<forall>r \<in> set (drop_dups (joined_rows env db algs bb pen k)). cell_at r 0 \<noteq> Str (snd ip))"
  proof (intro ballI impI)
    fix k r assume k: "k \<in> set ?ips" "k \<noteq> ip"
      and r: "r \<in> set (drop_dups (joined_rows env db algs bb pen k))"
    from inj k ip have "snd k \<noteq> snd ip" by (auto dest: inj_onD)
    moreover from r joined_rows_shape(2) [OF known, of r env db bb pen k]
    have "cell_at r 0 = Str (snd k)" by simp
    ultimately show "cell_at r 0 \<noteq> Str (snd ip)" by simp
  qed
  have "filter (\<lambda>r. cell_at r 0 = Str (snd ip))
          (concat (map (\<lambda>ip. drop_dups (joined_rows env db algs bb pen ip)) ?ips))
        = drop_dups (joined_rows env db algs bb pen ip)"
    using enumerate_paths_distinct(2) [OF dist] ip here others
    by (rule filter_concat_unique)
  then have located: "loc_filepath written (snd ip) =
      Inr \<lparr>columns = RESULTS_DATA_COLUMNS @ DATABASE_COLUMNS,
           rows = map (\<lambda>r. r @ ?m) (drop_dups ?P)\<rparr>"
    by (simp add: loc_filepath_def w fifteen_columns(1) drop_dups_joined_rows)
  have "map (\<lambda>b. map (lookup (RESULTS_DATA_COLUMNS @ DATABASE_COLUMNS) (b @ ?m))
                   RESULTS_DATA_COLUMNS) (drop_dups ?P) = drop_dups ?P"
    by (rule map_idI) (simp add: select_nine_of_joined position_rows_shape(1) [OF known])
  then have "map (\<lambda>r. map (lookup (RESULTS_DATA_COLUMNS @ DATABASE_COLUMNS) r) RESULTS_DATA_COLUMNS)
          (map (\<lambda>r. r @ ?m) (drop_dups ?P)) = drop_dups ?P"
    by (simp add: comp_def)
  then have selected: "select_columns \<lparr>columns = RESULTS_DATA_COLUMNS @ DATABASE_COLUMNS,
           rows = map (\<lambda>r. r @ ?m) (drop_dups ?P)\<rparr> RESULTS_DATA_COLUMNS =
      Inr \<lparr>columns = RESULTS_DATA_COLUMNS, rows = drop_dups ?P\<rparr>"
    by (simp add: select_columns_def list_all_iff)
  have present: "get_column \<lparr>columns = RESULTS_DATA_COLUMNS, rows = drop_dups ?P\<rparr> ''algorithm''
      = Inr (map (\<lambda>r. cell_at r 1) (drop_dups ?P))"
    by (simp add: get_column_def nine_columns)
  have all: "list_all (\<lambda>a. Str a \<in> set (map (\<lambda>r. cell_at r 1) (drop_dups ?P))) algs"
    unfolding list_all_iff
  proof
    fix a assume "a \<in> set algs"
    from position_rows_algorithm [OF known this, of env db bb pen ip]
    obtain r where "r \<in> set ?P" "cell_at r 1 = Str a" by blast
    then show "Str a \<in> set (map (\<lambda>r. cell_at r 1) (drop_dups ?P))" by force
  qed
  show ?thesis
    by (simp only: results_for_position_def Let_def option.case located sum.case selected
        present all if_True)
qed

lemma second_run_keys:
  assumes known: "list_all (\<lambda>a. ALGORITHM_FUNCTION_MAP a \<noteq> None) algs"
      and ne: "algs \<noteq> []"
      and dist: "distinct (map filepath db)"
      and ip: "ip \<in> set (enumerate 0 (rev (map filepath db)))"
  shows "working_table_keys \<lparr>columns = RESULTS_DATA_COLUMNS,
                             rows = drop_dups (position_rows env db algs bb pen ip)\<rparr> db =
           Inr (Str (treatment (db ! (length db - 1 - fst ip))),
                Str (port (db ! (length db - 1 - fst ip))))"
proof -
  let ?P = "position_rows env db algs bb pen ip"
  let ?d = "db ! (length db - 1 - fst ip)"
  let ?rows = "map (\<lambda>r. r @ database_cells ?d) (drop_dups ?P)"
  have "merge_database \<lparr>columns = RESULTS_DATA_COLUMNS,
                         rows = concat (map (\<lambda>k. drop_dups ?P) [ip])\<rparr> db =
          Inr \<lparr>columns = RESULTS_DATA_COLUMNS @ DATABASE_COLUMNS,
               rows = concat (map (\<lambda>k. map (\<lambda>r. r @ database_cells
                                           (db ! (length db - 1 - fst k))) (drop_dups ?P)) [ip])\<rparr>"
    using dist ip position_rows_shape(2) [OF known]
    by (intro merge_position_rows) auto
  then have m: "merge_database \<lparr>columns = RESULTS_DATA_COLUMNS, rows = drop_dups ?P\<rparr> db =
          Inr \<lparr>columns = RESULTS_DATA_COLUMNS @ DATABASE_COLUMNS, rows = ?rows\<rparr>"
    by simp
  from ne have P: "?P \<noteq> []" by (simp add: position_rows_def)
  then have rows_ne: "drop_dups ?P \<noteq> []" by (cases ?P) auto
  have cells: "cell_at (r @ database_cells ?d) 6 = cell_at r 6"
              "cell_at (r @ database_cells ?d) 9 = Str (treatment ?d)"
              "cell_at (r @ database_cells ?d) 10 = Str (port ?d)"
    if "r \<in> set ?P" for r
    using position_rows_shape(1) [OF known that]
    by (simp_all add: cell_at_def nth_append database_cells_def)
  have rot: "get_column \<lparr>columns = RESULTS_DATA_COLUMNS @ DATABASE_COLUMNS, rows = ?rows\<rparr>
               ''field_rotation'' = Inr (map (\<lambda>r. cell_at r 6) (drop_dups ?P))"
    using cells(1) by (simp add: get_column_def fifteen_columns(2) comp_def)
  have numeric: "\<not> list_ex (\<lambda>c. case c of Str s \<Rightarrow> True | Flt x \<Rightarrow> False)
                    (map (\<lambda>r. cell_at r 6) (drop_dups ?P))"
  proof -
    have "\<not> (case cell_at r 6 of Str s \<Rightarrow> True | Flt x \<Rightarrow> False)" if "r \<in> set ?P" for r
    proof -
      from position_rows_shape(3) [OF known that] obtain x where "cell_at r 6 = Flt x" by blast
      then show ?thesis by simp
    qed
    then show ?thesis by (simp add: list_ex_iff)
  qed
  have "map (\<lambda>r. cell_at r 9) ?rows = map (\<lambda>r. Str (treatment ?d)) (drop_dups ?P)"
    using cells(2) by (simp add: comp_def)
  then have "drop_dups (map (\<lambda>r. cell_at r 9) ?rows) = [Str (treatment ?d)]"
    using rows_ne by (intro drop_dups_const) auto
  then have tr: "collapse_column_to_single_value
       \<lparr>columns = RESULTS_DATA_COLUMNS @ DATABASE_COLUMNS, rows = ?rows\<rparr> ''treatment''
       = Inr (Str (treatment ?d))"
    by (simp add: collapse_column_to_single_value_def get_column_def fifteen_columns(3))
  have "map (\<lambda>r. cell_at r 10) ?rows = map (\<lambda>r. Str (port ?d)) (drop_dups ?P)"
    using cells(3) by (simp add: comp_def)
  then have "drop_dups (map (\<lambda>r. cell_at r 10) ?rows) = [Str (port ?d)]"
    using rows_ne by (intro drop_dups_const) auto
  then have po: "collapse_column_to_single_value
       \<lparr>columns = RESULTS_DATA_COLUMNS @ DATABASE_COLUMNS, rows = ?rows\<rparr> ''port''
       = Inr (Str (port ?d))"
    by (simp add: collapse_column_to_single_value_def get_column_def fifteen_columns(4))
  show ?thesis
    by (simp only: working_table_keys_def m sum.case rot numeric if_False tr po)
qed

lemma second_run_loop:
  assumes known: "list_all (\<lambda>a. ALGORITHM_FUNCTION_MAP a \<noteq> None) algs"
      and ne: "algs \<noteq> []"
      and dist: "distinct (map filepath db)"
      and w: "written = \<lparr>columns = RESULTS_DATA_COLUMNS @ DATABASE_COLUMNS,
                     rows = concat (map (\<lambda>ip. drop_dups (joined_rows env db algs bb pen ip))
                                     (enumerate 0 (rev (map filepath db))))\<rparr>"
      and sub: "set ips \<subseteq> set (enumerate 0 (rev (map filepath db)))"
      and "ips \<noteq> []"
      and "collated = empty_frame \<or>
           columns collated = RESULTS_DATA_COLUMNS \<and> (\<forall>r \<in> set (rows collated). length r = 9)"
  shows "run_loop env db (Some written) algs bb pen ips collated =
           ([], Inr \<lparr>columns = RESULTS_DATA_COLUMNS,
                     rows = rows collated @
                       concat (map (\<lambda>ip. drop_dups (position_rows env db algs bb pen ip)) ips)\<rparr>)"
  using sub assms(6,7)
proof (induction ips arbitrary: collated)
  case Nil
  then show ?case by simp
next
  case (Cons ip ips)
  from Cons.prems(1) have ip: "ip \<in> set (enumerate 0 (rev (map filepath db)))"
    and sub': "set ips \<subseteq> set (enumerate 0 (rev (map filepath db)))" by auto
  let ?results = "\<lparr>columns = RESULTS_DATA_COLUMNS,
                    rows = drop_dups (position_rows env db algs bb pen ip)\<rparr>"
  have p: "results_for_position env db (Some written) algs bb pen (fst ip) (snd ip)
             = ([], Inr ?results)"
    using known dist ip w by (rule second_run_position)
  have k: "working_table_keys ?results db =
             Inr (Str (treatment (db ! (length db - 1 - fst ip))),
                  Str (port (db ! (length db - 1 - fst ip))))"
    using known ne dist ip by (rule second_run_keys)
  have wf: "\<forall>r \<in> set (drop_dups (position_rows env db algs bb pen ip)). length r = 9"
    using position_rows_shape(1) [OF known] by simp
  have rows_ok: "\<forall>r \<in> set (rows collated). length r = 9"
    using Cons.prems(3) by (auto simp: empty_frame_def)
  have next_frame: "concat_frames collated ?results =
          \<lparr>columns = RESULTS_DATA_COLUMNS,
           rows = rows collated @ drop_dups (position_rows env db algs bb pen ip)\<rparr>"
  proof (cases "collated = empty_frame")
    case True
    have "concat_frames empty_frame ?results = ?results"
      using wf by (intro concat_frames_empty) (simp_all add: nine_columns)
    with True show ?thesis by (simp add: empty_frame_def)
  next
    case False
    with Cons.prems(3) have c: "columns collated = RESULTS_DATA_COLUMNS" by auto
    have "concat_frames collated ?results =
            \<lparr>columns = RESULTS_DATA_COLUMNS, rows = rows collated @ rows ?results\<rparr>"
      using c wf rows_ok by (intro concat_frames_same) (simp_all add: nine_columns)
    then show ?thesis by simp
  qed
  have step: "run_loop env db (Some written) algs bb pen (ip # ips) collated =
               (case run_loop env db (Some written) algs bb pen ips (concat_frames collated ?results) of
                  (ev', r) \<Rightarrow> ([] @ ev', r))"
    using p k by (cases ip) simp
  show ?case
  proof (cases "ips = []")
    case True
    with step next_frame show ?thesis by simp
  next
    case False
    have "run_loop env db (Some written) algs bb pen ips (concat_frames collated ?results) =
           ([], Inr \<lparr>columns = RESULTS_DATA_COLUMNS,
                     rows = rows (concat_frames collated ?results) @
                       concat (map (\<lambda>ip. drop_dups (position_rows env db algs bb pen ip)) ips)\<rparr>)"
      using sub' False
    proof (rule Cons.IH)
      show "concat_frames collated ?results = empty_frame \<or>
            columns (concat_frames collated ?results) = RESULTS_DATA_COLUMNS \<and>
            (\<forall>r \<in> set (rows (concat_frames collated ?results)). length r = 9)"
        unfolding next_frame using rows_ok wf by auto
    qed
    with step next_frame show ?thesis by simp
  qed
qed

lemma run_calculation_on_file_None:
  "run_calculation_on_file fmt env db None algs bb pen = (ev, Inr (written, file)) \<longleftrightarrow>
     run_calculation env db None algs bb pen = (ev, Inr written) \<and> file = to_csv fmt written"
  by (auto simp: run_calculation_on_file_def read_previous_def split: prod.splits sum.splits)

lemma run_calculation_on_file_Some:
  "read_csv fmt contents = Inr prev \<Longrightarrow>
   run_calculation_on_file fmt env db (Some contents) algs bb pen =
     (case run_calculation env db (Some prev) algs bb pen of
        (ev, Inl e) \<Rightarrow> (ev, Inl e)
      | (ev, Inr merged) \<Rightarrow> (ev, Inr (merged, to_csv fmt merged)))"
  by (simp add: run_calculation_on_file_def read_previous_def)

lemma rerun_on_written_table:
  assumes "run_calculation env db None algs bb pen = (ev, Inr written)"
      and "distinct (map filepath db)"
  shows "run_calculation env db (Some written) algs bb pen = ([], Inr written)"
proof -
  let ?ips = "enumerate 0 (rev (map filepath db))"
  note first = first_run_written [OF assms]
  from first(4) have ips: "?ips \<noteq> []" by (simp add: enumerate_eq_zip)
  have loop: "run_loop env db (Some written) algs bb pen ?ips empty_frame =
           ([], Inr \<lparr>columns = RESULTS_DATA_COLUMNS,
                     rows = concat (map (\<lambda>ip. drop_dups (position_rows env db algs bb pen ip)) ?ips)\<rparr>)"
    using second_run_loop [OF first(3) first(2) assms(2) first(1) subset_refl ips, of empty_frame]
    by (simp add: empty_frame_def)
  have "merge_database \<lparr>columns = RESULTS_DATA_COLUMNS,
                     rows = concat (map (\<lambda>ip. drop_dups (position_rows env db algs bb pen ip)) ?ips)\<rparr> db
        = Inr \<lparr>columns = RESULTS_DATA_COLUMNS @ DATABASE_COLUMNS,
               rows = concat (map (\<lambda>ip. map (\<lambda>r. r @ database_cells (db ! (length db - 1 - fst ip)))
                                       (drop_dups (position_rows env db algs bb pen ip))) ?ips)\<rparr>"
    using assms(2) position_rows_shape(2) [OF first(3)]
    by (intro merge_position_rows) auto
  then have merged: "merge_database \<lparr>columns = RESULTS_DATA_COLUMNS,
                     rows = concat (map (\<lambda>ip. drop_dups (position_rows env db algs bb pen ip)) ?ips)\<rparr> db
        = Inr written"
    by (simp only: first(1) drop_dups_joined_rows)
  have d: "distinct (rows written)"
    using assms(1) by (rule run_calculation_distinct)
  have len: "\<forall>r \<in> set (rows written). length r = length (RESULTS_DATA_COLUMNS @ DATABASE_COLUMNS)"
    unfolding fifteen_columns(6)
  proof
    fix r assume "r \<in> set (rows written)"
    then obtain ip where "r \<in> set (joined_rows env db algs bb pen ip)"
      by (subst (asm) first(1)) auto
    then show "length r = 15" by (rule joined_rows_shape(1) [OF first(3)])
  qed
  have cols: "columns written = RESULTS_DATA_COLUMNS @ DATABASE_COLUMNS"
    by (subst first(1)) simp
  have "concat_frames written written =
          \<lparr>columns = RESULTS_DATA_COLUMNS @ DATABASE_COLUMNS, rows = rows written @ rows written\<rparr>"
    using cols cols fifteen_columns(5) len len by (rule concat_frames_same)
  then have "drop_duplicates (concat_frames written written) = written"
    using d cols by (simp add: drop_duplicates_def drop_dups_twice)
  then show ?thesis
    by (simp add: run_calculation_def loop merged)
qed

text \<open>
  Claim C3, as stated, says that a second run over an unchanged dataset, reading the
  file the first run wrote, writes the same table again. Two examples show otherwise.
  In the first, the first run reads a persisted table with the nine result columns that
  holds a PyMedPhys row computed earlier with other settings; with both algorithms
  selected it recomputes the image and writes three rows, the old one with no dataset
  values. The second run reuses all three rows, joins them with the dataset, and writes
  a fourth row: the old result with the dataset values. In the second example the first
  run finds no results file, and the treatment of the image is named \<^verbatim>\<open>1\<close>; the
  file is parsed with that name as a number, the reused result is joined with the
  dataset's string again, and the second run writes both rows.
\<close>

theorem second_run_adds_row_counterexample:
  "snd (run_calculation_on_file exact_csv env_found one_image (Some persisted_nine)
          [''PyMedPhys'', ''PyLinac''] (Num 8) (Num 2)) = Inr (first_written, first_written)
   \<and> run_calculation_on_file exact_csv env_found one_image (Some first_written)
          [''PyMedPhys'', ''PyLinac''] (Num 8) (Num 2) = ([], Inr (second_written, second_written))
   \<and> second_written \<noteq> first_written
   \<and> length (rows first_written) = 3 \<and> length (rows second_written) = 4
   \<and> snd (run_calculation_on_file digits_csv env_found numbered_image None
          [''PyMedPhys''] (Num 8) (Num 2)) = Inr (numbered_written, numbered_written)
   \<and> run_calculation_on_file digits_csv env_found numbered_image (Some numbered_written)
          [''PyMedPhys''] (Num 8) (Num 2) = ([], Inr (numbered_rewritten, numbered_rewritten))
   \<and> numbered_rewritten \<noteq> numbered_written"
  by code_simp

text \<open>
  Claim C3, amended: when the first run finds no results file, the filepaths of the
  dataset are distinct, and the file the first run wrote is parsed back as the table
  that was written, a second run over the same dataset with the same selection and
  settings invokes no detection, merges to that same table and writes the same file.
\<close>

theorem second_run_writes_same_table:
  assumes "run_calculation_on_file fmt env db None algs bb pen = (ev, Inr (written, file))"
      and "read_csv fmt file = Inr written"
      and "distinct (map filepath db)"
  shows "run_calculation_on_file fmt env db (Some file) algs bb pen = ([], Inr (written, file))"
proof -
  from assms(1) have first: "run_calculation env db None algs bb pen = (ev, Inr written)"
    and contents: "file = to_csv fmt written"
    by (simp_all add: run_calculation_on_file_None)
  from first assms(3) have "run_calculation env db (Some written) algs bb pen = ([], Inr written)"
    by (rule rerun_on_written_table)
  with assms(2) contents show ?thesis by (simp add: run_calculation_on_file_Some)
qed

theorem second_run_writes_same_table_witness:
  "run_calculation_on_file exact_csv env_found two_images (Some two_images_written)
     [''PyMedPhys''] (Num 8) (Num 2) = ([], Inr (two_images_written, two_images_written))"
proof -
  have first: "run_calculation_on_file exact_csv env_found two_images None [''PyMedPhys'']
      (Num 8) (Num 2) =
     ([Invoked ''PyMedPhys''
         \<lparr>bb_diameter = Num 8, edge_lengths = (Num 10, Num 10), penumbra = Num 2,
          field = ''b.jpg'', pymedphys_field_centre = (Num 1, Num 2), field_rotation = Num 0\<rparr>,
       Invoked ''PyMedPhys''
         \<lparr>bb_diameter = Num 8, edge_lengths = (Num 20, Num 5), penumbra = Num 2,
          field = ''a.jpg'', pymedphys_field_centre = (Num 1, Num 2), field_rotation = Num 0\<rparr>],
      Inr (two_images_written, two_images_written))"
    by (simp add: run_calculation_on_file_None two_images_run exact_csv_def)
  have parsed: "read_csv exact_csv two_images_written = Inr two_images_written"
    by (simp add: exact_csv_def two_images_written_def RESULTS_DATA_COLUMNS_def)
  have "distinct (map filepath two_images)" by (simp add: two_images_def)
  with second_run_writes_same_table [OF first parsed] show ?thesis .
qed
end
